(* ===== verification/Modules.thy ===== *)
theory Modules
  imports Main
begin

text \<open>
  How the application is put together: every class Nest constructs, with the tokens its constructor asks for, and
  every \<open>@Module\<close> with its imports, providers, controllers and exports. A constructor argument is found among the
  providers of the module itself, the exports of its imports (a module may export an import again) and the exports
  of the global modules. What a module of a library exports is the argument \<open>lib\<close>: it maps the class and the key of a
  registration, \<open>ClientsModule\<close> and the name of the client for instance, to tokens. A dependency that is not found, or
  a circle of constructors, stops the application when it starts.
\<close>

section \<open>Modules and what they see\<close>

record injectable =
  in_token :: string
  in_deps :: "string list"

definition injectable :: "string \<Rightarrow> string list \<Rightarrow> injectable" where
  "injectable t ds = \<lparr>in_token = t, in_deps = ds\<rparr>"

text \<open>\<open>{ provide, useValue }\<close>\<close>

definition constant_provider :: "string \<Rightarrow> injectable" where
  "constant_provider t = injectable t []"

datatype module_ref = Own string | Lib string string

datatype exported_item = Item string | Reexport string

record nest_module =
  nm_name :: string
  nm_global :: bool
  nm_imports :: "module_ref list"
  nm_providers :: "injectable list"
  nm_controllers :: "injectable list"
  nm_exports :: "exported_item list"

type_synonym library = "string \<Rightarrow> string \<Rightarrow> string list"

fun ref_class :: "module_ref \<Rightarrow> string" where
  "ref_class (Own n) = n"
| "ref_class (Lib c k) = c"

definition tokens :: "nest_module \<Rightarrow> string list" where
  "tokens m = map in_token (nm_providers m)"

text \<open>The tokens a reference brings in; the number bounds how often a module exports an import again.\<close>

fun exported :: "nat \<Rightarrow> library \<Rightarrow> nest_module list \<Rightarrow> module_ref \<Rightarrow> string list"
and export_item :: "nat \<Rightarrow> library \<Rightarrow> nest_module list \<Rightarrow> nest_module \<Rightarrow> exported_item \<Rightarrow> string list" where
  "exported n lib ms (Lib c k) = lib c k"
| "exported 0 lib ms (Own name) = []"
| "exported (Suc n) lib ms (Own name) = (case find (\<lambda>m. nm_name m = name) ms of
     None \<Rightarrow> [] | Some m \<Rightarrow> concat (map (export_item n lib ms m) (nm_exports m)))"
| "export_item n lib ms m (Item t) = (if t \<in> set (tokens m) then [t] else [])"
| "export_item n lib ms m (Reexport c) =
     concat (map (exported n lib ms) (filter (\<lambda>r. ref_class r = c) (nm_imports m)))"

text \<open>\<open>ConfigModule\<close> is registered as global, \<open>I18nModule\<close> and Nest's own core are.\<close>

definition global_refs :: "nest_module list \<Rightarrow> module_ref list" where
  "global_refs ms = map (Own \<circ> nm_name) (filter nm_global ms)
     @ [Lib ''ConfigModule'' '''', Lib ''I18nModule'' '''', Lib ''InternalCoreModule'' '''']"

definition visible :: "library \<Rightarrow> nest_module list \<Rightarrow> nest_module \<Rightarrow> string list" where
  "visible lib ms m = tokens m @ concat (map (exported (length ms) lib ms) (nm_imports m @ global_refs ms))"

text \<open>A dependency of a module that is not visible there; an export that is neither its own nor an import's.\<close>

definition unresolved :: "library \<Rightarrow> nest_module list \<Rightarrow> nest_module \<Rightarrow> string list" where
  "unresolved lib ms m =
     (let seen = visible lib ms m
      in filter (\<lambda>t. t \<notin> set seen) (concat (map in_deps (nm_providers m @ nm_controllers m))))"

definition export_ok :: "nest_module \<Rightarrow> exported_item \<Rightarrow> bool" where
  "export_ok m e = (case e of Item t \<Rightarrow> t \<in> set (tokens m) | Reexport c \<Rightarrow> c \<in> ref_class ` set (nm_imports m))"

definition import_ok :: "nest_module list \<Rightarrow> module_ref \<Rightarrow> bool" where
  "import_ok ms r = (case r of Own n \<Rightarrow> n \<in> nm_name ` set ms | Lib c k \<Rightarrow> True)"

definition well_formed :: "nest_module list \<Rightarrow> bool" where
  "well_formed ms \<longleftrightarrow> distinct (map nm_name ms)
     \<and> list_all (\<lambda>m. list_all (export_ok m) (nm_exports m) \<and> list_all (import_ok ms) (nm_imports m)) ms"

text \<open>
  Construction proceeds in sweeps: what has all its arguments is built, the others wait for the next sweep. Modules are
  loaded the same way, their imports first. What is left when a sweep builds nothing is stuck in a circle.
\<close>

fun sweep :: "('a \<Rightarrow> string) \<Rightarrow> ('a \<Rightarrow> string list) \<Rightarrow> 'a list \<Rightarrow> string list \<Rightarrow> string list \<times> 'a list" where
  "sweep name needs [] built = (built, [])"
| "sweep name needs (x # xs) built =
     (if list_all (\<lambda>t. t \<in> set built) (needs x) then sweep name needs xs (name x # built)
      else (case sweep name needs xs built of (built', waiting) \<Rightarrow> (built', x # waiting)))"

lemma sweep_length: "length (snd (sweep name needs xs built)) \<le> length xs"
  by (induction name needs xs built rule: sweep.induct) (auto split: prod.splits intro: le_SucI)

function build :: "('a \<Rightarrow> string) \<Rightarrow> ('a \<Rightarrow> string list) \<Rightarrow> 'a list \<Rightarrow> string list \<Rightarrow> 'a list" where
  "build name needs waiting built = (case sweep name needs waiting built of (built', waiting') \<Rightarrow>
     if length waiting' < length waiting then build name needs waiting' built' else waiting')"
  by pat_completeness auto
termination
  by (relation "measure (\<lambda>(name, needs, waiting, built). length waiting)") auto

declare build.simps [simp del]

definition own_imports :: "nest_module \<Rightarrow> string list" where
  "own_imports m = concat (map (\<lambda>r. case r of Own n \<Rightarrow> [n] | Lib c k \<Rightarrow> []) (nm_imports m))"

section \<open>The classes\<close>

definition AppController_class :: injectable where
  "AppController_class = injectable ''AppController''
     [''AppService'']"

definition AppService_class :: injectable where
  "AppService_class = injectable ''AppService''
     [''PrismaService'', ''CustomLoggerService'', ''I18nService'']"

definition ArticlePreviewClientService_class :: injectable where
  "ArticlePreviewClientService_class = injectable ''ArticlePreviewClientService''
     [''CONTENT_PREVIEW_GRPC_CLIENT'']"

definition ArticleResponseMapper_class :: injectable where
  "ArticleResponseMapper_class = injectable ''ArticleResponseMapper''
     [''FileStorageService'']"

definition ArticleSlugService_class :: injectable where
  "ArticleSlugService_class = injectable ''ArticleSlugService''
     [''ArticlesRepository'', ''I18nService'']"

definition ArticlesController_class :: injectable where
  "ArticlesController_class = injectable ''ArticlesController''
     [''ArticlesService'', ''ArticlePreviewClientService'']"

definition ArticlesRepository_class :: injectable where
  "ArticlesRepository_class = injectable ''ArticlesRepository''
     [''PrismaService'']"

definition ArticlesService_class :: injectable where
  "ArticlesService_class = injectable ''ArticlesService''
     [''ArticlesRepository'', ''ArticleSlugService'', ''ArticleResponseMapper'', ''I18nService'',
      ''ArticleEventProducer'']"

definition ExpiredProviderLinkCleanupService_class :: injectable where
  "ExpiredProviderLinkCleanupService_class = injectable ''ExpiredProviderLinkCleanupService''
     [''PendingProviderLinkRepository'', ''CustomLoggerService'']"

definition PendingProviderLinkRepository_class :: injectable where
  "PendingProviderLinkRepository_class = injectable ''PendingProviderLinkRepository''
     [''PrismaService'']"

definition ProviderLinkService_class :: injectable where
  "ProviderLinkService_class = injectable ''ProviderLinkService''
     [''PrismaService'', ''PendingProviderLinkRepository'', ''AuthProviderRepository'', ''EmailQueueProducer'',
      ''CustomLoggerService'', ''I18nService'']"

definition AccountResolverService_class :: injectable where
  "AccountResolverService_class = injectable ''AccountResolverService''
     [''PrismaService'', ''AccountUserRepository'', ''AuthProviderRepository'', ''ProviderLinkService'']"

definition AccountUserRepository_class :: injectable where
  "AccountUserRepository_class = injectable ''AccountUserRepository''
     [''PrismaService'']"

definition AuthProviderRepository_class :: injectable where
  "AuthProviderRepository_class = injectable ''AuthProviderRepository''
     [''PrismaService'']"

definition AuthController_class :: injectable where
  "AuthController_class = injectable ''AuthController''
     [''AuthService'']"

definition AuthRepository_class :: injectable where
  "AuthRepository_class = injectable ''AuthRepository''
     [''PrismaService'']"

definition AuthService_class :: injectable where
  "AuthService_class = injectable ''AuthService''
     [''AuthRepository'', ''TokenService'', ''PasswordService'', ''AccountResolverService'',
      ''FileStorageService'', ''ProviderLinkService'']"

definition JwtAuthGuard_class :: injectable where
  "JwtAuthGuard_class = injectable ''JwtAuthGuard''
     []"

definition OptionalJwtAuthGuard_class :: injectable where
  "OptionalJwtAuthGuard_class = injectable ''OptionalJwtAuthGuard''
     []"

definition GoogleAuthController_class :: injectable where
  "GoogleAuthController_class = injectable ''GoogleAuthController''
     [''AuthService'']"

definition GoogleStrategy_class :: injectable where
  "GoogleStrategy_class = injectable ''GoogleStrategy''
     [''GOOGLE_AUTH_CONFIG'']"

definition JwtStrategy_class :: injectable where
  "JwtStrategy_class = injectable ''JwtStrategy''
     [''ConfigService'']"

definition ExpiredTokenCleanupService_class :: injectable where
  "ExpiredTokenCleanupService_class = injectable ''ExpiredTokenCleanupService''
     [''RefreshTokenRepository'', ''CustomLoggerService'']"

definition RefreshTokenRepository_class :: injectable where
  "RefreshTokenRepository_class = injectable ''RefreshTokenRepository''
     [''PrismaService'']"

definition TokenService_class :: injectable where
  "TokenService_class = injectable ''TokenService''
     [''JwtService'', ''RefreshTokenRepository'', ''PrismaService'', ''ConfigService'']"

definition CommentResponseMapper_class :: injectable where
  "CommentResponseMapper_class = injectable ''CommentResponseMapper''
     [''FileStorageService'']"

definition CommentsController_class :: injectable where
  "CommentsController_class = injectable ''CommentsController''
     [''CommentsService'']"

definition CommentsRepository_class :: injectable where
  "CommentsRepository_class = injectable ''CommentsRepository''
     [''PrismaService'']"

definition CommentsService_class :: injectable where
  "CommentsService_class = injectable ''CommentsService''
     [''ArticlesRepository'', ''CommentsRepository'', ''CommentResponseMapper'', ''I18nService'']"

definition AllExceptionsFilter_class :: injectable where
  "AllExceptionsFilter_class = injectable ''AllExceptionsFilter''
     [''HttpAdapterHost'', ''CustomLoggerService'']"

definition PasswordService_class :: injectable where
  "PasswordService_class = injectable ''PasswordService''
     [''ConfigService'']"

definition ContentPreviewAnalyzerService_class :: injectable where
  "ContentPreviewAnalyzerService_class = injectable ''ContentPreviewAnalyzerService''
     []"

definition ContentPreviewGrpcController_class :: injectable where
  "ContentPreviewGrpcController_class = injectable ''ContentPreviewGrpcController''
     [''ContentPreviewAnalyzerService'']"

definition EmailJobRegistry_class :: injectable where
  "EmailJobRegistry_class = injectable ''EmailJobRegistry''
     []"

definition EmailQueueReadinessService_class :: injectable where
  "EmailQueueReadinessService_class = injectable ''EmailQueueReadinessService''
     [''Queue email-producer'']"

definition EmailQueueProducer_class :: injectable where
  "EmailQueueProducer_class = injectable ''EmailQueueProducer''
     [''Queue email-producer'', ''CustomLoggerService'']"

definition EmailProcessor_class :: injectable where
  "EmailProcessor_class = injectable ''EmailProcessor''
     [''EmailJobRegistry'', ''CustomLoggerService'']"

definition ArticleNotificationHandler_class :: injectable where
  "ArticleNotificationHandler_class = injectable ''ArticleNotificationHandler''
     [''EmailJobRegistry'', ''SMTP_MAIL_SENDER'', ''CustomLoggerService'']"

definition ProviderLinkConfirmationHandler_class :: injectable where
  "ProviderLinkConfirmationHandler_class = injectable ''ProviderLinkConfirmationHandler''
     [''EmailJobRegistry'', ''ProviderLinkEmailTemplateService'', ''SMTP_MAIL_SENDER'', ''CustomLoggerService'']"

definition ProviderLinkEmailTemplateService_class :: injectable where
  "ProviderLinkEmailTemplateService_class = injectable ''ProviderLinkEmailTemplateService''
     [''ConfigService'']"

definition SmtpMailSender_class :: injectable where
  "SmtpMailSender_class = injectable ''SmtpMailSender''
     [''ConfigService'', ''CustomLoggerService'']"

definition FavoritesController_class :: injectable where
  "FavoritesController_class = injectable ''FavoritesController''
     [''FavoritesService'']"

definition FavoritesRepository_class :: injectable where
  "FavoritesRepository_class = injectable ''FavoritesRepository''
     [''PrismaService'']"

definition FavoritesService_class :: injectable where
  "FavoritesService_class = injectable ''FavoritesService''
     [''ArticlesRepository'', ''FavoritesRepository'', ''ArticleResponseMapper'', ''I18nService'',
      ''ArticleEventProducer'', ''UsersRepository'']"

definition S3StorageDriver_class :: injectable where
  "S3StorageDriver_class = injectable ''S3StorageDriver''
     [''ConfigService'']"

definition FileStorageService_class :: injectable where
  "FileStorageService_class = injectable ''FileStorageService''
     [''STORAGE_DRIVER'', ''CustomLoggerService'']"

definition HealthController_class :: injectable where
  "HealthController_class = injectable ''HealthController''
     [''HealthService'']"

definition HealthService_class :: injectable where
  "HealthService_class = injectable ''HealthService''
     [''PrismaService'', ''EmailQueueReadinessService'']"

definition ImageProcessingService_class :: injectable where
  "ImageProcessingService_class = injectable ''ImageProcessingService''
     [''PiscinaPoolService'', ''CustomLoggerService'', ''IMAGE_PROCESSING_WORKER_PATH_TOKEN'']"

definition ArticleNotificationConsumer_class :: injectable where
  "ArticleNotificationConsumer_class = injectable ''ArticleNotificationConsumer''
     [''UsersRepository'', ''EmailQueueProducer'', ''CustomLoggerService'']"

definition ArticleEventProducer_class :: injectable where
  "ArticleEventProducer_class = injectable ''ArticleEventProducer''
     [''KAFKA_CLIENT'', ''CustomLoggerService'']"

definition CustomLoggerService_class :: injectable where
  "CustomLoggerService_class = injectable ''CustomLoggerService''
     [''LOGGER_OPTIONS'']"

definition PrismaService_class :: injectable where
  "PrismaService_class = injectable ''PrismaService''
     [''ConfigService'', ''CustomLoggerService'']"

definition ProfilesController_class :: injectable where
  "ProfilesController_class = injectable ''ProfilesController''
     [''ProfilesService'']"

definition ProfilesRepository_class :: injectable where
  "ProfilesRepository_class = injectable ''ProfilesRepository''
     [''PrismaService'']"

definition ProfilesService_class :: injectable where
  "ProfilesService_class = injectable ''ProfilesService''
     [''ProfilesRepository'', ''I18nService'', ''FileStorageService'']"

definition AvatarReplacementService_class :: injectable where
  "AvatarReplacementService_class = injectable ''AvatarReplacementService''
     [''UsersRepository'', ''PrismaService'', ''ImageProcessingService'', ''FileStorageService'',
      ''CustomLoggerService'']"

definition UsersController_class :: injectable where
  "UsersController_class = injectable ''UsersController''
     [''UsersService'']"

definition UsersRepository_class :: injectable where
  "UsersRepository_class = injectable ''UsersRepository''
     [''PrismaService'']"

definition UsersService_class :: injectable where
  "UsersService_class = injectable ''UsersService''
     [''UsersRepository'', ''I18nService'', ''AvatarReplacementService'', ''FileStorageService'']"

definition PiscinaPoolService_class :: injectable where
  "PiscinaPoolService_class = injectable ''PiscinaPoolService''
     [''CustomLoggerService'']"

section \<open>The modules\<close>

definition PrismaModule :: nest_module where
  "PrismaModule =
     \<lparr>nm_name = ''PrismaModule'', nm_global = True,
      nm_imports =
        [],
      nm_providers =
        [PrismaService_class],
      nm_controllers =
        [],
      nm_exports =
        [Item ''PrismaService'']\<rparr>"

definition LoggerModule :: nest_module where
  "LoggerModule =
     \<lparr>nm_name = ''LoggerModule'', nm_global = True,
      nm_imports =
        [],
      nm_providers =
        [constant_provider ''LOGGER_OPTIONS'', CustomLoggerService_class],
      nm_controllers =
        [],
      nm_exports =
        [Item ''CustomLoggerService'']\<rparr>"

definition FileStorageModule :: nest_module where
  "FileStorageModule =
     \<lparr>nm_name = ''FileStorageModule'', nm_global = True,
      nm_imports =
        [],
      nm_providers =
        [(S3StorageDriver_class)\<lparr>in_token := ''STORAGE_DRIVER''\<rparr>, FileStorageService_class],
      nm_controllers =
        [],
      nm_exports =
        [Item ''FileStorageService'', Item ''STORAGE_DRIVER'']\<rparr>"

definition PasswordModule :: nest_module where
  "PasswordModule =
     \<lparr>nm_name = ''PasswordModule'', nm_global = False,
      nm_imports =
        [],
      nm_providers =
        [PasswordService_class],
      nm_controllers =
        [],
      nm_exports =
        [Item ''PasswordService'']\<rparr>"

definition WorkerPoolModule :: nest_module where
  "WorkerPoolModule =
     \<lparr>nm_name = ''WorkerPoolModule'', nm_global = False,
      nm_imports =
        [],
      nm_providers =
        [PiscinaPoolService_class],
      nm_controllers =
        [],
      nm_exports =
        [Item ''PiscinaPoolService'']\<rparr>"

definition ImageProcessingModule :: nest_module where
  "ImageProcessingModule =
     \<lparr>nm_name = ''ImageProcessingModule'', nm_global = False,
      nm_imports =
        [Own ''WorkerPoolModule''],
      nm_providers =
        [constant_provider ''IMAGE_PROCESSING_WORKER_PATH_TOKEN'', ImageProcessingService_class],
      nm_controllers =
        [],
      nm_exports =
        [Item ''ImageProcessingService'']\<rparr>"

definition BackgroundJobsModule :: nest_module where
  "BackgroundJobsModule =
     \<lparr>nm_name = ''BackgroundJobsModule'', nm_global = True,
      nm_imports =
        [Lib ''BullModule'' ''forRoot email-producer'', Lib ''BullModule'' ''forRoot email-worker''],
      nm_providers =
        [],
      nm_controllers =
        [],
      nm_exports =
        [Reexport ''BullModule'']\<rparr>"

definition EmailModule :: nest_module where
  "EmailModule =
     \<lparr>nm_name = ''EmailModule'', nm_global = False,
      nm_imports =
        [Own ''BackgroundJobsModule'', Lib ''BullModule'' ''queue email-producer''],
      nm_providers =
        [EmailJobRegistry_class, EmailQueueProducer_class, EmailQueueReadinessService_class,
         EmailProcessor_class, ProviderLinkConfirmationHandler_class, ArticleNotificationHandler_class,
         ProviderLinkEmailTemplateService_class,
         (SmtpMailSender_class)\<lparr>in_token := ''SMTP_MAIL_SENDER''\<rparr>],
      nm_controllers =
        [],
      nm_exports =
        [Reexport ''BullModule'', Item ''EmailJobRegistry'', Item ''EmailQueueProducer'',
         Item ''EmailQueueReadinessService'', Item ''SMTP_MAIL_SENDER'']\<rparr>"

definition AuthModule :: nest_module where
  "AuthModule =
     \<lparr>nm_name = ''AuthModule'', nm_global = False,
      nm_imports =
        [Own ''PrismaModule'', Own ''PasswordModule'', Own ''EmailModule'', Lib ''PassportModule'' ''jwt'',
         Lib ''JwtModule'' ''''],
      nm_providers =
        [AuthService_class, AuthRepository_class, JwtStrategy_class, JwtAuthGuard_class,
         OptionalJwtAuthGuard_class, RefreshTokenRepository_class, TokenService_class,
         ExpiredTokenCleanupService_class, AccountUserRepository_class, AuthProviderRepository_class,
         AccountResolverService_class, PendingProviderLinkRepository_class, ProviderLinkService_class,
         ExpiredProviderLinkCleanupService_class],
      nm_controllers =
        [AuthController_class],
      nm_exports =
        [Item ''AuthService'', Item ''JwtAuthGuard'', Item ''OptionalJwtAuthGuard'', Item ''TokenService'',
         Item ''AccountResolverService'', Item ''ProviderLinkService'', Item ''PendingProviderLinkRepository'']\<rparr>"

definition UsersModule :: nest_module where
  "UsersModule =
     \<lparr>nm_name = ''UsersModule'', nm_global = False,
      nm_imports =
        [Own ''PrismaModule'', Own ''ImageProcessingModule''],
      nm_providers =
        [UsersService_class, UsersRepository_class, AvatarReplacementService_class],
      nm_controllers =
        [UsersController_class],
      nm_exports =
        [Item ''UsersService'', Item ''UsersRepository'']\<rparr>"

definition KafkaModule :: nest_module where
  "KafkaModule =
     \<lparr>nm_name = ''KafkaModule'', nm_global = False,
      nm_imports =
        [Own ''UsersModule'', Own ''EmailModule'', Lib ''ClientsModule'' ''KAFKA_CLIENT''],
      nm_providers =
        [ArticleEventProducer_class],
      nm_controllers =
        [ArticleNotificationConsumer_class],
      nm_exports =
        [Reexport ''ClientsModule'', Item ''ArticleEventProducer'']\<rparr>"

definition ContentPreviewModule :: nest_module where
  "ContentPreviewModule =
     \<lparr>nm_name = ''ContentPreviewModule'', nm_global = False,
      nm_imports =
        [Lib ''ClientsModule'' ''CONTENT_PREVIEW_GRPC_CLIENT''],
      nm_providers =
        [ContentPreviewAnalyzerService_class, ArticlePreviewClientService_class],
      nm_controllers =
        [ContentPreviewGrpcController_class],
      nm_exports =
        [Reexport ''ClientsModule'', Item ''ArticlePreviewClientService'']\<rparr>"

definition ArticlesModule :: nest_module where
  "ArticlesModule =
     \<lparr>nm_name = ''ArticlesModule'', nm_global = False,
      nm_imports =
        [Own ''PrismaModule'', Own ''AuthModule'', Own ''KafkaModule'', Own ''ContentPreviewModule''],
      nm_providers =
        [ArticlesService_class, ArticlesRepository_class, ArticleSlugService_class, ArticleResponseMapper_class],
      nm_controllers =
        [ArticlesController_class],
      nm_exports =
        [Item ''ArticlesService'', Item ''ArticlesRepository'', Item ''ArticleResponseMapper'']\<rparr>"

definition CommentsModule :: nest_module where
  "CommentsModule =
     \<lparr>nm_name = ''CommentsModule'', nm_global = False,
      nm_imports =
        [Own ''PrismaModule'', Own ''AuthModule'', Own ''ArticlesModule''],
      nm_providers =
        [CommentsService_class, CommentsRepository_class, CommentResponseMapper_class],
      nm_controllers =
        [CommentsController_class],
      nm_exports =
        []\<rparr>"

definition ProfilesModule :: nest_module where
  "ProfilesModule =
     \<lparr>nm_name = ''ProfilesModule'', nm_global = False,
      nm_imports =
        [Own ''PrismaModule'', Own ''AuthModule''],
      nm_providers =
        [ProfilesService_class, ProfilesRepository_class],
      nm_controllers =
        [ProfilesController_class],
      nm_exports =
        []\<rparr>"

definition FavoritesModule :: nest_module where
  "FavoritesModule =
     \<lparr>nm_name = ''FavoritesModule'', nm_global = False,
      nm_imports =
        [Own ''PrismaModule'', Own ''AuthModule'', Own ''ArticlesModule'', Own ''KafkaModule'',
         Own ''UsersModule''],
      nm_providers =
        [FavoritesService_class, FavoritesRepository_class],
      nm_controllers =
        [FavoritesController_class],
      nm_exports =
        []\<rparr>"

definition HealthModule :: nest_module where
  "HealthModule =
     \<lparr>nm_name = ''HealthModule'', nm_global = False,
      nm_imports =
        [Own ''PrismaModule'', Own ''EmailModule''],
      nm_providers =
        [HealthService_class],
      nm_controllers =
        [HealthController_class],
      nm_exports =
        []\<rparr>"

text \<open>Without its configuration the Google module registers nothing.\<close>

definition GoogleAuthModule :: "bool \<Rightarrow> nest_module" where
  "GoogleAuthModule configured =
     (if configured then
        \<lparr>nm_name = ''GoogleAuthModule'', nm_global = False, nm_imports = [Own ''AuthModule''],
         nm_providers = [constant_provider ''GOOGLE_AUTH_CONFIG'', GoogleStrategy_class],
         nm_controllers = [GoogleAuthController_class], nm_exports = []\<rparr>
      else \<lparr>nm_name = ''GoogleAuthModule'', nm_global = False, nm_imports = [], nm_providers = [], nm_controllers = [],
         nm_exports = []\<rparr>)"

definition AppModule :: nest_module where
  "AppModule =
     \<lparr>nm_name = ''AppModule'', nm_global = False,
      nm_imports =
        [Lib ''ConfigModule'' '''', Lib ''ScheduleModule'' '''', Lib ''I18nModule'' '''', Own ''PrismaModule'',
         Own ''LoggerModule'', Own ''FileStorageModule'', Own ''AuthModule'', Own ''GoogleAuthModule'',
         Own ''UsersModule'', Own ''ArticlesModule'', Own ''CommentsModule'', Own ''ProfilesModule'',
         Own ''FavoritesModule'', Own ''HealthModule'', Own ''BackgroundJobsModule'', Own ''EmailModule'',
         Own ''KafkaModule''],
      nm_providers =
        [AppService_class, (AllExceptionsFilter_class)\<lparr>in_token := ''APP_FILTER''\<rparr>],
      nm_controllers =
        [AppController_class],
      nm_exports =
        []\<rparr>"

section \<open>The application\<close>

definition application :: "bool \<Rightarrow> nest_module list" where
  "application google =
     [LoggerModule, PrismaModule, FileStorageModule, PasswordModule, WorkerPoolModule, ImageProcessingModule,
      BackgroundJobsModule, EmailModule, AuthModule, GoogleAuthModule google, UsersModule, KafkaModule,
      ContentPreviewModule, ArticlesModule, CommentsModule, ProfilesModule, FavoritesModule, HealthModule, AppModule]"

text \<open>What the libraries document of their modules.\<close>

definition documented_exports :: "(string \<times> string \<times> string) list" where
  "documented_exports =
     [(''ConfigModule'', '''', ''ConfigService''), (''I18nModule'', '''', ''I18nService''),
      (''InternalCoreModule'', '''', ''HttpAdapterHost''), (''JwtModule'', '''', ''JwtService''),
      (''BullModule'', ''queue email-producer'', ''Queue email-producer''),
      (''ClientsModule'', ''KAFKA_CLIENT'', ''KAFKA_CLIENT''),
      (''ClientsModule'', ''CONTENT_PREVIEW_GRPC_CLIENT'', ''CONTENT_PREVIEW_GRPC_CLIENT'')]"

definition documented_library :: library where
  "documented_library c k = map (snd \<circ> snd) (filter (\<lambda>(c', k', t). c' = c \<and> k' = k) documented_exports)"

definition library_tokens :: "string list" where
  "library_tokens = map (snd \<circ> snd) documented_exports"

section \<open>Lemmas\<close>

text \<open>A library that exports more makes more visible, so what is resolved stays resolved.\<close>

lemma exported_mono:
  assumes "\<And>c k. set (lib c k) \<subseteq> set (lib' c k)"
  shows "set (exported n lib ms r) \<subseteq> set (exported n lib' ms r)"
    and "set (export_item n lib ms m e) \<subseteq> set (export_item n lib' ms m e)"
  using assms
proof (induction n lib ms r and n lib ms m e rule: exported_export_item.induct)
  case (1 n lib ms c k)
  then show ?case using assms by simp
next
  case (3 n lib ms name)
  then show ?case by (cases "find (\<lambda>m. nm_name m = name) ms") (auto simp: subset_iff)
qed auto

lemma unresolved_mono:
  assumes "\<And>c k. set (lib c k) \<subseteq> set (lib' c k)" and "unresolved lib ms m = []"
  shows "unresolved lib' ms m = []"
proof -
  have e: "t \<in> set (exported n lib' ms r)" if "t \<in> set (exported n lib ms r)" for t n r
    using exported_mono(1) [of lib lib' n ms r] assms(1) that by blast
  have "t \<in> set (visible lib' ms m)" if vis: "t \<in> set (visible lib ms m)" for t
  proof -
    consider "t \<in> set (tokens m)"
      | r where "r \<in> set (nm_imports m @ global_refs ms)" "t \<in> set (exported (length ms) lib ms r)"
      using vis unfolding visible_def by auto
    then show ?thesis
    proof cases
      case 2
      then show ?thesis using e [OF 2(2)] unfolding visible_def set_append set_concat set_map by blast
    qed (simp add: visible_def)
  qed
  then show ?thesis using assms(2) by (auto simp: unresolved_def filter_empty_conv Let_def simp del: set_concat)
qed

lemma documented_library_least:
  assumes "list_all (\<lambda>(c, k, t). t \<in> set (lib c k)) documented_exports"
  shows "set (documented_library c k) \<subseteq> set (lib c k)"
  using assms by (auto simp: documented_library_def list_all_iff)

lemma application_wf: "well_formed (application True)" "well_formed (application False)"
  by code_simp+

lemma resolved_with_google:
  "list_all (\<lambda>m. unresolved documented_library (application True) m = []) (application True)"
  by code_simp

lemma resolved_without_google:
  "list_all (\<lambda>m. unresolved documented_library (application False) m = []) (application False)"
  by code_simp

definition all_classes :: "bool \<Rightarrow> injectable list" where
  "all_classes google = concat (map (\<lambda>m. nm_providers m @ nm_controllers m) (application google))"

lemma built_with_google: "build in_token in_deps (all_classes True) library_tokens = []"
  by code_simp

lemma built_without_google: "build in_token in_deps (all_classes False) library_tokens = []"
  by code_simp

lemma all_loaded:
  "build nm_name own_imports (application True) [] = []" "build nm_name own_imports (application False) [] = []"
  by code_simp+

section \<open>The application starts\<close>

text \<open>C37: With Google configured or without: when the libraries export what they document, every constructor argument of
  every class is visible in the module that constructs it, no module exports or imports what it does not have, the
  constructors depend on each other without a circle, and so do the imports of the modules.\<close>

theorem application_can_be_assembled:
  assumes "list_all (\<lambda>(c, k, t). t \<in> set (lib c k)) documented_exports"
  shows "well_formed (application google)
    \<and> list_all (\<lambda>m. unresolved lib (application google) m = []) (application google)
    \<and> build in_token in_deps (all_classes google) library_tokens = []
    \<and> build nm_name own_imports (application google) [] = []"
proof (intro conjI)
  have "list_all (\<lambda>m. unresolved documented_library (application google) m = []) (application google)"
    using resolved_with_google resolved_without_google by (cases google) simp_all
  then show "list_all (\<lambda>m. unresolved lib (application google) m = []) (application google)"
    using unresolved_mono [OF documented_library_least [OF assms]] by (simp add: list_all_iff)
qed (cases google; simp only: application_wf built_with_google built_without_google all_loaded)+

theorem application_can_be_assembled_witness:
  "list_all (\<lambda>m. unresolved documented_library (application True) m = []) (application True)"
proof -
  have "list_all (\<lambda>(c, k, t). t \<in> set (documented_library c k)) documented_exports" by code_simp
  then show ?thesis using application_can_be_assembled by blast
qed

end
