(* ===== verification/Prelude.thy ===== *)
theory Prelude
  imports Main
begin

text \<open>
  What the component theories share: results that may be an exception, the operations a
  repository performs on the rows of one table, descending sort keys, and the two contracts
  that several components rely on (a claim that succeeds at most once, a set of edges that
  idempotent requests switch on and off).
\<close>

named_theorems step_simps "one-step unfoldings of effectful operations"
named_theorems keeps "an operation keeps an invariant"

section \<open>Computations that may throw\<close>

text \<open>
  An asynchronous method of the code is a function of the state; it returns either an exception
  (\<open>Inl\<close>) or a value (\<open>Inr\<close>), together with the state it leaves behind.
\<close>

type_synonym ('e, 'a, 's) comp = "'s \<Rightarrow> ('e + 'a) \<times> 's"

definition andThen :: "('e + 'a) \<times> 's \<Rightarrow> ('a \<Rightarrow> ('e, 'b, 's) comp) \<Rightarrow> ('e + 'b) \<times> 's" where
  "andThen r f = (case r of (Inl e, s) \<Rightarrow> (Inl e, s) | (Inr x, s) \<Rightarrow> f x s)"

lemma andThen_simps [simp]:
  "andThen (Inl e, s) f = (Inl e, s)"
  "andThen (Inr x, s) f = f x s"
  by (simp_all add: andThen_def)

lemma andThen_eq_Inr:
  "andThen r f = (Inr y, t) \<longleftrightarrow> (\<exists>x s. r = (Inr x, s) \<and> f x s = (Inr y, t))"
  by (auto simp: andThen_def split: prod.splits sum.splits)

lemma andThen_split:
  "P (andThen r f) \<longleftrightarrow>
     (\<forall>e s. r = (Inl e, s) \<longrightarrow> P (Inl e, s)) \<and> (\<forall>x s. r = (Inr x, s) \<longrightarrow> P (f x s))"
  by (auto simp: andThen_def split: prod.splits sum.splits)

definition is_ok :: "'e + 'a \<Rightarrow> bool" where
  "is_ok r = (case r of Inl _ \<Rightarrow> False | Inr _ \<Rightarrow> True)"

lemma is_ok_simps [simp]: "\<not> is_ok (Inl e)" "is_ok (Inr x)"
  by (simp_all add: is_ok_def)

lemma is_okE: "is_ok r \<Longrightarrow> (\<And>x. r = Inr x \<Longrightarrow> P) \<Longrightarrow> P"
  by (cases r) auto

lemma option_by_Some: "(\<And>x. a = Some x \<longleftrightarrow> b = Some x) \<Longrightarrow> a = b"
  by (cases a; cases b) auto

section \<open>Rows of a table\<close>

definition upd_where :: "('r \<Rightarrow> bool) \<Rightarrow> ('r \<Rightarrow> 'r) \<Rightarrow> 'r list \<Rightarrow> 'r list" where
  "upd_where P f rows = map (\<lambda>r. if P r then f r else r) rows"

definition del_where :: "('r \<Rightarrow> bool) \<Rightarrow> 'r list \<Rightarrow> 'r list" where
  "del_where P rows = filter (\<lambda>r. \<not> P r) rows"

definition count_where :: "('r \<Rightarrow> bool) \<Rightarrow> 'r list \<Rightarrow> nat" where
  "count_where P rows = length (filter P rows)"

text \<open>A unique index over a column, and one over a nullable column (nulls never collide).\<close>

definition uniq :: "('r \<Rightarrow> 'k) \<Rightarrow> 'r list \<Rightarrow> bool" where
  "uniq key rows = distinct (map key rows)"

definition uniq_opt :: "('r \<Rightarrow> 'k option) \<Rightarrow> 'r list \<Rightarrow> bool" where
  "uniq_opt key rows = distinct (map key (filter (\<lambda>r. key r \<noteq> None) rows))"

lemma set_upd_where: "set (upd_where P f rows) = (\<lambda>r. if P r then f r else r) ` set rows"
  by (simp add: upd_where_def)

lemma set_del_where [simp]: "set (del_where P rows) = {r \<in> set rows. \<not> P r}"
  by (auto simp: del_where_def)

lemma upd_where_Nil [simp]: "upd_where P f [] = []"
  by (simp add: upd_where_def)

lemma del_where_Nil [simp]: "del_where P [] = []"
  by (simp add: del_where_def)

lemma upd_where_Cons [simp]:
  "upd_where P f (r # rows) = (if P r then f r else r) # upd_where P f rows"
  by (simp add: upd_where_def)

lemma del_where_Cons [simp]:
  "del_where P (r # rows) = (if P r then del_where P rows else r # del_where P rows)"
  by (simp add: del_where_def)

lemma length_upd_where [simp]: "length (upd_where P f rows) = length rows"
  by (simp add: upd_where_def)

lemma upd_where_none: "\<forall>r \<in> set rows. \<not> P r \<Longrightarrow> upd_where P f rows = rows"
  by (induction rows) auto

lemma del_where_none: "\<forall>r \<in> set rows. \<not> P r \<Longrightarrow> del_where P rows = rows"
  by (induction rows) auto

lemma del_where_append: "del_where P (xs @ ys) = del_where P xs @ del_where P ys"
  by (simp add: del_where_def)

lemma count_where_pos: "0 < count_where P rows \<longleftrightarrow> (\<exists>r \<in> set rows. P r)"
  by (auto simp: count_where_def filter_empty_conv)

lemma count_where_Cons [simp]:
  "count_where P (r # rows) = (if P r then Suc (count_where P rows) else count_where P rows)"
  by (simp add: count_where_def)

lemma count_where_Nil [simp]: "count_where P [] = 0"
  by (simp add: count_where_def)

lemma length_del_where: "length (del_where P rows) + count_where P rows = length rows"
  by (induction rows) auto

lemma count_where_zero: "count_where P rows = 0 \<longleftrightarrow> (\<forall>r \<in> set rows. \<not> P r)"
  by (auto simp: count_where_def filter_empty_conv)

lemma del_where_cong: "(\<And>r. r \<in> set rows \<Longrightarrow> P r = Q r) \<Longrightarrow> del_where P rows = del_where Q rows"
  by (auto simp: del_where_def intro: filter_cong)

lemma find_SomeD: "find P xs = Some x \<Longrightarrow> x \<in> set xs \<and> P x"
  by (induction xs) (auto split: if_splits)

lemma find_NoneD: "find P xs = None \<Longrightarrow> x \<in> set xs \<Longrightarrow> \<not> P x"
  by (induction xs) (auto split: if_splits)

lemma uniq_Nil [simp]: "uniq key []"
  by (simp add: uniq_def)

lemma uniq_Cons [simp]: "uniq key (r # rows) \<longleftrightarrow> key r \<notin> key ` set rows \<and> uniq key rows"
  by (simp add: uniq_def)

lemma uniq_append1: "uniq key (rows @ [r]) \<longleftrightarrow> uniq key rows \<and> key r \<notin> key ` set rows"
  by (auto simp: uniq_def)

lemma uniqD: "uniq key rows \<Longrightarrow> r \<in> set rows \<Longrightarrow> r' \<in> set rows \<Longrightarrow> key r = key r' \<Longrightarrow> r = r'"
  by (induction rows) (auto simp: image_iff)

lemma uniq_find:
  "uniq key rows \<Longrightarrow> r \<in> set rows \<Longrightarrow> key r = k \<Longrightarrow> find (\<lambda>x. key x = k) rows = Some r"
  by (induction rows) auto

lemma uniq_count_one:
  assumes "uniq key rows" and "r \<in> set rows" and "P r" and "\<And>x. x \<in> set rows \<Longrightarrow> P x \<Longrightarrow> key x = key r"
  shows "count_where P rows = 1"
  using assms
proof (induction rows)
  case (Cons a rows)
  show ?case
  proof (cases "P a")
    case True
    then have "\<forall>x \<in> set rows. \<not> P x"
      using Cons.prems by (metis image_eqI list.set_intros(1,2) uniq_Cons)
    then have "count_where P rows = 0" by (simp add: count_where_zero)
    with True show ?thesis by simp
  next
    case False
    then have "r \<in> set rows" using Cons.prems(2,3) by auto
    have "uniq key rows" using Cons.prems(1) by simp
    then have "count_where P rows = 1"
      using Cons.IH \<open>r \<in> set rows\<close> Cons.prems(3,4) list.set_intros(2) by metis
    with False show ?thesis by simp
  qed
qed simp

lemma uniq_del [simp, intro]: "uniq key rows \<Longrightarrow> uniq key (del_where P rows)"
  by (induction rows) auto

lemma map_key_upd_where:
  "(\<And>r. key (f r) = key r) \<Longrightarrow> map key (upd_where P f rows) = map key rows"
  by (induction rows) auto

lemma uniq_upd: "(\<And>r. key (f r) = key r) \<Longrightarrow> uniq key (upd_where P f rows) = uniq key rows"
  by (simp add: uniq_def map_key_upd_where)

lemma uniq_upd_one:
  assumes "uniq idk rows" and "uniq key rows"
    and "\<And>r. r \<in> set rows \<Longrightarrow> idk r \<noteq> i \<Longrightarrow> key r \<noteq> k"
    and "\<And>r. r \<in> set rows \<Longrightarrow> idk r = i \<Longrightarrow> key (f r) = k"
  shows "uniq key (upd_where (\<lambda>r. idk r = i) f rows)"
  using assms
proof (induction rows)
  case (Cons a rows)
  have IH: "uniq key (upd_where (\<lambda>r. idk r = i) f rows)"
    by (rule Cons.IH) (use Cons.prems in \<open>auto simp only: uniq_Cons list.set insert_iff\<close>)
  show ?case
  proof (cases "idk a = i")
    case True
    then have "\<forall>r \<in> set rows. \<not> idk r = i"
      using Cons.prems(1) by (metis image_eqI uniq_Cons)
    then have "upd_where (\<lambda>r. idk r = i) f rows = rows"
      by (rule upd_where_none)
    moreover have "key (f a) \<notin> key ` set rows"
      using True Cons.prems(3,4) \<open>\<forall>r \<in> set rows. \<not> idk r = i\<close> by (metis imageE list.set_intros)
    ultimately show ?thesis using True Cons.prems(2) by simp
  next
    case False
    have "key a \<noteq> key r'" if mem: "r' \<in> set (upd_where (\<lambda>r. idk r = i) f rows)" for r'
    proof -
      obtain r where r: "r \<in> set rows" "r' = (if idk r = i then f r else r)"
        using mem unfolding set_upd_where by blast
      then show ?thesis
        using False Cons.prems(2,3,4) by (metis image_eqI list.set_intros uniq_Cons)
    qed
    then have "key a \<notin> key ` set (upd_where (\<lambda>r. idk r = i) f rows)" by blast
    with False IH show ?thesis by simp
  qed
qed simp

lemma find_upd_where:
  assumes "\<And>r. idk (f r) = idk r"
  shows "find (\<lambda>r. idk r = j) (upd_where (\<lambda>r. idk r = i) f rows) =
     map_option (\<lambda>r. if i = j then f r else r) (find (\<lambda>r. idk r = j) rows)"
  using assms by (induction rows) auto

lemma uniq_opt_Nil [simp]: "uniq_opt key []"
  by (simp add: uniq_opt_def)

lemma uniq_opt_Cons [simp]:
  "uniq_opt key (r # rows) \<longleftrightarrow> (key r = None \<or> key r \<notin> key ` set rows) \<and> uniq_opt key rows"
  by (auto simp: uniq_opt_def)

lemma uniq_opt_append1:
  "uniq_opt key (rows @ [r]) \<longleftrightarrow> uniq_opt key rows \<and> (key r = None \<or> key r \<notin> key ` set rows)"
  by (induction rows) auto

lemma uniq_opt_del [simp, intro]: "uniq_opt key rows \<Longrightarrow> uniq_opt key (del_where P rows)"
  by (induction rows) auto

lemma uniq_opt_upd_same:
  "(\<And>r. key (f r) = key r) \<Longrightarrow> uniq_opt key (upd_where P f rows) = uniq_opt key rows"
proof (induction rows)
  case (Cons a rows)
  have "key ` set (upd_where P f rows) = key ` set rows"
    using Cons.prems by (metis list.set_map map_key_upd_where)
  with Cons show ?case by simp
qed simp

lemma uniq_optD:
  "uniq_opt key rows \<Longrightarrow> r \<in> set rows \<Longrightarrow> r' \<in> set rows \<Longrightarrow> key r = key r' \<Longrightarrow> key r \<noteq> None \<Longrightarrow> r = r'"
  by (induction rows) (auto simp: image_iff)

section \<open>Descending sort keys\<close>

text \<open>
  \<open>orderBy: { createdAt: 'desc' }\<close> sorts by a key whose order is reversed, so that the library's
  stable \<open>sort_key\<close> can be used with it.
\<close>

datatype 'k desc = Desc (undesc: 'k)

instantiation desc :: (linorder) linorder
begin

definition less_eq_desc :: "'a desc \<Rightarrow> 'a desc \<Rightarrow> bool" where
  "less_eq_desc a b \<longleftrightarrow> undesc b \<le> undesc a"

definition less_desc :: "'a desc \<Rightarrow> 'a desc \<Rightarrow> bool" where
  "less_desc a b \<longleftrightarrow> undesc b < undesc a"

instance
  by standard (auto simp: less_eq_desc_def less_desc_def desc.expand)

end

lemma desc_order_simps [simp]:
  "Desc a \<le> Desc b \<longleftrightarrow> b \<le> a"
  "Desc a < Desc b \<longleftrightarrow> b < a"
  by (simp_all add: less_eq_desc_def less_desc_def)

section \<open>Claims that succeed at most once\<close>

text \<open>
  Two components hand out a one-time credential and spend it with a conditional write: a refresh
  token is rotated by \<open>updateMany where replacedById: null\<close>, a pending provider link is claimed by
  \<open>deleteMany where id, tokenHash, unexpired\<close>. What their clients need is the same contract. A
  history is any interleaving of claims with other requests; \<open>wins\<close> counts the successful claims of
  one credential in it.
\<close>

datatype ('q, 's) occurrence = Claim 'q | Other "'s \<Rightarrow> 's"

fun wins :: "('q \<Rightarrow> 's \<Rightarrow> bool \<times> 's) \<Rightarrow> ('q \<Rightarrow> 'k) \<Rightarrow> 'k \<Rightarrow> ('q, 's) occurrence list \<Rightarrow> 's \<Rightarrow> nat" where
  "wins claim key k [] s = 0"
| "wins claim key k (Claim q # os) s =
     (if key q = k \<and> fst (claim q s) then 1 else 0) + wins claim key k os (snd (claim q s))"
| "wins claim key k (Other f # os) s = wins claim key k os (f s)"

text \<open>
  In a sane history a request only claims a credential that exists (it has read it), and the other
  requests come from the set \<open>F\<close>.
\<close>

fun history_ok ::
    "('q \<Rightarrow> 's \<Rightarrow> bool \<times> 's) \<Rightarrow> ('q \<Rightarrow> 'k) \<Rightarrow> ('k \<Rightarrow> 's \<Rightarrow> bool) \<Rightarrow> ('s \<Rightarrow> 's) set \<Rightarrow>
     ('q, 's) occurrence list \<Rightarrow> 's \<Rightarrow> bool" where
  "history_ok claim key known F [] s = True"
| "history_ok claim key known F (Claim q # os) s =
     (known (key q) s \<and> history_ok claim key known F os (snd (claim q s)))"
| "history_ok claim key known F (Other f # os) s =
     (f \<in> F \<and> history_ok claim key known F os (f s))"

locale single_use =
  fixes claim :: "'q \<Rightarrow> 's \<Rightarrow> bool \<times> 's"
    and key :: "'q \<Rightarrow> 'k"
    and live :: "'k \<Rightarrow> 's \<Rightarrow> bool"
    and known :: "'k \<Rightarrow> 's \<Rightarrow> bool"
    and inv :: "'s \<Rightarrow> bool"
    and others :: "('s \<Rightarrow> 's) set"
  assumes claim_needs_live:
      "inv s \<Longrightarrow> known (key q) s \<Longrightarrow> fst (claim q s) \<Longrightarrow> live (key q) s"
    and claim_spends:
      "inv s \<Longrightarrow> known (key q) s \<Longrightarrow> fst (claim q s) \<Longrightarrow> \<not> live (key q) (snd (claim q s))"
    and claim_inv: "inv s \<Longrightarrow> known (key q) s \<Longrightarrow> inv (snd (claim q s))"
    and claim_known:
      "inv s \<Longrightarrow> known (key q) s \<Longrightarrow> known k s \<Longrightarrow> known k (snd (claim q s))"
    and claim_no_revival:
      "inv s \<Longrightarrow> known (key q) s \<Longrightarrow> known k s \<Longrightarrow> \<not> live k s \<Longrightarrow> \<not> live k (snd (claim q s))"
    and other_inv: "f \<in> others \<Longrightarrow> inv s \<Longrightarrow> inv (f s)"
    and other_known: "f \<in> others \<Longrightarrow> inv s \<Longrightarrow> known k s \<Longrightarrow> known k (f s)"
    and other_no_revival: "f \<in> others \<Longrightarrow> inv s \<Longrightarrow> known k s \<Longrightarrow> \<not> live k s \<Longrightarrow> \<not> live k (f s)"
begin

lemma dead_never_wins:
  "inv s \<Longrightarrow> known k s \<Longrightarrow> \<not> live k s \<Longrightarrow> history_ok claim key known others os s \<Longrightarrow>
   wins claim key k os s = 0"
proof (induction os arbitrary: s)
  case (Cons oc os)
  then show ?case
  proof (cases oc)
    case (Claim q)
    have "\<not> (key q = k \<and> fst (claim q s))"
      using claim_needs_live [of s q] Cons.prems by auto
    moreover have "wins claim key k os (snd (claim q s)) = 0"
      using Cons Claim claim_inv claim_known claim_no_revival by simp
    ultimately show ?thesis using Claim by simp
  next
    case (Other f)
    then show ?thesis using Cons other_inv other_known other_no_revival by simp
  qed
qed simp

lemma wins_at_most_once:
  "inv s \<Longrightarrow> known k s \<Longrightarrow> history_ok claim key known others os s \<Longrightarrow> wins claim key k os s \<le> 1"
proof (induction os arbitrary: s)
  case (Cons oc os)
  then show ?case
  proof (cases oc)
    case (Claim q)
    let ?s = "snd (claim q s)"
    have next_ok: "inv ?s" "known k ?s" "history_ok claim key known others os ?s"
      using Cons.prems Claim claim_inv claim_known by simp_all
    show ?thesis
    proof (cases "key q = k \<and> fst (claim q s)")
      case True
      then have "\<not> live k ?s" using claim_spends Cons.prems by blast
      then have "wins claim key k os ?s = 0" using next_ok dead_never_wins by blast
      then show ?thesis using Claim by simp
    next
      case False
      then show ?thesis using Claim Cons.IH next_ok by auto
    qed
  next
    case (Other f)
    then show ?thesis using Cons other_inv other_known by simp
  qed
qed simp

end

section \<open>Edges that requests switch on and off\<close>

text \<open>
  Favouriting an article and following a user are the same contract: an idempotent request adds one edge,
  another removes it, and neither touches any other edge. What the clients of both rely on is that the last
  request about an edge decides whether it is there, however often any of them was repeated.
\<close>

datatype 'k request = On 'k | Off 'k

fun req_key :: "'k request \<Rightarrow> 'k" where
  "req_key (On k) = k"
| "req_key (Off k) = k"

fun run_requests :: "('k \<Rightarrow> 's \<Rightarrow> 's) \<Rightarrow> ('k \<Rightarrow> 's \<Rightarrow> 's) \<Rightarrow> 'k request list \<Rightarrow> 's \<Rightarrow> 's" where
  "run_requests on off [] s = s"
| "run_requests on off (On k # rs) s = run_requests on off rs (on k s)"
| "run_requests on off (Off k # rs) s = run_requests on off rs (off k s)"

fun last_request :: "'k \<Rightarrow> 'k request list \<Rightarrow> bool option" where
  "last_request k [] = None"
| "last_request k (r # rs) = (case last_request k rs of
     Some b \<Rightarrow> Some b
   | None \<Rightarrow> if req_key r = k then Some (case r of On _ \<Rightarrow> True | Off _ \<Rightarrow> False) else None)"

locale switch =
  fixes on :: "'k \<Rightarrow> 's \<Rightarrow> 's"
    and off :: "'k \<Rightarrow> 's \<Rightarrow> 's"
    and has :: "'k \<Rightarrow> 's \<Rightarrow> bool"
    and inv :: "'s \<Rightarrow> bool"
    and ok :: "'k \<Rightarrow> 's \<Rightarrow> bool"
  assumes on_has: "inv s \<Longrightarrow> ok k s \<Longrightarrow> ok j s \<Longrightarrow> has j (on k s) \<longleftrightarrow> j = k \<or> has j s"
    and off_has: "inv s \<Longrightarrow> ok k s \<Longrightarrow> ok j s \<Longrightarrow> has j (off k s) \<longleftrightarrow> j \<noteq> k \<and> has j s"
    and on_inv: "inv s \<Longrightarrow> ok k s \<Longrightarrow> inv (on k s)"
    and off_inv: "inv s \<Longrightarrow> ok k s \<Longrightarrow> inv (off k s)"
    and on_ok: "inv s \<Longrightarrow> ok k s \<Longrightarrow> ok j s \<Longrightarrow> ok j (on k s)"
    and off_ok: "inv s \<Longrightarrow> ok k s \<Longrightarrow> ok j s \<Longrightarrow> ok j (off k s)"
begin

lemma last_request_decides:
  "inv s \<Longrightarrow> \<forall>r \<in> set rs. ok (req_key r) s \<Longrightarrow> ok k s \<Longrightarrow>
   inv (run_requests on off rs s) \<and> ok k (run_requests on off rs s) \<and>
   (has k (run_requests on off rs s) \<longleftrightarrow> (case last_request k rs of None \<Rightarrow> has k s | Some b \<Rightarrow> b))"
proof (induction rs arbitrary: s)
  case (Cons r rs)
  show ?case
  proof (cases r)
    case (On j)
    have "inv (on j s)" "\<forall>r \<in> set rs. ok (req_key r) (on j s)" "ok k (on j s)"
      using Cons.prems On on_inv on_ok by simp_all
    from Cons.IH [OF this] show ?thesis
      using On Cons.prems on_has [of s j k] by (auto split: option.splits)
  next
    case (Off j)
    have "inv (off j s)" "\<forall>r \<in> set rs. ok (req_key r) (off j s)" "ok k (off j s)"
      using Cons.prems Off off_inv off_ok by simp_all
    from Cons.IH [OF this] show ?thesis
      using Off Cons.prems off_has [of s j k] by (auto split: option.splits)
  qed
qed simp

end

end
