(* ===== verification/JsText.thy ===== *)
theory JsText
  imports Prelude
begin

text \<open>
  JavaScript strings and the part of the standard library the code uses on them. A string is the
  list of its UTF-16 code units. \<open>toLowerCase\<close> and \<open>normalize('NFD')\<close> are tables of the Unicode
  standard: they are the two fields of a \<open>unicode\<close> record that the definitions take as an argument,
  and the few facts a theorem needs of them are its named hypotheses.
\<close>

type_synonym jstr = "nat list"

definition js :: "string \<Rightarrow> jstr" where
  "js s = map of_char s"

lemma js_eq_iff [simp]: "js s = js t \<longleftrightarrow> s = t"
proof -
  have "inj (of_char :: char \<Rightarrow> nat)"
    by (rule injI) simp
  then show ?thesis by (simp add: js_def inj_map_eq_map)
qed

lemma js_Nil [simp]: "js [] = []"
  by (simp add: js_def)

lemma js_eq_Nil [simp]: "js s = [] \<longleftrightarrow> s = []" "[] = js s \<longleftrightarrow> s = []"
  by (auto simp: js_def)

lemma length_js [simp]: "length (js s) = length s"
  by (simp add: js_def)

lemma js_append: "js (s @ t) = js s @ js t"
  by (simp add: js_def)

lemma js_Cons: "js (c # s) = of_char c # js s"
  by (simp add: js_def)

record unicode =
  lower :: "jstr \<Rightarrow> jstr"
  nfd :: "jstr \<Rightarrow> jstr"

definition ascii_lower :: "jstr \<Rightarrow> jstr" where
  "ascii_lower s = map (\<lambda>c. if 65 \<le> c \<and> c \<le> 90 then c + 32 else c) s"

text \<open>The documented behaviour of the two tables on ASCII input, and a record that has it.\<close>

definition ascii_sound :: "unicode \<Rightarrow> bool" where
  "ascii_sound u \<longleftrightarrow>
     (\<forall>s. (\<forall>c \<in> set s. c < 128) \<longrightarrow> lower u s = ascii_lower s \<and> nfd u s = s)"

definition ascii_unicode :: unicode where
  "ascii_unicode = \<lparr>lower = ascii_lower, nfd = (\<lambda>s. s)\<rparr>"

lemma ascii_unicode_sound: "ascii_sound ascii_unicode"
  by (simp add: ascii_sound_def ascii_unicode_def)

section \<open>White space, trim, strip\<close>

definition is_ws :: "nat \<Rightarrow> bool" where
  "is_ws c \<longleftrightarrow> 9 \<le> c \<and> c \<le> 13 \<or> c = 32 \<or> c = 160 \<or> c = 5760 \<or> 8192 \<le> c \<and> c \<le> 8202
     \<or> c = 8232 \<or> c = 8233 \<or> c = 8239 \<or> c = 8287 \<or> c = 12288 \<or> c = 65279"

definition strip_both :: "(nat \<Rightarrow> bool) \<Rightarrow> jstr \<Rightarrow> jstr" where
  "strip_both p s = rev (dropWhile p (rev (dropWhile p s)))"

definition trim :: "jstr \<Rightarrow> jstr" where
  "trim s = strip_both is_ws s"

definition nonBlank :: "jstr \<Rightarrow> bool" where
  "nonBlank s \<longleftrightarrow> list_ex (\<lambda>c. \<not> is_ws c) s"

lemma strip_both_Nil_iff: "strip_both p s = [] \<longleftrightarrow> (\<forall>c \<in> set s. p c)"
proof
  assume "strip_both p s = []"
  then have "\<forall>c \<in> set (dropWhile p s). p c"
    by (simp add: strip_both_def dropWhile_eq_Nil_conv)
  moreover have "dropWhile p s = [] \<or> \<not> p (hd (dropWhile p s))"
    using hd_dropWhile [of p s] by blast
  ultimately have "dropWhile p s = []"
    by (metis list.set_sel(1))
  then show "\<forall>c \<in> set s. p c" by (simp add: dropWhile_eq_Nil_conv)
next
  assume "\<forall>c \<in> set s. p c"
  then have "dropWhile p s = []" by (simp add: dropWhile_eq_Nil_conv)
  then show "strip_both p s = []" by (simp only: strip_both_def rev.simps dropWhile.simps)
qed

lemma strip_both_last: "strip_both p s \<noteq> [] \<Longrightarrow> \<not> p (last (strip_both p s))"
  by (metis hd_dropWhile hd_rev rev.simps(1) rev_rev_ident strip_both_def)

lemma dropWhile_rev_hd:
  assumes "xs \<noteq> []" and "\<not> p (hd xs)"
  shows "rev (dropWhile p (rev xs)) \<noteq> [] \<and> hd (rev (dropWhile p (rev xs))) = hd xs"
proof -
  obtain x ys where xs: "xs = x # ys" and "\<not> p x"
    using assms by (cases xs) auto
  then have "dropWhile p (rev xs) = dropWhile p (rev ys) @ [x]"
    by (auto simp: dropWhile_append dropWhile_eq_Nil_conv)
  with xs show ?thesis by simp
qed

lemma strip_both_hd: "strip_both p s \<noteq> [] \<Longrightarrow> \<not> p (hd (strip_both p s))"
proof -
  assume ne: "strip_both p s \<noteq> []"
  have d: "dropWhile p s \<noteq> []"
  proof
    assume "dropWhile p s = []"
    then have "strip_both p s = []" by (simp only: strip_both_def rev.simps dropWhile.simps)
    with ne show False by contradiction
  qed
  then have "\<not> p (hd (dropWhile p s))" by (rule hd_dropWhile)
  with d show ?thesis
    using dropWhile_rev_hd [of "dropWhile p s" p] by (simp add: strip_both_def)
qed

lemma strip_both_ident:
  assumes "s = [] \<or> \<not> p (hd s) \<and> \<not> p (last s)"
  shows "strip_both p s = s"
proof -
  have "dropWhile p t = t" if "t = [] \<or> \<not> p (hd t)" for t :: jstr
    using that by (cases t) auto
  from this [of s] this [of "rev s"] assms show ?thesis
    by (auto simp: strip_both_def hd_rev)
qed

lemma strip_both_idem [simp]: "strip_both p (strip_both p s) = strip_both p s"
  using strip_both_ident strip_both_hd strip_both_last by metis

lemma set_strip_both: "set (strip_both p s) \<subseteq> set s"
proof
  fix c assume "c \<in> set (strip_both p s)"
  then have "c \<in> set (dropWhile p s)"
    using set_dropWhileD [of c p "rev (dropWhile p s)"] by (simp add: strip_both_def)
  then show "c \<in> set s" by (rule set_dropWhileD)
qed

lemma trim_idem [simp]: "trim (trim s) = trim s"
  by (simp add: trim_def)

lemma trim_Nil_iff: "trim s = [] \<longleftrightarrow> \<not> nonBlank s"
  by (simp add: trim_def strip_both_Nil_iff nonBlank_def list_ex_iff)

lemma nonBlank_trim [simp]: "nonBlank (trim s) = nonBlank s"
  using trim_Nil_iff [of s] trim_Nil_iff [of "trim s"] by simp

section \<open>Decimal numbers\<close>

fun show_nat :: "nat \<Rightarrow> jstr" where
  "show_nat n = (if n < 10 then [48 + n] else show_nat (n div 10) @ [48 + n mod 10])"

declare show_nat.simps [simp del]

definition is_digit :: "nat \<Rightarrow> bool" where
  "is_digit c \<longleftrightarrow> 48 \<le> c \<and> c \<le> 57"

fun read_nat :: "nat \<Rightarrow> jstr \<Rightarrow> nat" where
  "read_nat a [] = a"
| "read_nat a (c # cs) = read_nat (10 * a + (c - 48)) cs"

lemma read_nat_append: "read_nat a (s @ t) = read_nat (read_nat a s) t"
  by (induction a s rule: read_nat.induct) auto

lemma read_show_nat: "read_nat 0 (show_nat n) = n"
proof (induction n rule: show_nat.induct)
  case (1 n)
  show ?case
  proof (cases "n < 10")
    case True
    then show ?thesis by (simp add: show_nat.simps [of n])
  next
    case False
    with 1 have "read_nat 0 (show_nat (n div 10)) = n div 10" by simp
    with False show ?thesis
      by (subst show_nat.simps) (simp add: read_nat_append)
  qed
qed

lemma show_nat_inj [simp]: "show_nat m = show_nat n \<longleftrightarrow> m = n"
  by (metis read_show_nat)

lemma show_nat_digits: "c \<in> set (show_nat n) \<Longrightarrow> is_digit c"
proof (induction n rule: show_nat.induct)
  case (1 n)
  show ?case
  proof (cases "n < 10")
    case True
    with 1 show ?thesis by (auto simp: show_nat.simps [of n] is_digit_def)
  next
    case False
    with "1.prems" have "c \<in> set (show_nat (n div 10)) \<or> c = 48 + n mod 10"
      by (subst (asm) show_nat.simps) auto
    then show ?thesis
    proof
      assume "c \<in> set (show_nat (n div 10))"
      with False show ?thesis by (rule "1.IH")
    next
      assume "c = 48 + n mod 10"
      moreover have "n mod 10 < 10" by simp
      ultimately show ?thesis unfolding is_digit_def by linarith
    qed
  qed
qed

lemma show_nat_ne [simp]: "show_nat n \<noteq> []"
  by (subst show_nat.simps) simp

section \<open>Splitting, joining, replacing\<close>

fun split_on :: "nat \<Rightarrow> jstr \<Rightarrow> jstr list" where
  "split_on sep [] = [[]]"
| "split_on sep (c # cs) =
     (if c = sep then [] # split_on sep cs
      else (case split_on sep cs of [] \<Rightarrow> [[c]] | w # ws \<Rightarrow> (c # w) # ws))"

lemma split_on_ne [simp]: "split_on sep s \<noteq> []"
  by (induction s) (auto split: list.splits)

lemma hd_split_on: "hd (split_on sep s) = takeWhile (\<lambda>c. c \<noteq> sep) s"
proof (induction s)
  case (Cons c s)
  show ?case
  proof (cases "split_on sep s")
    case Nil
    then show ?thesis by simp
  next
    case (Cons w ws)
    with Cons.IH show ?thesis by simp
  qed
qed simp

fun join_with :: "jstr \<Rightarrow> jstr list \<Rightarrow> jstr" where
  "join_with sep [] = []"
| "join_with sep [w] = w"
| "join_with sep (w # ws) = w @ sep @ join_with sep ws"

text \<open>\<open>s.replace(/[p]+/g, rep)\<close>: every maximal run of \<open>p\<close> characters becomes \<open>rep\<close>.\<close>

function replace_runs :: "(nat \<Rightarrow> bool) \<Rightarrow> jstr \<Rightarrow> jstr \<Rightarrow> jstr" where
  "replace_runs p rep [] = []"
| "replace_runs p rep (c # cs) =
     (if p c then rep @ replace_runs p rep (dropWhile p cs) else c # replace_runs p rep cs)"
  by pat_completeness auto
termination
  by (relation "measure (\<lambda>(p, rep, s). length s)") (auto simp: less_Suc_eq_le length_dropWhile_le)

lemma set_replace_runs: "c \<in> set (replace_runs p rep s) \<Longrightarrow> c \<in> set rep \<or> (c \<in> set s \<and> \<not> p c)"
  by (induction p rep s rule: replace_runs.induct) (auto split: if_splits dest: set_dropWhileD)

text \<open>\<open>s.replace(/c/g, rep)\<close> for one character.\<close>

definition replace_char :: "nat \<Rightarrow> jstr \<Rightarrow> jstr \<Rightarrow> jstr" where
  "replace_char c rep s = concat (map (\<lambda>d. if d = c then rep else [d]) s)"

definition startsWith :: "jstr \<Rightarrow> jstr \<Rightarrow> bool" where
  "startsWith s pre \<longleftrightarrow> take (length pre) s = pre"

fun contains :: "jstr \<Rightarrow> jstr \<Rightarrow> bool" where
  "contains [] sub \<longleftrightarrow> sub = []"
| "contains (c # cs) sub \<longleftrightarrow> startsWith (c # cs) sub \<or> contains cs sub"

lemma startsWith_iff: "startsWith s pre \<longleftrightarrow> (\<exists>t. s = pre @ t)"
  by (auto simp: startsWith_def) (metis append_take_drop_id)

lemma includes_iff: "contains s sub \<longleftrightarrow> (\<exists>a b. s = a @ sub @ b)"
proof (induction s)
  case step: (Cons c s)
  show ?case
  proof
    assume "contains (c # s) sub"
    then consider (here) t where "c # s = sub @ t" | (later) a b where "s = a @ sub @ b"
      using step.IH by (auto simp: startsWith_iff)
    then show "\<exists>a b. c # s = a @ sub @ b"
    proof cases
      case here
      then have "c # s = [] @ sub @ t" by simp
      then show ?thesis by blast
    next
      case later
      then have "c # s = (c # a) @ sub @ b" by simp
      then show ?thesis by blast
    qed
  next
    assume "\<exists>a b. c # s = a @ sub @ b"
    then obtain a b where eq: "c # s = a @ sub @ b" by blast
    show "contains (c # s) sub"
    proof (cases a)
      case Nil
      with eq have "startsWith (c # s) sub" unfolding startsWith_iff by auto
      then show ?thesis by simp
    next
      case (Cons d ds)
      with eq have "s = ds @ sub @ b" by simp
      with step.IH show ?thesis by auto
    qed
  qed
qed auto

text \<open>
  \<open>Number.parseInt(s, 10)\<close>: leading white space and a sign, then the longest run of digits; no digit
  is \<open>NaN\<close> (\<open>None\<close>).
\<close>

definition parseInt10 :: "jstr \<Rightarrow> int option" where
  "parseInt10 s =
     (let t = dropWhile is_ws s;
          neg = (t \<noteq> [] \<and> hd t = 45);
          u = (if t \<noteq> [] \<and> (hd t = 45 \<or> hd t = 43) then tl t else t);
          ds = takeWhile is_digit u
      in if ds = [] then None
         else Some (if neg then - int (read_nat 0 ds) else int (read_nat 0 ds)))"

lemma takeWhile_digits: "takeWhile is_digit (show_nat n) = show_nat n"
  by (simp add: show_nat_digits takeWhile_eq_all_conv)

lemma parseInt10_show_nat: "parseInt10 (show_nat n) = Some (int n)"
proof -
  obtain c cs where s: "show_nat n = c # cs" by (cases "show_nat n") auto
  then have "is_digit c" using show_nat_digits [of c n] by simp
  then have c: "\<not> is_ws c" "c \<noteq> 45" "c \<noteq> 43"
    by (auto simp: is_digit_def is_ws_def)
  then have "dropWhile is_ws (show_nat n) = show_nat n" using s by simp
  with s c show ?thesis
    using takeWhile_digits [of n] read_show_nat [of n]
    by (simp add: parseInt10_def Let_def)
qed

text \<open>A separator that one side does not contain splits a string in one way.\<close>

lemma sep_front:
  assumes "c \<notin> set a" and "c \<notin> set a'"
  shows "a @ c # b = a' @ c # b' \<longleftrightarrow> a = a' \<and> b = b'"
proof
  assume eq: "a @ c # b = a' @ c # b'"
  have "takeWhile (\<lambda>x. x \<noteq> c) (a @ c # b) = a" "takeWhile (\<lambda>x. x \<noteq> c) (a' @ c # b') = a'"
    using assms by (auto simp: takeWhile_append takeWhile_eq_all_conv)
  with eq show "a = a' \<and> b = b'" by simp
qed simp

lemma sep_back:
  assumes "c \<notin> set b" and "c \<notin> set b'"
  shows "a @ c # b = a' @ c # b' \<longleftrightarrow> a = a' \<and> b = b'"
proof -
  have "a @ c # b = a' @ c # b' \<longleftrightarrow> rev b @ c # rev a = rev b' @ c # rev a'"
    by (metis append.assoc append_Cons append_Nil rev.simps(2) rev_append rev_rev_ident)
  then show ?thesis using sep_front [of c "rev b" "rev b'" "rev a" "rev a'"] assms by auto
qed

lemma dash_not_digit [simp]: "45 \<notin> set (show_nat n)"
  using show_nat_digits [of 45 n] by (auto simp: is_digit_def)

lemma js_dash [simp]: "js ''-'' = [45]"
  by (simp add: js_def)

end
