(* ===== verification/HttpErrors.thy ===== *)
theory HttpErrors
  imports JsText
begin

text \<open>
  The errors the services throw, the global filter that turns every thrown value into a response
  (\<open>src/common/filters/all-exceptions.filter.ts\<close>), the envelope of a successful response
  (\<open>src/common/interceptors/transform.interceptor.ts\<close>) and the validation pipe's error tree
  (\<open>src/common/validation/validation-options.ts\<close>).
\<close>

section \<open>Thrown values\<close>

text \<open>
  A message is a literal or a key that \<open>i18n.t\<close> translates; the key is kept, since the language is
  chosen per request. \<open>HttpEx\<close> is NestJS's \<open>HttpException\<close>: its status, what \<open>getResponse()\<close>
  returns and its own message.
\<close>

datatype msg = Text jstr | I18n string

datatype errtree = Leaf jstr | Node "(jstr \<times> errtree) list"

datatype body_message = NoMessage | OneMessage msg | ManyMessages "msg list"

datatype http_body =
    StringBody msg
  | ObjectBody body_message "(jstr \<times> errtree) list option"

datatype meta_target = TargetArray "jstr list" | TargetString jstr | TargetUndefined

datatype thrown =
    HttpEx nat http_body msg
  | PrismaKnown string meta_target jstr
  | JsError jstr
  | NonError jstr

abbreviation nest_exception :: "nat \<Rightarrow> msg \<Rightarrow> thrown" where
  "nest_exception status m \<equiv> HttpEx status (ObjectBody (OneMessage m) None) m"

abbreviation BadRequestException :: "msg \<Rightarrow> thrown" where
  "BadRequestException \<equiv> nest_exception 400"

abbreviation UnauthorizedException :: "msg \<Rightarrow> thrown" where
  "UnauthorizedException \<equiv> nest_exception 401"

abbreviation ForbiddenException :: "msg \<Rightarrow> thrown" where
  "ForbiddenException \<equiv> nest_exception 403"

abbreviation NotFoundException :: "msg \<Rightarrow> thrown" where
  "NotFoundException \<equiv> nest_exception 404"

abbreviation ConflictException :: "msg \<Rightarrow> thrown" where
  "ConflictException \<equiv> nest_exception 409"

abbreviation UnprocessableEntityException :: "msg \<Rightarrow> thrown" where
  "UnprocessableEntityException \<equiv> nest_exception 422"

abbreviation BadGatewayException :: "msg \<Rightarrow> thrown" where
  "BadGatewayException \<equiv> nest_exception 502"

abbreviation ServiceUnavailableException :: "msg \<Rightarrow> thrown" where
  "ServiceUnavailableException \<equiv> nest_exception 503"

text \<open>A unique index refused a write (\<open>P2002\<close>, with its columns), or a row a write needs is gone.\<close>

abbreviation unique_violation :: "string list \<Rightarrow> thrown" where
  "unique_violation cols \<equiv>
     PrismaKnown ''P2002'' (TargetArray (map js cols)) (js ''Unique constraint failed'')"

abbreviation record_not_found :: thrown where
  "record_not_found \<equiv> PrismaKnown ''P2025'' TargetUndefined (js ''Record not found'')"

definition isUniqueConstraintViolation :: "thrown \<Rightarrow> bool" where
  "isUniqueConstraintViolation e =
     (case e of PrismaKnown code _ _ \<Rightarrow> code = ''P2002'' | _ \<Rightarrow> False)"

definition status_of :: "thrown \<Rightarrow> nat" where
  "status_of e = (case e of
     HttpEx s _ _ \<Rightarrow> s
   | PrismaKnown code _ _ \<Rightarrow>
       if code = ''P2002'' then 409 else if code = ''P2025'' then 404 else 500
   | JsError _ \<Rightarrow> 500
   | NonError _ \<Rightarrow> 500)"

section \<open>AllExceptionsFilter\<close>

record exception_response =
  statusCode :: nat
  message :: body_message
  errors :: "(jstr \<times> errtree) list option"

text \<open>What the filter writes to the log, the only place where the cause of a 500 survives.\<close>

datatype log_entry = LogPrisma string jstr | LogSystem jstr | LogUnknown jstr

fun truthy_message :: "body_message \<Rightarrow> bool" where
  "truthy_message NoMessage = False"
| "truthy_message (OneMessage (Text s)) = (s \<noteq> [])"
| "truthy_message (OneMessage (I18n k)) = True"
| "truthy_message (ManyMessages ms) = True"

definition error_key :: "nat \<Rightarrow> jstr" where
  "error_key i = js ''error_'' @ show_nat i"

fun msg_text :: "msg \<Rightarrow> jstr" where
  "msg_text (Text s) = s"
| "msg_text (I18n k) = js k"

definition arrayToErrorObject :: "msg list \<Rightarrow> (jstr \<times> errtree) list" where
  "arrayToErrorObject ms =
     map (\<lambda>i. (error_key i, Leaf (msg_text (ms ! i)))) [0..<length ms]"

definition handleHttpException :: "nat \<Rightarrow> http_body \<Rightarrow> msg \<Rightarrow> exception_response" where
  "handleHttpException status body exmsg = (case body of
     StringBody _ \<Rightarrow> \<lparr>statusCode = status, message = OneMessage exmsg, errors = None\<rparr>
   | ObjectBody m errs \<Rightarrow>
       (case errs of
          Some es \<Rightarrow>
            \<lparr>statusCode = status,
             message = (if truthy_message m then m else OneMessage (Text (js ''Validation Error''))),
             errors = Some es\<rparr>
        | None \<Rightarrow>
            (case m of
               ManyMessages ms \<Rightarrow>
                 \<lparr>statusCode = status, message = OneMessage (Text (js ''Validation Error'')),
                  errors = Some (arrayToErrorObject ms)\<rparr>
             | _ \<Rightarrow>
                 \<lparr>statusCode = status,
                  message = (if truthy_message m then m else OneMessage exmsg),
                  errors = None\<rparr>)))"

fun target_string :: "meta_target \<Rightarrow> jstr" where
  "target_string (TargetArray cols) = join_with (js '','') cols"
| "target_string (TargetString s) = s"
| "target_string TargetUndefined = js ''undefined''"

definition handlePrismaException ::
    "string \<Rightarrow> meta_target \<Rightarrow> jstr \<Rightarrow> exception_response \<times> log_entry list" where
  "handlePrismaException code target m =
     ((if code = ''P2002'' then
         \<lparr>statusCode = 409,
          message = OneMessage (Text (js ''Duplicate value for field: '' @ target_string target)),
          errors = None\<rparr>
       else if code = ''P2025'' then
         \<lparr>statusCode = 404,
          message = OneMessage (Text (js ''Record not found in database'')), errors = None\<rparr>
       else
         \<lparr>statusCode = 500,
          message = OneMessage (Text (js ''Database operation failed'')), errors = None\<rparr>),
      [LogPrisma code m])"

definition internal_error :: exception_response where
  "internal_error = \<lparr>statusCode = 500,
     message = OneMessage (Text (js ''Internal server error'')), errors = None\<rparr>"

definition handleGenericError :: "jstr \<Rightarrow> exception_response \<times> log_entry list" where
  "handleGenericError stack = (internal_error, [LogSystem stack])"

definition handleUnknownError :: "jstr \<Rightarrow> exception_response \<times> log_entry list" where
  "handleUnknownError v = (internal_error, [LogUnknown v])"

definition handleException :: "thrown \<Rightarrow> exception_response \<times> log_entry list" where
  "handleException e = (case e of
     HttpEx status body m \<Rightarrow> (handleHttpException status body m, [])
   | PrismaKnown code target m \<Rightarrow> handlePrismaException code target m
   | JsError stack \<Rightarrow> handleGenericError stack
   | NonError v \<Rightarrow> handleUnknownError v)"

lemmas filter_defs =
  handleException_def handleHttpException_def handlePrismaException_def handleGenericError_def
  handleUnknownError_def internal_error_def

lemma handleException_status: "statusCode (fst (handleException e)) = status_of e"
  by (auto simp: filter_defs status_of_def split: thrown.splits http_body.splits option.splits
      body_message.splits)

lemma handleException_nest [simp]:
  "truthy_message (OneMessage m) \<Longrightarrow>
   handleException (nest_exception s m) =
     (\<lparr>statusCode = s, message = OneMessage m, errors = None\<rparr>, [])"
  by (simp add: filter_defs)

section \<open>TransformInterceptor\<close>

text \<open>
  A handler's value either carries a \<open>meta\<close> property (a page) or does not; \<open>None\<close> for the message
  is a route without \<open>@ResponseMessage\<close>.
\<close>

datatype ('d, 'm) handled = WithMeta 'd 'm | Plain 'd

record ('d, 'm) envelope =
  env_statusCode :: nat
  env_message :: string
  env_data :: 'd
  env_meta :: "'m option"

definition intercept :: "string option \<Rightarrow> nat \<Rightarrow> ('d, 'm) handled \<Rightarrow> ('d, 'm) envelope" where
  "intercept routeMessage status result =
     (let m = (case routeMessage of Some t \<Rightarrow> if t = '''' then ''Success'' else t
                                  | None \<Rightarrow> ''Success'')
      in case result of
           WithMeta d meta \<Rightarrow>
             \<lparr>env_statusCode = status, env_message = m, env_data = d, env_meta = Some meta\<rparr>
         | Plain d \<Rightarrow>
             \<lparr>env_statusCode = status, env_message = m, env_data = d, env_meta = None\<rparr>)"

section \<open>Validation errors\<close>

text \<open>
  \<open>ValidationError\<close> of class-validator: the property, the messages of its failed constraints and the
  errors of its children. \<open>translate\<close> is \<open>i18n.t\<close> of the current request with the parsed arguments:
  \<open>formatI18nMessage\<close> splits a constraint at its first bar into the key and the JSON arguments.
\<close>

datatype verror = VError jstr "jstr list" "verror list"

definition bar :: nat where
  "bar = 124"

definition formatI18nMessage ::
    "(jstr \<Rightarrow> 'args option \<Rightarrow> jstr) option \<Rightarrow> (jstr \<Rightarrow> 'args option) \<Rightarrow> jstr \<Rightarrow> jstr" where
  "formatI18nMessage translate parse constr = (case translate of
     None \<Rightarrow> constr
   | Some t \<Rightarrow>
       (if bar \<in> set constr then
          (let key = takeWhile (\<lambda>c. c \<noteq> bar) constr;
               argsString = drop (Suc (length key)) constr
           in t key (parse argsString))
        else constr))"

text \<open>
  The object spread \<open>{ ...accumulator, [property]: v }\<close> overwrites an earlier entry of the same
  property in place.
\<close>

fun put_prop :: "jstr \<Rightarrow> errtree \<Rightarrow> (jstr \<times> errtree) list \<Rightarrow> (jstr \<times> errtree) list" where
  "put_prop k v [] = [(k, v)]"
| "put_prop k v ((k', v') # kvs) = (if k' = k then (k, v) # kvs else (k', v') # put_prop k v kvs)"

fun generateErrors :: "(jstr \<Rightarrow> jstr) \<Rightarrow> verror list \<Rightarrow> (jstr \<times> errtree) list"
  and error_value :: "(jstr \<Rightarrow> jstr) \<Rightarrow> verror \<Rightarrow> jstr \<times> errtree" where
  "generateErrors fmt es = foldl (\<lambda>acc kv. put_prop (fst kv) (snd kv) acc) [] (map (error_value fmt) es)"
| "error_value fmt (VError prop constraints children) =
     (prop,
      if children \<noteq> [] then Node (generateErrors fmt children)
      else Leaf (join_with (js '', '') (map fmt constraints)))"

definition exceptionFactory :: "(jstr \<Rightarrow> jstr) \<Rightarrow> verror list \<Rightarrow> thrown" where
  "exceptionFactory fmt es =
     HttpEx 422 (ObjectBody NoMessage (Some (generateErrors fmt es)))
       (Text (js ''Unprocessable Entity Exception''))"

lemma put_prop_keys: "fst ` set (put_prop k v kvs) = insert k (fst ` set kvs)"
  by (induction kvs rule: put_prop.induct) auto

lemma put_prop_distinct: "distinct (map fst kvs) \<Longrightarrow> distinct (map fst (put_prop k v kvs))"
proof (induction k v kvs rule: put_prop.induct)
  case (2 k v k' v' kvs)
  have "fst ` set (put_prop k v kvs) = insert k (fst ` set kvs)" by (rule put_prop_keys)
  with 2 show ?case by auto
qed simp

lemma fold_put_prop_keys:
  "fst ` set (foldl (\<lambda>acc kv. put_prop (fst kv) (snd kv) acc) acc kvs) = fst ` set acc \<union> fst ` set kvs"
  by (induction kvs arbitrary: acc) (auto simp: put_prop_keys)

lemma fold_put_prop_distinct:
  "distinct (map fst acc) \<Longrightarrow>
   distinct (map fst (foldl (\<lambda>acc kv. put_prop (fst kv) (snd kv) acc) acc kvs))"
  by (induction kvs arbitrary: acc) (auto simp: put_prop_distinct)


text \<open>every property that failed validation has exactly one entry in the body of the 422
  response, and there are no others, whatever the order and repetition of the errors; the response
  says \<open>Validation Error\<close>.\<close>

theorem validation_response:
  "fst (handleException (exceptionFactory fmt es)) =
     \<lparr>statusCode = 422, message = OneMessage (Text (js ''Validation Error'')),
      errors = Some (generateErrors fmt es)\<rparr>
   \<and> distinct (map fst (generateErrors fmt es))
   \<and> fst ` set (generateErrors fmt es) = (\<lambda>e. case e of VError p _ _ \<Rightarrow> p) ` set es"
proof (intro conjI)
  have "fst (error_value fmt e) = (case e of VError p _ _ \<Rightarrow> p)" for e
    by (cases e) simp
  then show "fst ` set (generateErrors fmt es) = (\<lambda>e. case e of VError p _ _ \<Rightarrow> p) ` set es"
    by (simp add: fold_put_prop_keys image_image)
qed (simp_all add: filter_defs exceptionFactory_def fold_put_prop_distinct)

end
