(* ===== verification/Database.thy ===== *)
theory Database
  imports HttpErrors
begin

text \<open>
  The tables of \<open>prisma/schema.prisma\<close> and \<open>prisma/migrations\<close>: one record per model, the join
  tables of its many-to-many relations, one sequence per \<open>autoincrement()\<close> column, and what the
  declared constraints do to a write: a unique index refuses it with \<open>P2002\<close>, a foreign key or a
  missing row with \<open>P2025\<close>, \<open>onDelete: Cascade\<close> takes the dependent rows along. A table is the list of
  its rows; no query of the code may depend on that order unless it sorts.
\<close>

section \<open>Models\<close>

record user =
  u_id :: nat
  u_email :: jstr
  u_username :: jstr
  u_password :: "jstr option"
  u_image :: "jstr option"
  u_bio :: "jstr option"

record article =
  a_id :: nat
  a_slug :: jstr
  a_title :: jstr
  a_description :: jstr
  a_body :: jstr
  a_createdAt :: int
  a_updatedAt :: int
  a_authorId :: nat

record cmt =
  c_id :: nat
  c_createdAt :: int
  c_updatedAt :: int
  c_body :: jstr
  c_articleId :: nat
  c_authorId :: nat

record tag =
  t_id :: nat
  t_name :: jstr

record auth_provider =
  ap_id :: nat
  ap_provider :: jstr
  ap_providerAccountId :: jstr
  ap_userId :: nat
  ap_createdAt :: int

record refresh_token =
  rt_id :: nat
  rt_tokenHash :: jstr
  rt_userId :: nat
  rt_expiresAt :: int
  rt_revokedAt :: "int option"
  rt_replacedById :: "nat option"
  rt_createdAt :: int

record pending_link =
  pl_id :: nat
  pl_userId :: nat
  pl_provider :: jstr
  pl_providerAccountId :: jstr
  pl_tokenHash :: jstr
  pl_expiresAt :: int
  pl_createdAt :: int

datatype model =
  MArticle | MComment | MTag | MUser | MAuthProvider | MRefreshToken | MPendingLink

record db =
  users :: "user list"
  articles :: "article list"
  cmts :: "cmt list"
  tags :: "tag list"
  authProviders :: "auth_provider list"
  refreshTokens :: "refresh_token list"
  pendingLinks :: "pending_link list"
  articleTags :: "(nat \<times> nat) list"
  userFavorites :: "(nat \<times> nat) list"
  userFollows :: "(nat \<times> nat) list"
  seqs :: "model \<Rightarrow> nat"

definition empty_db :: db where
  "empty_db = \<lparr>users = [], articles = [], cmts = [], tags = [], authProviders = [],
     refreshTokens = [], pendingLinks = [], articleTags = [], userFavorites = [],
     userFollows = [], seqs = (\<lambda>_. 1)\<rparr>"

text \<open>
  A rolled back transaction leaves every table as it was; only the sequences do not roll back.
\<close>

definition rollback :: "db \<Rightarrow> db \<Rightarrow> db" where
  "rollback before after = before\<lparr>seqs := seqs after\<rparr>"

definition bump :: "model \<Rightarrow> db \<Rightarrow> db" where
  "bump m d = d\<lparr>seqs := (seqs d)(m := Suc (seqs d m))\<rparr>"

definition user_ids :: "db \<Rightarrow> nat set" where
  "user_ids d = u_id ` set (users d)"

definition article_ids :: "db \<Rightarrow> nat set" where
  "article_ids d = a_id ` set (articles d)"

section \<open>Constraints\<close>

definition users_ok :: "db \<Rightarrow> bool" where
  "users_ok d \<longleftrightarrow> uniq u_id (users d) \<and> uniq u_email (users d) \<and> uniq u_username (users d)
     \<and> (\<forall>u \<in> set (users d). u_id u < seqs d MUser)"

definition articles_ok :: "db \<Rightarrow> bool" where
  "articles_ok d \<longleftrightarrow> uniq a_id (articles d) \<and> uniq a_slug (articles d)
     \<and> (\<forall>a \<in> set (articles d). a_id a < seqs d MArticle \<and> a_authorId a \<in> user_ids d)"

definition comments_ok :: "db \<Rightarrow> bool" where
  "comments_ok d \<longleftrightarrow> uniq c_id (cmts d)
     \<and> (\<forall>c \<in> set (cmts d). c_id c < seqs d MComment \<and> c_articleId c \<in> article_ids d
          \<and> c_authorId c \<in> user_ids d)"

definition tags_ok :: "db \<Rightarrow> bool" where
  "tags_ok d \<longleftrightarrow> uniq t_id (tags d) \<and> uniq t_name (tags d)
     \<and> (\<forall>t \<in> set (tags d). t_id t < seqs d MTag)"

definition providers_ok :: "db \<Rightarrow> bool" where
  "providers_ok d \<longleftrightarrow> uniq ap_id (authProviders d)
     \<and> uniq (\<lambda>p. (ap_provider p, ap_providerAccountId p)) (authProviders d)
     \<and> (\<forall>p \<in> set (authProviders d). ap_id p < seqs d MAuthProvider \<and> ap_userId p \<in> user_ids d)"

definition tokens_ok :: "db \<Rightarrow> bool" where
  "tokens_ok d \<longleftrightarrow> uniq rt_id (refreshTokens d) \<and> uniq rt_tokenHash (refreshTokens d)
     \<and> uniq_opt rt_replacedById (refreshTokens d)
     \<and> (\<forall>t \<in> set (refreshTokens d). rt_id t < seqs d MRefreshToken \<and> rt_userId t \<in> user_ids d
          \<and> (\<forall>n. rt_replacedById t = Some n \<longrightarrow> rt_id t < n \<and> n < seqs d MRefreshToken))"

definition links_ok :: "db \<Rightarrow> bool" where
  "links_ok d \<longleftrightarrow> uniq pl_id (pendingLinks d) \<and> uniq pl_tokenHash (pendingLinks d)
     \<and> uniq (\<lambda>l. (pl_provider l, pl_providerAccountId l)) (pendingLinks d)
     \<and> uniq (\<lambda>l. (pl_userId l, pl_provider l)) (pendingLinks d)
     \<and> (\<forall>l \<in> set (pendingLinks d). pl_id l < seqs d MPendingLink \<and> pl_userId l \<in> user_ids d)"

definition edges_ok :: "db \<Rightarrow> bool" where
  "edges_ok d \<longleftrightarrow>
     distinct (articleTags d) \<and> set (articleTags d) \<subseteq> article_ids d \<times> t_id ` set (tags d)
     \<and> distinct (userFavorites d) \<and> set (userFavorites d) \<subseteq> article_ids d \<times> user_ids d
     \<and> distinct (userFollows d) \<and> set (userFollows d) \<subseteq> user_ids d \<times> user_ids d"

definition db_ok :: "db \<Rightarrow> bool" where
  "db_ok d \<longleftrightarrow> users_ok d \<and> articles_ok d \<and> comments_ok d \<and> tags_ok d \<and> providers_ok d
     \<and> tokens_ok d \<and> links_ok d \<and> edges_ok d"

lemmas ok_defs =
  users_ok_def articles_ok_def comments_ok_def tags_ok_def providers_ok_def tokens_ok_def
  links_ok_def edges_ok_def user_ids_def article_ids_def

lemma db_okI [intro]:
  "users_ok d \<Longrightarrow> articles_ok d \<Longrightarrow> comments_ok d \<Longrightarrow> tags_ok d \<Longrightarrow> providers_ok d \<Longrightarrow> tokens_ok d
   \<Longrightarrow> links_ok d \<Longrightarrow> edges_ok d \<Longrightarrow> db_ok d"
  by (simp add: db_ok_def)

lemma db_okD:
  assumes "db_ok d"
  shows "users_ok d" "articles_ok d" "comments_ok d" "tags_ok d" "providers_ok d" "tokens_ok d"
    "links_ok d" "edges_ok d"
  using assms by (simp_all add: db_ok_def)

lemma empty_db_ok: "db_ok empty_db"
  by (simp add: db_ok_def ok_defs empty_db_def)

section \<open>Frames\<close>

text \<open>An invariant only looks at its own tables, the user and article ids, and its own sequence.\<close>

lemma ok_cong:
  "users_ok (d\<lparr>articles := x1\<rparr>) = users_ok d"
  "users_ok (d\<lparr>cmts := x2\<rparr>) = users_ok d"
  "users_ok (d\<lparr>tags := x3\<rparr>) = users_ok d"
  "users_ok (d\<lparr>authProviders := x4\<rparr>) = users_ok d"
  "users_ok (d\<lparr>refreshTokens := x5\<rparr>) = users_ok d"
  "users_ok (d\<lparr>pendingLinks := x6\<rparr>) = users_ok d"
  "users_ok (d\<lparr>articleTags := x7\<rparr>) = users_ok d"
  "users_ok (d\<lparr>userFavorites := x8\<rparr>) = users_ok d"
  "users_ok (d\<lparr>userFollows := x9\<rparr>) = users_ok d"
  "articles_ok (d\<lparr>cmts := x2\<rparr>) = articles_ok d"
  "articles_ok (d\<lparr>tags := x3\<rparr>) = articles_ok d"
  "articles_ok (d\<lparr>authProviders := x4\<rparr>) = articles_ok d"
  "articles_ok (d\<lparr>refreshTokens := x5\<rparr>) = articles_ok d"
  "articles_ok (d\<lparr>pendingLinks := x6\<rparr>) = articles_ok d"
  "articles_ok (d\<lparr>articleTags := x7\<rparr>) = articles_ok d"
  "articles_ok (d\<lparr>userFavorites := x8\<rparr>) = articles_ok d"
  "articles_ok (d\<lparr>userFollows := x9\<rparr>) = articles_ok d"
  "comments_ok (d\<lparr>tags := x3\<rparr>) = comments_ok d"
  "comments_ok (d\<lparr>authProviders := x4\<rparr>) = comments_ok d"
  "comments_ok (d\<lparr>refreshTokens := x5\<rparr>) = comments_ok d"
  "comments_ok (d\<lparr>pendingLinks := x6\<rparr>) = comments_ok d"
  "comments_ok (d\<lparr>articleTags := x7\<rparr>) = comments_ok d"
  "comments_ok (d\<lparr>userFavorites := x8\<rparr>) = comments_ok d"
  "comments_ok (d\<lparr>userFollows := x9\<rparr>) = comments_ok d"
  "tags_ok (d\<lparr>users := x0\<rparr>) = tags_ok d"
  "tags_ok (d\<lparr>articles := x1\<rparr>) = tags_ok d"
  "tags_ok (d\<lparr>cmts := x2\<rparr>) = tags_ok d"
  "tags_ok (d\<lparr>authProviders := x4\<rparr>) = tags_ok d"
  "tags_ok (d\<lparr>refreshTokens := x5\<rparr>) = tags_ok d"
  "tags_ok (d\<lparr>pendingLinks := x6\<rparr>) = tags_ok d"
  "tags_ok (d\<lparr>articleTags := x7\<rparr>) = tags_ok d"
  "tags_ok (d\<lparr>userFavorites := x8\<rparr>) = tags_ok d"
  "tags_ok (d\<lparr>userFollows := x9\<rparr>) = tags_ok d"
  "providers_ok (d\<lparr>articles := x1\<rparr>) = providers_ok d"
  "providers_ok (d\<lparr>cmts := x2\<rparr>) = providers_ok d"
  "providers_ok (d\<lparr>tags := x3\<rparr>) = providers_ok d"
  "providers_ok (d\<lparr>refreshTokens := x5\<rparr>) = providers_ok d"
  "providers_ok (d\<lparr>pendingLinks := x6\<rparr>) = providers_ok d"
  "providers_ok (d\<lparr>articleTags := x7\<rparr>) = providers_ok d"
  "providers_ok (d\<lparr>userFavorites := x8\<rparr>) = providers_ok d"
  "providers_ok (d\<lparr>userFollows := x9\<rparr>) = providers_ok d"
  "tokens_ok (d\<lparr>articles := x1\<rparr>) = tokens_ok d"
  "tokens_ok (d\<lparr>cmts := x2\<rparr>) = tokens_ok d"
  "tokens_ok (d\<lparr>tags := x3\<rparr>) = tokens_ok d"
  "tokens_ok (d\<lparr>authProviders := x4\<rparr>) = tokens_ok d"
  "tokens_ok (d\<lparr>pendingLinks := x6\<rparr>) = tokens_ok d"
  "tokens_ok (d\<lparr>articleTags := x7\<rparr>) = tokens_ok d"
  "tokens_ok (d\<lparr>userFavorites := x8\<rparr>) = tokens_ok d"
  "tokens_ok (d\<lparr>userFollows := x9\<rparr>) = tokens_ok d"
  "links_ok (d\<lparr>articles := x1\<rparr>) = links_ok d"
  "links_ok (d\<lparr>cmts := x2\<rparr>) = links_ok d"
  "links_ok (d\<lparr>tags := x3\<rparr>) = links_ok d"
  "links_ok (d\<lparr>authProviders := x4\<rparr>) = links_ok d"
  "links_ok (d\<lparr>refreshTokens := x5\<rparr>) = links_ok d"
  "links_ok (d\<lparr>articleTags := x7\<rparr>) = links_ok d"
  "links_ok (d\<lparr>userFavorites := x8\<rparr>) = links_ok d"
  "links_ok (d\<lparr>userFollows := x9\<rparr>) = links_ok d"
  "edges_ok (d\<lparr>cmts := x2\<rparr>) = edges_ok d"
  "edges_ok (d\<lparr>authProviders := x4\<rparr>) = edges_ok d"
  "edges_ok (d\<lparr>refreshTokens := x5\<rparr>) = edges_ok d"
  "edges_ok (d\<lparr>pendingLinks := x6\<rparr>) = edges_ok d"
  by (simp_all add: ok_defs)

declare ok_cong [simp]

text \<open>Sequences only grow, so an invariant that holds for a sequence holds for a later one.\<close>

definition seqs_le :: "db \<Rightarrow> db \<Rightarrow> bool" where
  "seqs_le d d' \<longleftrightarrow> (\<forall>m. seqs d m \<le> seqs d' m)"

lemma seqs_le_refl [simp]: "seqs_le d d"
  by (simp add: seqs_le_def)

lemma seqs_le_trans: "seqs_le a b \<Longrightarrow> seqs_le b c \<Longrightarrow> seqs_le a c"
  unfolding seqs_le_def by (meson le_trans)

lemma ok_later_seqs:
  assumes "\<And>m. seqs d m \<le> s m"
  shows "users_ok d \<Longrightarrow> users_ok (d\<lparr>seqs := s\<rparr>)"
    "articles_ok d \<Longrightarrow> articles_ok (d\<lparr>seqs := s\<rparr>)"
    "comments_ok d \<Longrightarrow> comments_ok (d\<lparr>seqs := s\<rparr>)"
    "tags_ok d \<Longrightarrow> tags_ok (d\<lparr>seqs := s\<rparr>)"
    "providers_ok d \<Longrightarrow> providers_ok (d\<lparr>seqs := s\<rparr>)"
    "tokens_ok d \<Longrightarrow> tokens_ok (d\<lparr>seqs := s\<rparr>)"
    "links_ok d \<Longrightarrow> links_ok (d\<lparr>seqs := s\<rparr>)"
    "edges_ok d \<Longrightarrow> edges_ok (d\<lparr>seqs := s\<rparr>)"
  using assms
  by (fastforce simp: ok_defs intro: order.strict_trans2)+

lemma db_ok_later_seqs: "db_ok d \<Longrightarrow> (\<And>m. seqs d m \<le> s m) \<Longrightarrow> db_ok (d\<lparr>seqs := s\<rparr>)"
  by (simp add: db_ok_def ok_later_seqs)

lemma db_ok_rollback: "db_ok d \<Longrightarrow> seqs_le d d' \<Longrightarrow> db_ok (rollback d d')"
  by (simp add: rollback_def db_ok_later_seqs seqs_le_def)

lemma db_ok_bump: "db_ok d \<Longrightarrow> db_ok (bump m d)"
  by (simp add: bump_def db_ok_later_seqs)

lemma bump_simps [simp]:
  "users (bump m d) = users d" "articles (bump m d) = articles d" "cmts (bump m d) = cmts d"
  "tags (bump m d) = tags d" "authProviders (bump m d) = authProviders d"
  "refreshTokens (bump m d) = refreshTokens d" "pendingLinks (bump m d) = pendingLinks d"
  "articleTags (bump m d) = articleTags d" "userFavorites (bump m d) = userFavorites d"
  "userFollows (bump m d) = userFollows d" "seqs (bump m d) = (seqs d)(m := Suc (seqs d m))"
  "seqs_le d (bump m d)"
  by (simp_all add: bump_def seqs_le_def)

lemma rollback_simps [simp]:
  "users (rollback d d') = users d" "articles (rollback d d') = articles d"
  "cmts (rollback d d') = cmts d" "tags (rollback d d') = tags d"
  "authProviders (rollback d d') = authProviders d"
  "refreshTokens (rollback d d') = refreshTokens d"
  "pendingLinks (rollback d d') = pendingLinks d"
  "articleTags (rollback d d') = articleTags d"
  "userFavorites (rollback d d') = userFavorites d"
  "userFollows (rollback d d') = userFollows d" "seqs (rollback d d') = seqs d'"
  by (simp_all add: rollback_def)

section \<open>Inserting rows\<close>

text \<open>
  \<open>create\<close> on each model: the next value of the sequence is taken, then the unique indexes and the
  foreign keys are checked in the order the migrations create them.
\<close>

definition create_user ::
    "jstr \<Rightarrow> jstr \<Rightarrow> jstr option \<Rightarrow> jstr option \<Rightarrow> (thrown, user, db) comp" where
  "create_user em un pw bio d =
     (let u = \<lparr>u_id = seqs d MUser, u_email = em, u_username = un, u_password = pw,
               u_image = None, u_bio = bio\<rparr>;
          d' = bump MUser d
      in if em \<in> u_email ` set (users d) then (Inl (unique_violation [''email'']), d')
         else if un \<in> u_username ` set (users d) then (Inl (unique_violation [''username'']), d')
         else (Inr u, d'\<lparr>users := users d @ [u]\<rparr>))"

definition create_auth_provider ::
    "nat \<Rightarrow> jstr \<Rightarrow> jstr \<Rightarrow> int \<Rightarrow> (thrown, auth_provider, db) comp" where
  "create_auth_provider uid prov acct now d =
     (let p = \<lparr>ap_id = seqs d MAuthProvider, ap_provider = prov, ap_providerAccountId = acct,
               ap_userId = uid, ap_createdAt = now\<rparr>;
          d' = bump MAuthProvider d
      in if (prov, acct) \<in> (\<lambda>p. (ap_provider p, ap_providerAccountId p)) ` set (authProviders d)
         then (Inl (unique_violation [''provider'', ''providerAccountId'']), d')
         else if uid \<notin> user_ids d then (Inl (PrismaKnown ''P2003'' TargetUndefined []), d')
         else (Inr p, d'\<lparr>authProviders := authProviders d @ [p]\<rparr>))"

definition create_refresh_token ::
    "nat \<Rightarrow> jstr \<Rightarrow> int \<Rightarrow> int \<Rightarrow> (thrown, refresh_token, db) comp" where
  "create_refresh_token uid hash expires now d =
     (let t = \<lparr>rt_id = seqs d MRefreshToken, rt_tokenHash = hash, rt_userId = uid,
               rt_expiresAt = expires, rt_revokedAt = None, rt_replacedById = None,
               rt_createdAt = now\<rparr>;
          d' = bump MRefreshToken d
      in if hash \<in> rt_tokenHash ` set (refreshTokens d)
         then (Inl (unique_violation [''tokenHash'']), d')
         else if uid \<notin> user_ids d then (Inl (PrismaKnown ''P2003'' TargetUndefined []), d')
         else (Inr t, d'\<lparr>refreshTokens := refreshTokens d @ [t]\<rparr>))"

definition create_pending_link ::
    "nat \<Rightarrow> jstr \<Rightarrow> jstr \<Rightarrow> jstr \<Rightarrow> int \<Rightarrow> int \<Rightarrow> (thrown, pending_link, db) comp" where
  "create_pending_link uid prov acct hash expires now d =
     (let l = \<lparr>pl_id = seqs d MPendingLink, pl_userId = uid, pl_provider = prov,
               pl_providerAccountId = acct, pl_tokenHash = hash, pl_expiresAt = expires,
               pl_createdAt = now\<rparr>;
          d' = bump MPendingLink d
      in if hash \<in> pl_tokenHash ` set (pendingLinks d)
         then (Inl (unique_violation [''tokenHash'']), d')
         else if (prov, acct) \<in> (\<lambda>l. (pl_provider l, pl_providerAccountId l)) ` set (pendingLinks d)
         then (Inl (unique_violation [''provider'', ''providerAccountId'']), d')
         else if (uid, prov) \<in> (\<lambda>l. (pl_userId l, pl_provider l)) ` set (pendingLinks d)
         then (Inl (unique_violation [''userId'', ''provider'']), d')
         else if uid \<notin> user_ids d then (Inl (PrismaKnown ''P2003'' TargetUndefined []), d')
         else (Inr l, d'\<lparr>pendingLinks := pendingLinks d @ [l]\<rparr>))"

lemma create_user_cases:
  assumes "create_user em un pw bio d = (r, d')"
  obtains (email) "em \<in> u_email ` set (users d)" "r = Inl (unique_violation [''email''])"
      "d' = bump MUser d"
  | (username) "em \<notin> u_email ` set (users d)" "un \<in> u_username ` set (users d)"
      "r = Inl (unique_violation [''username''])" "d' = bump MUser d"
  | (ok) u where "em \<notin> u_email ` set (users d)" "un \<notin> u_username ` set (users d)" "r = Inr u"
      "u = \<lparr>u_id = seqs d MUser, u_email = em, u_username = un, u_password = pw,
            u_image = None, u_bio = bio\<rparr>" "d' = (bump MUser d)\<lparr>users := users d @ [u]\<rparr>"
  using assms by (auto simp: create_user_def Let_def split: if_splits)

lemma ok_add_user:
  assumes ok: "db_ok d" and "u_email u \<notin> u_email ` set (users d)"
    and "u_username u \<notin> u_username ` set (users d)" and "u_id u = seqs d MUser"
  shows "db_ok ((bump MUser d)\<lparr>users := users d @ [u]\<rparr>)"
proof -
  have "seqs d MUser \<notin> u_id ` set (users d)"
    using db_okD(1) [OF ok] by (auto simp: users_ok_def)
  then show ?thesis
    using assms by (auto simp: db_ok_def ok_defs uniq_append1)
qed

lemma db_ok_create_user [keeps]:
  assumes "create_user em un pw bio d = (r, d')" and "db_ok d"
  shows "db_ok d' \<and> seqs_le d d'"
  using assms(1)
proof (cases rule: create_user_cases)
  case (ok u)
  then show ?thesis using ok_add_user [OF assms(2), of u] by (auto simp: seqs_le_def)
qed (use assms(2) in \<open>simp_all add: db_ok_bump\<close>)

text \<open>Replacing one table that no other table refers to keeps everything if that table is right.\<close>

lemma db_ok_put:
  assumes "db_ok d"
  shows "providers_ok (d\<lparr>authProviders := ps\<rparr>) \<Longrightarrow> db_ok (d\<lparr>authProviders := ps\<rparr>)"
    "tokens_ok (d\<lparr>refreshTokens := ts\<rparr>) \<Longrightarrow> db_ok (d\<lparr>refreshTokens := ts\<rparr>)"
    "links_ok (d\<lparr>pendingLinks := ls\<rparr>) \<Longrightarrow> db_ok (d\<lparr>pendingLinks := ls\<rparr>)"
    "comments_ok (d\<lparr>cmts := cs\<rparr>) \<Longrightarrow> db_ok (d\<lparr>cmts := cs\<rparr>)"
    "edges_ok (d\<lparr>userFavorites := fs\<rparr>) \<Longrightarrow> db_ok (d\<lparr>userFavorites := fs\<rparr>)"
    "edges_ok (d\<lparr>userFollows := gs\<rparr>) \<Longrightarrow> db_ok (d\<lparr>userFollows := gs\<rparr>)"
    "edges_ok (d\<lparr>articleTags := hs\<rparr>) \<Longrightarrow> db_ok (d\<lparr>articleTags := hs\<rparr>)"
  using assms by (simp_all add: db_ok_def)

lemma db_ok_put_users:
  assumes "db_ok d" and "map u_id us = map u_id (users d)" and "users_ok (d\<lparr>users := us\<rparr>)"
  shows "db_ok (d\<lparr>users := us\<rparr>)"
proof -
  have "u_id ` set us = u_id ` set (users d)"
    using arg_cong [OF assms(2), of set] by simp
  then show ?thesis
    using assms(1,3) by (simp add: db_ok_def ok_defs)
qed

lemma providers_ok_add:
  assumes "providers_ok d" and "ap_id p = seqs d MAuthProvider" and "ap_userId p \<in> user_ids d"
    and "(ap_provider p, ap_providerAccountId p)
           \<notin> (\<lambda>p. (ap_provider p, ap_providerAccountId p)) ` set (authProviders d)"
  shows "providers_ok ((bump MAuthProvider d)\<lparr>authProviders := authProviders d @ [p]\<rparr>)"
proof -
  have "seqs d MAuthProvider \<notin> ap_id ` set (authProviders d)"
    using assms(1) by (auto simp: providers_ok_def)
  with assms show ?thesis
    by (simp add: providers_ok_def uniq_append1 user_ids_def less_SucI)
qed

lemma tokens_ok_add:
  assumes "tokens_ok d" and "rt_id t = seqs d MRefreshToken" and "rt_userId t \<in> user_ids d"
    and "rt_tokenHash t \<notin> rt_tokenHash ` set (refreshTokens d)" and "rt_replacedById t = None"
  shows "tokens_ok ((bump MRefreshToken d)\<lparr>refreshTokens := refreshTokens d @ [t]\<rparr>)"
proof -
  have "seqs d MRefreshToken \<notin> rt_id ` set (refreshTokens d)"
    using assms(1) by (auto simp: tokens_ok_def)
  with assms show ?thesis
    by (simp add: tokens_ok_def uniq_append1 uniq_opt_append1 user_ids_def less_SucI)
qed

lemma links_ok_add:
  assumes "links_ok d" and "pl_id l = seqs d MPendingLink" and "pl_userId l \<in> user_ids d"
    and "pl_tokenHash l \<notin> pl_tokenHash ` set (pendingLinks d)"
    and "(pl_provider l, pl_providerAccountId l)
           \<notin> (\<lambda>l. (pl_provider l, pl_providerAccountId l)) ` set (pendingLinks d)"
    and "(pl_userId l, pl_provider l) \<notin> (\<lambda>l. (pl_userId l, pl_provider l)) ` set (pendingLinks d)"
  shows "links_ok ((bump MPendingLink d)\<lparr>pendingLinks := pendingLinks d @ [l]\<rparr>)"
proof -
  have "seqs d MPendingLink \<notin> pl_id ` set (pendingLinks d)"
    using assms(1) by (auto simp: links_ok_def)
  with assms show ?thesis
    by (simp add: links_ok_def uniq_append1 user_ids_def less_SucI)
qed

lemma db_ok_create_auth_provider [keeps]:
  assumes "create_auth_provider uid prov acct now d = (r, d')" and "db_ok d"
  shows "db_ok d' \<and> seqs_le d d'"
  using assms(1) db_ok_bump [OF assms(2), of MAuthProvider]
    db_ok_put(1) [OF db_ok_bump [OF assms(2), of MAuthProvider]]
    providers_ok_add [OF db_okD(5) [OF assms(2)]]
  by (auto simp: create_auth_provider_def Let_def seqs_le_def split: if_splits)

lemma db_ok_create_refresh_token [keeps]:
  assumes "create_refresh_token uid hash expires now d = (r, d')" and "db_ok d"
  shows "db_ok d' \<and> seqs_le d d'"
  using assms(1) db_ok_bump [OF assms(2), of MRefreshToken]
    db_ok_put(2) [OF db_ok_bump [OF assms(2), of MRefreshToken]]
    tokens_ok_add [OF db_okD(6) [OF assms(2)]]
  by (auto simp: create_refresh_token_def Let_def seqs_le_def split: if_splits)

lemma db_ok_create_pending_link [keeps]:
  assumes "create_pending_link uid prov acct hash expires now d = (r, d')" and "db_ok d"
  shows "db_ok d' \<and> seqs_le d d'"
  using assms(1) db_ok_bump [OF assms(2), of MPendingLink]
    db_ok_put(3) [OF db_ok_bump [OF assms(2), of MPendingLink]]
    links_ok_add [OF db_okD(7) [OF assms(2)]]
  by (auto simp: create_pending_link_def Let_def seqs_le_def split: if_splits)

section \<open>A small database for concrete runs\<close>

definition demo_user :: "nat \<Rightarrow> string \<Rightarrow> user" where
  "demo_user i nm = \<lparr>u_id = i, u_email = js (nm @ ''@x.io''), u_username = js nm,
     u_password = Some (js ''h''), u_image = None, u_bio = None\<rparr>"

definition demo_db :: db where
  "demo_db = empty_db\<lparr>users := [demo_user 1 ''ann'', demo_user 2 ''bob''], seqs := (\<lambda>_. 5)\<rparr>"

lemma demo_db_ok: "db_ok demo_db"
  by (simp add: db_ok_def ok_defs demo_db_def demo_user_def empty_db_def)

end
