(* ===== verification/Account.thy ===== *)
theory Account
  imports Database
begin

text \<open>
  The user and provider rows that account resolution works on (\<open>src/auth/account\<close>), the generated user
  name, and the identity the Google strategy hands over (\<open>src/auth/providers\<close>).
\<close>

section \<open>AccountUserRepository and AuthProviderRepository\<close>

record account_row =
  ac_id :: nat
  ac_email :: jstr
  ac_username :: jstr
  ac_bio :: "jstr option"
  ac_image :: "jstr option"

definition ACCOUNT_SELECT :: "user \<Rightarrow> account_row" where
  "ACCOUNT_SELECT u = \<lparr>ac_id = u_id u, ac_email = u_email u, ac_username = u_username u,
     ac_bio = u_bio u, ac_image = u_image u\<rparr>"

definition find_user :: "nat \<Rightarrow> db \<Rightarrow> user option" where
  "find_user i d = find (\<lambda>u. u_id u = i) (users d)"

definition findIdByEmail :: "jstr \<Rightarrow> db \<Rightarrow> nat option" where
  "findIdByEmail em d = map_option u_id (find (\<lambda>u. u_email u = em) (users d))"

definition createPasswordless :: "jstr \<Rightarrow> jstr \<Rightarrow> (thrown, account_row, db) comp" where
  "createPasswordless em un d =
     andThen (create_user em un None None d) (\<lambda>u d'. (Inr (ACCOUNT_SELECT u), d'))"

text \<open>The unique index on provider and account; its relation to the user cannot dangle.\<close>

definition find_link :: "jstr \<Rightarrow> jstr \<Rightarrow> db \<Rightarrow> auth_provider option" where
  "find_link prov acct d =
     find (\<lambda>p. (ap_provider p, ap_providerAccountId p) = (prov, acct)) (authProviders d)"

definition findAccountByProvider :: "jstr \<Rightarrow> jstr \<Rightarrow> db \<Rightarrow> account_row option" where
  "findAccountByProvider prov acct d = (case find_link prov acct d of
     None \<Rightarrow> None
   | Some p \<Rightarrow> map_option ACCOUNT_SELECT (find_user (ap_userId p) d))"

definition createLink :: "nat \<Rightarrow> jstr \<Rightarrow> jstr \<Rightarrow> int \<Rightarrow> (thrown, unit, db) comp" where
  "createLink uid prov acct now d =
     andThen (create_auth_provider uid prov acct now d) (\<lambda>_ d'. (Inr (), d'))"

lemma find_user_Some:
  "users_ok d \<Longrightarrow> find_user i d = Some u \<longleftrightarrow> u \<in> set (users d) \<and> u_id u = i"
  by (auto simp: find_user_def users_ok_def uniq_find dest: find_SomeD)

lemma find_user_exists: "i \<in> user_ids d \<Longrightarrow> \<exists>u. find_user i d = Some u \<and> u_id u = i"
proof -
  assume "i \<in> user_ids d"
  then obtain w where w: "w \<in> set (users d)" "u_id w = i" unfolding user_ids_def by blast
  show ?thesis
  proof (cases "find_user i d")
    case None
    then show ?thesis using w find_NoneD unfolding find_user_def by fast
  next
    case (Some u)
    then show ?thesis using find_SomeD unfolding find_user_def by fast
  qed
qed

lemma find_link_Some:
  "providers_ok d \<Longrightarrow> find_link prov acct d = Some p \<longleftrightarrow>
     p \<in> set (authProviders d) \<and> ap_provider p = prov \<and> ap_providerAccountId p = acct"
  using uniq_find [of "\<lambda>p. (ap_provider p, ap_providerAccountId p)" "authProviders d" p "(prov, acct)"]
  unfolding find_link_def providers_ok_def by (auto dest: find_SomeD)

lemma find_link_None:
  "find_link prov acct d = None \<longleftrightarrow>
     (prov, acct) \<notin> (\<lambda>p. (ap_provider p, ap_providerAccountId p)) ` set (authProviders d)"
  by (auto simp: find_link_def find_None_iff image_iff)

lemma findAccountByProvider_Some:
  assumes "db_ok d"
  shows "findAccountByProvider prov acct d = Some a \<longleftrightarrow>
     (\<exists>p u. p \<in> set (authProviders d) \<and> ap_provider p = prov \<and> ap_providerAccountId p = acct
        \<and> u \<in> set (users d) \<and> u_id u = ap_userId p \<and> a = ACCOUNT_SELECT u)"
proof -
  note link = find_link_Some [OF db_okD(5) [OF assms], of prov acct]
    and usr = find_user_Some [OF db_okD(1) [OF assms]]
  show ?thesis
  proof (cases "find_link prov acct d")
    case None
    then show ?thesis using link by (auto simp: findAccountByProvider_def)
  next
    case (Some p)
    have only: "p' \<in> set (authProviders d) \<and> ap_provider p' = prov \<and> ap_providerAccountId p' = acct
        \<longleftrightarrow> p' = p" for p'
      using link [of p'] unfolding Some by blast
    show ?thesis
      unfolding findAccountByProvider_def Some option.case map_option_eq_Some usr
      using only by metis
  qed
qed

lemma findAccountByProvider_None:
  assumes "db_ok d"
  shows "findAccountByProvider prov acct d = None \<longleftrightarrow> find_link prov acct d = None"
proof -
  have "\<exists>u. find_user (ap_userId p) d = Some u" if "find_link prov acct d = Some p" for p
    using that find_link_Some [OF db_okD(5) [OF assms]] db_okD(5) [OF assms] find_user_exists
    by (metis providers_ok_def)
  then show ?thesis by (auto simp: findAccountByProvider_def split: option.splits)
qed

lemma findAccountByProvider_ac_id:
  "findAccountByProvider prov acct d = Some a \<Longrightarrow>
     \<exists>p. find_link prov acct d = Some p \<and> ac_id a = ap_userId p"
  by (auto simp: findAccountByProvider_def find_user_def ACCOUNT_SELECT_def
      split: option.splits dest: find_SomeD)

lemma createLink_unlinked:
  assumes "uid \<in> user_ids d" and "find_link prov acct d = None"
  shows "createLink uid prov acct now d =
     (Inr (), (bump MAuthProvider d)\<lparr>authProviders := authProviders d @
        [\<lparr>ap_id = seqs d MAuthProvider, ap_provider = prov, ap_providerAccountId = acct,
          ap_userId = uid, ap_createdAt = now\<rparr>]\<rparr>)"
  using assms by (simp add: createLink_def create_auth_provider_def Let_def find_link_None)

lemma createLink_linked:
  assumes "find_link prov acct d = Some p"
  shows "createLink uid prov acct now d =
     (Inl (unique_violation [''provider'', ''providerAccountId'']), bump MAuthProvider d)"
  using assms find_link_None [of prov acct d]
  by (simp add: createLink_def create_auth_provider_def Let_def)

lemma db_ok_createLink [keeps]:
  assumes "createLink uid prov acct now d = (r, d')" and "db_ok d"
  shows "db_ok d' \<and> seqs_le d d'"
proof -
  obtain r' where "create_auth_provider uid prov acct now d = (r', d')"
    using assms(1) by (auto simp: createLink_def andThen_def split: prod.splits sum.splits)
  then show ?thesis using assms(2) by (rule db_ok_create_auth_provider)
qed

section \<open>Generated user names\<close>

definition USERNAME_MIN :: nat where "USERNAME_MIN = 3"
definition USERNAME_MAX :: nat where "USERNAME_MAX = 30"

text \<open>\<open>[^a-z0-9._-]\<close>\<close>

definition username_char :: "nat \<Rightarrow> bool" where
  "username_char c \<longleftrightarrow> 97 \<le> c \<and> c \<le> 122 \<or> 48 \<le> c \<and> c \<le> 57 \<or> c = 46 \<or> c = 95 \<or> c = 45"

definition baseUsernameFromEmail :: "unicode \<Rightarrow> jstr \<Rightarrow> jstr" where
  "baseUsernameFromEmail uni email =
     (let localPart = hd (split_on 64 email);
          cleaned = take USERNAME_MAX
            (replace_runs (\<lambda>c. \<not> username_char c) [] (lower uni (hd (split_on 43 localPart))))
      in if length cleaned \<ge> USERNAME_MIN then cleaned
         else take USERNAME_MAX (js ''user'' @ cleaned))"

definition generateUsername :: "unicode \<Rightarrow> jstr \<Rightarrow> nat \<Rightarrow> jstr \<Rightarrow> jstr" where
  "generateUsername uni email time randStr =
     (let base = baseUsernameFromEmail uni email;
          suffix = js ''_'' @ show_nat time @ js ''_'' @ randStr;
          maxBaseLength = USERNAME_MAX - length suffix
      in take USERNAME_MAX (take maxBaseLength base @ suffix))"

section \<open>The Google identity\<close>

datatype claim_value = ClaimBool bool | ClaimString jstr | ClaimOther

record google_profile =
  gp_id :: jstr
  gp_emails :: "(jstr \<times> claim_value) list option"
  gp_displayName :: "jstr option"

record verified_identity =
  vi_provider :: jstr
  vi_providerAccountId :: jstr
  vi_email :: jstr
  vi_emailVerified :: bool
  vi_displayName :: "jstr option"

definition GOOGLE_PROVIDER :: jstr where
  "GOOGLE_PROVIDER = js ''google''"

definition isVerified :: "claim_value \<Rightarrow> bool" where
  "isVerified v \<longleftrightarrow> v = ClaimBool True \<or> v = ClaimString (js ''true'')"

definition google_validate :: "unicode \<Rightarrow> google_profile \<Rightarrow> thrown + verified_identity" where
  "google_validate uni profile = (case gp_emails profile of
     Some ((value, verified) # _) \<Rightarrow>
       if value = [] then
         Inl (UnauthorizedException (Text (js ''Google account has no email address'')))
       else Inr \<lparr>vi_provider = GOOGLE_PROVIDER, vi_providerAccountId = gp_id profile,
                 vi_email = lower uni (trim value), vi_emailVerified = isVerified verified,
                 vi_displayName = gp_displayName profile\<rparr>
   | _ \<Rightarrow> Inl (UnauthorizedException (Text (js ''Google account has no email address''))))"

section \<open>Properties\<close>

lemma set_js_user: "c \<in> set (js ''user'') \<Longrightarrow> username_char c"
  by (auto simp: js_def username_char_def)

lemma set_baseUsername: "c \<in> set (baseUsernameFromEmail uni email) \<Longrightarrow> username_char c"
  unfolding baseUsernameFromEmail_def Let_def
  by (auto dest!: in_set_takeD dest: set_replace_runs split: if_splits simp: set_js_user)

lemma underscore_not_digit [simp]: "95 \<notin> set (show_nat n)"
  using show_nat_digits [of 95 n] by (auto simp: is_digit_def)

lemma generateUsername_form:
  "generateUsername uni email time r = take USERNAME_MAX
     (take (USERNAME_MAX - (2 + length (show_nat time) + length r)) (baseUsernameFromEmail uni email)
       @ 95 # show_nat time @ 95 # r)"
  by (simp add: generateUsername_def Let_def js_def)

text \<open>A generated user name obeys the registration bounds of 3 and 30 characters and, when the
  random suffix does, consists of lower-case letters, digits, dots, underscores and dashes, whatever
  the address is.\<close>

theorem generated_username_valid:
  assumes "\<forall>c \<in> set r. username_char c"
  shows "USERNAME_MIN \<le> length (generateUsername uni email time r)
     \<and> length (generateUsername uni email time r) \<le> USERNAME_MAX
     \<and> (\<forall>c \<in> set (generateUsername uni email time r). username_char c)"
proof -
  have "Suc 0 \<le> length (show_nat time)" by (simp add: Suc_le_eq)
  moreover have "username_char c" if "c \<in> set (show_nat time)" for c
    using show_nat_digits [OF that] by (simp add: is_digit_def username_char_def)
  moreover have "username_char 95" by (simp add: username_char_def)
  ultimately show ?thesis
    unfolding generateUsername_form USERNAME_MIN_def USERNAME_MAX_def
    using assms by (auto dest!: in_set_takeD dest: set_baseUsername simp: min_def)
qed

theorem generated_username_valid_witness:
  "length (generateUsername ascii_unicode (js ''a+b@x.io'') 1700000000000 (js ''beef'')) \<le> USERNAME_MAX"
  using generated_username_valid [of "js ''beef''" ascii_unicode "js ''a+b@x.io''" 1700000000000]
  by (simp add: js_def username_char_def)

text \<open>As long as the suffix fits, a generated name determines the time and the random part it was
  generated with, whatever the addresses: names generated at different times, or with different
  random parts, differ.\<close>

theorem generated_username_distinct:
  assumes "2 + length (show_nat t) + length r \<le> USERNAME_MAX"
    and "2 + length (show_nat t') + length r' \<le> USERNAME_MAX"
    and "95 \<notin> set r" and "95 \<notin> set r'"
    and "generateUsername uni email t r = generateUsername uni email' t' r'"
  shows "t = t' \<and> r = r'"
proof -
  have uncut: "generateUsername uni e s q = (take (USERNAME_MAX - (2 + length (show_nat s) + length q))
      (baseUsernameFromEmail uni e) @ 95 # show_nat s) @ 95 # q"
    if "2 + length (show_nat s) + length q \<le> USERNAME_MAX" for e s q
    unfolding generateUsername_form using that by simp
  show ?thesis
    using assms(5) unfolding uncut [OF assms(1)] uncut [OF assms(2)] sep_back [OF assms(3,4)]
    by (simp add: sep_back)
qed

theorem generated_username_distinct_witness:
  "\<not> generateUsername ascii_unicode (js ''a@x'') 17 (js ''beef'') =
     generateUsername ascii_unicode (js ''b@x'') 18 (js ''beef'')"
proof
  have n: "show_nat 17 = [49, 55]" "show_nat 18 = [49, 56]" by (simp_all add: show_nat.simps)
  assume "generateUsername ascii_unicode (js ''a@x'') 17 (js ''beef'') =
     generateUsername ascii_unicode (js ''b@x'') 18 (js ''beef'')"
  then have "17 = (18::nat) \<and> js ''beef'' = js ''beef''"
    by (rule generated_username_distinct [rotated 4])
      (simp_all add: n USERNAME_MAX_def, simp_all add: js_def)
  then show False by simp
qed

end
