(* ===== verification/FileStorage.thy ===== *)
theory FileStorage
  imports HttpErrors
begin

text \<open>
  Object storage (\<open>src/file-storage\<close>): the key of a new object, the S3 driver and the service that
  turns its failures into 502 responses.

  The bucket is a parameter only in what its calls answer: a call is carried out and answered, refused
  without effect, or carried out with its answer lost. What a carried out call does to the bucket is
  S3's documented meaning of it.
\<close>

section \<open>Keys\<close>

definition is_slash :: "nat \<Rightarrow> bool" where "is_slash c \<longleftrightarrow> c = 47"
definition is_dot :: "nat \<Rightarrow> bool" where "is_dot c \<longleftrightarrow> c = 46"

definition alnum :: "nat \<Rightarrow> bool" where
  "alnum c \<longleftrightarrow> 97 \<le> c \<and> c \<le> 122 \<or> 48 \<le> c \<and> c \<le> 57"

definition buildStorageKey :: "unicode \<Rightarrow> jstr \<Rightarrow> jstr \<Rightarrow> jstr \<Rightarrow> thrown + jstr" where
  "buildStorageKey uni folder extension uuid =
     (let cleanFolder = strip_both is_slash folder;
          cleanExtension = lower uni (dropWhile is_dot extension)
      in if cleanExtension = [] \<or> \<not> list_all alnum cleanExtension
         then Inl (JsError (js ''Invalid storage extension''))
         else Inr (cleanFolder @ js ''/'' @ uuid @ js ''.'' @ cleanExtension))"

section \<open>The driver\<close>

record stored_object =
  so_data :: "nat list"
  so_contentType :: jstr
  so_contentLength :: nat

type_synonym bucket = "jstr \<rightharpoonup> stored_object"

datatype outcome = Done | Refused thrown | LostReply thrown

record s3_env =
  s3_put :: "jstr \<Rightarrow> outcome"
  s3_delete :: "jstr \<Rightarrow> outcome"
  s3_publicUrl :: jstr

definition driver_put :: "s3_env \<Rightarrow> jstr \<Rightarrow> stored_object \<Rightarrow> (thrown, unit, bucket) comp" where
  "driver_put env key obj b = (case s3_put env key of
     Done \<Rightarrow> (Inr (), b(key \<mapsto> obj))
   | Refused e \<Rightarrow> (Inl e, b)
   | LostReply e \<Rightarrow> (Inl e, b(key \<mapsto> obj)))"

definition driver_delete :: "s3_env \<Rightarrow> jstr \<Rightarrow> (thrown, unit, bucket) comp" where
  "driver_delete env key b = (case s3_delete env key of
     Done \<Rightarrow> (Inr (), b(key := None))
   | Refused e \<Rightarrow> (Inl e, b)
   | LostReply e \<Rightarrow> (Inl e, b(key := None)))"

definition driver_url :: "s3_env \<Rightarrow> jstr \<Rightarrow> jstr" where
  "driver_url env key =
     (let u = s3_publicUrl env
      in (if u \<noteq> [] \<and> is_slash (last u) then butlast u else u) @ js ''/'' @ key)"

text \<open>
  \<open>list\<close> follows continuation tokens until a page is not truncated. \<open>page\<close> is S3's answer to a token:
  the keys of its \<open>Contents\<close> (absent contents and absent or empty keys count as nothing),
  \<open>IsTruncated\<close> and \<open>NextContinuationToken\<close>. A bucket that always has a next page would be listed
  forever, so the loop is a partial function.
\<close>

record list_page =
  lp_contents :: "jstr option list option"
  lp_isTruncated :: bool
  lp_nextToken :: "jstr option"

definition page_keys :: "list_page \<Rightarrow> jstr list" where
  "page_keys p = (case lp_contents p of None \<Rightarrow> []
     | Some cs \<Rightarrow> concat (map (\<lambda>k. case k of Some s \<Rightarrow> if s = [] then [] else [s] | None \<Rightarrow> []) cs))"

definition next_token :: "list_page \<Rightarrow> jstr option" where
  "next_token p = (if lp_isTruncated p
     then (case lp_nextToken p of Some t \<Rightarrow> if t = [] then None else Some t | None \<Rightarrow> None) else None)"

partial_function (option) list_loop ::
    "(jstr option \<Rightarrow> list_page) \<Rightarrow> jstr option \<Rightarrow> jstr list \<Rightarrow> jstr list option" where
  "list_loop page token keys =
     (let p = page token; keys' = keys @ page_keys p
      in case next_token p of
           None \<Rightarrow> Some keys'
         | Some t \<Rightarrow> list_loop page (Some t) keys')"

definition driver_list :: "(jstr option \<Rightarrow> list_page) \<Rightarrow> jstr list option" where
  "driver_list page = list_loop page None []"

section \<open>FileStorageService\<close>

definition upload_failed :: thrown where
  "upload_failed = BadGatewayException (Text (js ''File upload failed''))"

definition deletion_failed :: thrown where
  "deletion_failed = BadGatewayException (Text (js ''File deletion failed''))"

definition upload :: "s3_env \<Rightarrow> jstr \<Rightarrow> nat list \<Rightarrow> jstr \<Rightarrow> (thrown, jstr, bucket) comp" where
  "upload env key data mimeType b =
     (case driver_put env key
            \<lparr>so_data = data, so_contentType = mimeType, so_contentLength = length data\<rparr> b of
        (Inl _, b') \<Rightarrow> (Inl upload_failed, b')
      | (Inr _, b') \<Rightarrow> (Inr key, b'))"

definition publicUrl :: "s3_env \<Rightarrow> jstr option \<Rightarrow> jstr option" where
  "publicUrl env key = (case key of None \<Rightarrow> None | Some k \<Rightarrow> Some (driver_url env k))"

definition delete_file :: "s3_env \<Rightarrow> jstr \<Rightarrow> (thrown, unit, bucket) comp" where
  "delete_file env key b = (case driver_delete env key b of
     (Inl _, b') \<Rightarrow> (Inl deletion_failed, b')
   | (Inr _, b') \<Rightarrow> (Inr (), b'))"

section \<open>The contract of a storage driver\<close>

text \<open>
  What the rest of the program relies on (the \<open>StorageDriver\<close> interface): a successful call has done
  what it says, a failed one may or may not have, and no call touches another key.
\<close>

locale storage =
  fixes put :: "jstr \<Rightarrow> stored_object \<Rightarrow> (thrown, unit, bucket) comp"
    and delete :: "jstr \<Rightarrow> (thrown, unit, bucket) comp"
  assumes put_ok: "put k v b = (Inr u, b') \<Longrightarrow> b' k = Some v"
    and put_failed: "put k v b = (Inl e, b') \<Longrightarrow> b' k = b k \<or> b' k = Some v"
    and put_frame: "put k v b = (r, b') \<Longrightarrow> j \<noteq> k \<Longrightarrow> b' j = b j"
    and delete_ok: "delete k b = (Inr u, b') \<Longrightarrow> b' k = None"
    and delete_failed: "delete k b = (Inl e, b') \<Longrightarrow> b' k = b k \<or> b' k = None"
    and delete_frame: "delete k b = (r, b') \<Longrightarrow> j \<noteq> k \<Longrightarrow> b' j = b j"
begin

lemma put_keeps: "put k v b = (r, b') \<Longrightarrow> b j \<noteq> None \<Longrightarrow> b' j \<noteq> None"
  using put_ok [of k v b] put_failed [of k v b] put_frame [of k v b]
  by (metis option.distinct(1) sum.exhaust)

lemma put_adds_only: "put k v b = (r, b') \<Longrightarrow> b' j \<noteq> None \<Longrightarrow> j = k \<or> b j \<noteq> None"
  using put_frame by fastforce

lemma delete_keeps: "delete k b = (r, b') \<Longrightarrow> j \<noteq> k \<Longrightarrow> b j \<noteq> None \<Longrightarrow> b' j \<noteq> None"
  using delete_frame by metis

lemma delete_adds_nothing: "delete k b = (r, b') \<Longrightarrow> b' j \<noteq> None \<Longrightarrow> b j \<noteq> None"
  using delete_ok [of k b] delete_failed [of k b] delete_frame [of k b] by (metis sum.exhaust)

lemma put_delete: "put k v b = (r, b1) \<Longrightarrow> delete k b1 = (Inr u, b2) \<Longrightarrow> b k = None \<Longrightarrow> b2 = b"
  using put_frame delete_frame delete_ok by (intro ext) metis

end

interpretation s3: storage "driver_put env" "driver_delete env" for env
  by unfold_locales (auto simp: driver_put_def driver_delete_def split: outcome.splits)

text \<open>The service only renames the errors, so it satisfies the contract too.\<close>

lemma upload_driver:
  "upload env key data mime b = (r, b') \<Longrightarrow>
     \<exists>r' obj. driver_put env key obj b = (r', b') \<and> so_data obj = data
        \<and> r = (case r' of Inl _ \<Rightarrow> Inl upload_failed | Inr _ \<Rightarrow> Inr key)"
  unfolding upload_def
  by (cases "driver_put env key \<lparr>so_data = data, so_contentType = mime, so_contentLength = length data\<rparr> b";
      cases "fst (driver_put env key
        \<lparr>so_data = data, so_contentType = mime, so_contentLength = length data\<rparr> b)")
    (auto intro!: exI [of _ "\<lparr>so_data = data, so_contentType = mime, so_contentLength = length data\<rparr>"])

lemma delete_driver:
  "delete_file env key b = (r, b') \<Longrightarrow>
     \<exists>r'. driver_delete env key b = (r', b')
        \<and> r = (case r' of Inl _ \<Rightarrow> Inl deletion_failed | Inr _ \<Rightarrow> Inr ())"
  by (auto simp: delete_file_def split: prod.splits sum.splits)

section \<open>Listing terminates when the pages do\<close>

inductive pages :: "(jstr option \<Rightarrow> list_page) \<Rightarrow> jstr option \<Rightarrow> jstr list \<Rightarrow> bool" for page where
  last_page: "next_token (page t) = None \<Longrightarrow> pages page t (page_keys (page t))"
| more_pages: "next_token (page t) = Some t' \<Longrightarrow> pages page (Some t') ks \<Longrightarrow>
     pages page t (page_keys (page t) @ ks)"

lemma list_loop_pages: "pages page t ks \<Longrightarrow> list_loop page t acc = Some (acc @ ks)"
proof (induction arbitrary: acc rule: pages.induct)
  case (last_page t)
  then show ?case by (subst list_loop.simps) (simp add: Let_def)
next
  case (more_pages t t' ks)
  then show ?case by (subst list_loop.simps) (simp add: Let_def)
qed

lemma list_loop_chain:
  "list_loop page t acc = Some ks \<Longrightarrow> \<exists>rest. ks = acc @ rest \<and> pages page t rest"
proof (induction page t acc ks rule: list_loop.raw_induct [rotated 1, consumes 1, case_names 1])
  case (1 loop page t acc ks)
  show ?case
  proof (cases "next_token (page t)")
    case None
    then show ?thesis using 1(2) by (auto simp: Let_def intro: pages.last_page)
  next
    case (Some t')
    then have "loop page (Some t') (acc @ page_keys (page t)) = Some ks" using 1(2) by (simp add: Let_def)
    from 1(1) [OF this] Some show ?thesis by (auto intro: pages.intros)
  qed
qed

text \<open>Listing a bucket returns exactly when the chain of continuation tokens ends, and then with the keys of all its
  pages in order; it runs forever only when S3 never stops handing out tokens.\<close>

lemma listing_follows_the_chain:
  "driver_list page = Some ks \<longleftrightarrow> pages page None ks"
  using list_loop_chain [of page None "[]" ks] list_loop_pages [of page None ks "[]"]
  by (auto simp: driver_list_def)


definition demo_pages :: "jstr option \<Rightarrow> list_page" where
  "demo_pages t = (case t of
     None \<Rightarrow> \<lparr>lp_contents = Some [Some (js ''a''), None], lp_isTruncated = True, lp_nextToken = Some (js ''more'')\<rparr>
   | Some _ \<Rightarrow> \<lparr>lp_contents = Some [Some (js ''b'')], lp_isTruncated = False, lp_nextToken = None\<rparr>)"


end
