(* ===== verification/Images.thy ===== *)
theory Images
  imports HttpErrors
begin

text \<open>
  The worker pool (\<open>src/worker-pool/piscina-pool.service.ts\<close>), the image worker
  (\<open>src/image-processing/workers/image-processing.worker.ts\<close>) and the service that runs the worker in
  the pool (\<open>src/image-processing/image-processing.service.ts\<close>).

  Parameters: Piscina (the length of its queue, what running a task does, whether the timer fired
  first), the file system, and sharp (the metadata it reads, the image it produces). Durations only
  go to the log and are left out.
\<close>

section \<open>PiscinaPoolService\<close>

definition MAX_THREADS_CAP :: nat where "MAX_THREADS_CAP = 2"
definition MIN_THREADS :: nat where "MIN_THREADS = 1"
definition QUEUE_MULTIPLIER :: nat where "QUEUE_MULTIPLIER = 2"

record pool =
  maxThreads :: nat
  maxQueue :: nat
  validatedWorkerPaths :: "jstr set"
  closing :: bool

definition new_pool :: "nat \<Rightarrow> pool" where
  "new_pool availableParallelism =
     (let threads = max MIN_THREADS (min MAX_THREADS_CAP (availableParallelism - 1))
      in \<lparr>maxThreads = threads, maxQueue = threads * QUEUE_MULTIPLIER,
          validatedWorkerPaths = {}, closing = False\<rparr>)"

datatype pool_error = Unavailable jstr | TaskTimeout | TaskFailed

datatype 'r task_outcome = Finished 'r | Threw | Aborted

record ('t, 'r) pool_env =
  queueSize :: nat
  isAbsolute :: "jstr \<Rightarrow> bool"
  existsSync :: "jstr \<Rightarrow> bool"
  runTask :: "'t \<Rightarrow> 'r task_outcome"

definition assertAccepting :: "('t, 'r) pool_env \<Rightarrow> pool \<Rightarrow> pool_error option" where
  "assertAccepting env p =
     (if closing p then Some (Unavailable (js ''Piscina pool is shutting down''))
      else if queueSize env \<ge> maxQueue p then Some (Unavailable (js ''Piscina task queue is at capacity''))
      else None)"

definition assertWorkerPath :: "('t, 'r) pool_env \<Rightarrow> jstr \<Rightarrow> (pool_error, unit, pool) comp" where
  "assertWorkerPath env path p =
     (if path \<in> validatedWorkerPaths p then (Inr (), p)
      else if \<not> isAbsolute env path \<or> \<not> existsSync env path
      then (Inl (Unavailable (js ''Piscina worker not found at '' @ path)), p)
      else (Inr (), p\<lparr>validatedWorkerPaths := insert path (validatedWorkerPaths p)\<rparr>))"

definition pool_run :: "('t, 'r) pool_env \<Rightarrow> jstr \<Rightarrow> 't \<Rightarrow> (pool_error, 'r, pool) comp" where
  "pool_run env path task p = (case assertAccepting env p of
     Some e \<Rightarrow> (Inl e, p)
   | None \<Rightarrow> andThen (assertWorkerPath env path p) (\<lambda>_ p'.
       (case runTask env task of
          Finished r \<Rightarrow> Inr r
        | Threw \<Rightarrow> Inl TaskFailed
        | Aborted \<Rightarrow> Inl TaskTimeout, p')))"

definition onApplicationShutdown :: "pool \<Rightarrow> pool" where
  "onApplicationShutdown p = p\<lparr>closing := True\<rparr>"

section \<open>The image worker\<close>

record image_profile =
  acceptedFormats :: "string list"
  minShortestSide :: nat
  limitInputPixels :: nat
  pr_width :: nat
  pr_height :: nat
  pr_quality :: nat
  maxPages :: nat

definition avatar_profile :: image_profile where
  "avatar_profile = \<lparr>acceptedFormats = [''jpeg'', ''png'', ''webp''], minShortestSide = 256,
     limitInputPixels = 16000000, pr_width = 512, pr_height = 512, pr_quality = 82, maxPages = 1\<rparr>"

datatype image_error =
  INVALID_IMAGE | UNSUPPORTED_IMAGE_FORMAT | MULTI_FRAME_IMAGE | IMAGE_TOO_SMALL
  | IMAGE_PIXEL_LIMIT_EXCEEDED

record metadata =
  md_format :: "string option"
  md_pages :: "nat option"
  md_oriented :: "(nat option \<times> nat option) option"

record processed_image =
  pi_data :: "nat list"
  pi_format :: jstr
  pi_mimeType :: jstr
  pi_extension :: jstr
  pi_width :: nat
  pi_height :: nat
  pi_size :: nat

text \<open>\<open>metadata()\<close> throws with the pixel limit's message or with another; \<open>render\<close> is the transform.\<close>

datatype metadata_result = Metadata metadata | PixelLimit | Unreadable

record sharp =
  sh_metadata :: "nat list \<Rightarrow> image_profile \<Rightarrow> metadata_result"
  sh_render :: "nat list \<Rightarrow> image_profile \<Rightarrow> (nat list \<times> nat \<times> nat \<times> nat) option"

definition readMetadata :: "sharp \<Rightarrow> nat list \<Rightarrow> image_profile \<Rightarrow> image_error + metadata" where
  "readMetadata sh input profile = (case sh_metadata sh input profile of
     Metadata m \<Rightarrow> Inr m
   | PixelLimit \<Rightarrow> Inl IMAGE_PIXEL_LIMIT_EXCEEDED
   | Unreadable \<Rightarrow> Inl INVALID_IMAGE)"

definition validateMetadata :: "metadata \<Rightarrow> image_profile \<Rightarrow> image_error option" where
  "validateMetadata m profile =
     (if (case md_format m of None \<Rightarrow> True | Some f \<Rightarrow> f = [] \<or> f \<notin> set (acceptedFormats profile))
      then Some UNSUPPORTED_IMAGE_FORMAT
      else if (case md_pages m of None \<Rightarrow> 1 | Some n \<Rightarrow> n) > maxPages profile then Some MULTI_FRAME_IMAGE
      else
        (case md_oriented m of
           Some (Some width, Some height) \<Rightarrow>
             if width = 0 \<or> height = 0 then Some INVALID_IMAGE
             else if width * height > limitInputPixels profile then Some IMAGE_PIXEL_LIMIT_EXCEEDED
             else if min width height < minShortestSide profile then Some IMAGE_TOO_SMALL
             else None
         | _ \<Rightarrow> Some INVALID_IMAGE))"

definition moveWorkerSuccess :: "nat list \<Rightarrow> nat \<Rightarrow> nat \<Rightarrow> nat \<Rightarrow> processed_image" where
  "moveWorkerSuccess data width height bytes = \<lparr>pi_data = data, pi_format = js ''webp'',
     pi_mimeType = js ''image/webp'', pi_extension = js ''webp'', pi_width = width,
     pi_height = height, pi_size = bytes\<rparr>"

definition processImageTask :: "sharp \<Rightarrow> nat list \<times> image_profile \<Rightarrow> image_error + processed_image" where
  "processImageTask sh task = (case task of (img, profile) \<Rightarrow>
     (case readMetadata sh img profile of
        Inl e \<Rightarrow> Inl e
      | Inr m \<Rightarrow>
          (case validateMetadata m profile of
             Some e \<Rightarrow> Inl e
           | None \<Rightarrow>
               (case sh_render sh img profile of
                  None \<Rightarrow> Inl INVALID_IMAGE
                | Some (data, width, height, bytes) \<Rightarrow> Inr (moveWorkerSuccess data width height bytes)))))"

section \<open>ImageProcessingService\<close>

definition invalid_image :: thrown where
  "invalid_image = UnprocessableEntityException (Text (js ''Invalid avatar image''))"

definition processing_unavailable :: thrown where
  "processing_unavailable = ServiceUnavailableException (Text (js ''Image processing unavailable''))"

definition profile_of :: "string \<Rightarrow> image_profile option" where
  "profile_of nm = (if nm = ''avatar'' then Some avatar_profile else None)"

type_synonym image_env = "(nat list \<times> image_profile, image_error + processed_image) pool_env"

definition process_image ::
    "image_env \<Rightarrow> jstr \<Rightarrow> nat list \<Rightarrow> string \<Rightarrow> (thrown, processed_image, pool) comp" where
  "process_image env workerPath input profileName p = (case profile_of profileName of
     None \<Rightarrow> (Inl (JsError (js ''Unknown image processing profile: '' @ js profileName)), p)
   | Some profile \<Rightarrow>
       (case pool_run env workerPath (input, profile) p of
          (Inl _, p') \<Rightarrow> (Inl processing_unavailable, p')
        | (Inr (Inl _), p') \<Rightarrow> (Inl invalid_image, p')
        | (Inr (Inr img), p') \<Rightarrow> (Inr img, p')))"

section \<open>Properties\<close>

text \<open>The avatar profile accepts exactly the readable single-frame JPEG, PNG and WebP images whose
  oriented sides are at least 256 pixels and whose area is at most 16 megapixels; everything else is
  refused before the transform runs.\<close>

theorem avatar_accepts_exactly:
  "validateMetadata m avatar_profile = None \<longleftrightarrow>
     (\<exists>f w h. md_format m = Some f \<and> f \<in> {''jpeg'', ''png'', ''webp''}
        \<and> (md_pages m = None \<or> md_pages m = Some 0 \<or> md_pages m = Some 1)
        \<and> md_oriented m = Some (Some w, Some h)
        \<and> 256 \<le> w \<and> 256 \<le> h \<and> w * h \<le> 16000000)"
  by (auto simp: validateMetadata_def avatar_profile_def le_Suc_eq split: option.splits prod.splits if_splits)

lemma processImageTask_Inr:
  assumes "processImageTask sh (input, profile) = Inr img"
  shows "pi_mimeType img = js ''image/webp'' \<and> pi_extension img = js ''webp''
      \<and> (\<exists>m. sh_metadata sh input profile = Metadata m \<and> validateMetadata m profile = None)"
  using assms
  by (auto simp: processImageTask_def readMetadata_def moveWorkerSuccess_def
      split: sum.splits option.splits metadata_result.splits prod.splits)

text \<open>Whatever the pool, the worker and sharp do, processing an upload answers in one of three ways:
  a WebP image that the worker produced from input its profile accepts, a 422 with a fixed text, or a
  503 with a fixed text; in particular nothing of a decoder's message reaches the client, and a
  closed or full pool is always the 503.\<close>

theorem process_image_outcomes:
  assumes "\<forall>task r. runTask env task = Finished r \<longrightarrow> r = processImageTask sh task"
  shows "(case fst (process_image env path input ''avatar'' p) of
       Inl e \<Rightarrow> e = invalid_image \<or> e = processing_unavailable
     | Inr img \<Rightarrow> pi_mimeType img = js ''image/webp'' \<and> pi_extension img = js ''webp''
         \<and> (\<exists>m. sh_metadata sh input avatar_profile = Metadata m
              \<and> validateMetadata m avatar_profile = None))
     \<and> (closing p \<or> maxQueue p \<le> queueSize env \<longrightarrow>
          process_image env path input ''avatar'' p = (Inl processing_unavailable, p))"
proof
  show "closing p \<or> maxQueue p \<le> queueSize env \<longrightarrow>
      process_image env path input ''avatar'' p = (Inl processing_unavailable, p)"
    by (auto simp: process_image_def profile_of_def pool_run_def assertAccepting_def)
  have img: "pi_mimeType img = js ''image/webp'' \<and> pi_extension img = js ''webp''
      \<and> (\<exists>m. sh_metadata sh input avatar_profile = Metadata m \<and> validateMetadata m avatar_profile = None)"
    if "runTask env (input, avatar_profile) = Finished (Inr img)" for img
    using processImageTask_Inr [of sh input avatar_profile img] assms that by metis
  show "case fst (process_image env path input ''avatar'' p) of
       Inl e \<Rightarrow> e = invalid_image \<or> e = processing_unavailable
     | Inr img \<Rightarrow> pi_mimeType img = js ''image/webp'' \<and> pi_extension img = js ''webp''
         \<and> (\<exists>m. sh_metadata sh input avatar_profile = Metadata m
              \<and> validateMetadata m avatar_profile = None)"
  proof (cases "fst (process_image env path input ''avatar'' p)")
    case (Inl e)
    then show ?thesis
      by (auto simp: process_image_def profile_of_def split: prod.splits sum.splits)
  next
    case (Inr x)
    then have "runTask env (input, avatar_profile) = Finished (Inr x)"
      by (auto simp: process_image_def profile_of_def pool_run_def andThen_def
          split: prod.splits sum.splits option.splits task_outcome.splits)
    then show ?thesis using img Inr by simp
  qed
qed

definition demo_sharp :: sharp where
  "demo_sharp = \<lparr>sh_metadata = (\<lambda>_ _. Metadata \<lparr>md_format = Some ''png'', md_pages = None,
       md_oriented = Some (Some 300, Some 300)\<rparr>),
     sh_render = (\<lambda>_ _. Some ([1, 2], 512, 512, 2))\<rparr>"

definition demo_image_env :: image_env where
  "demo_image_env = \<lparr>queueSize = 0, isAbsolute = (\<lambda>_. True), existsSync = (\<lambda>_. True),
     runTask = (\<lambda>task. Finished (processImageTask demo_sharp task))\<rparr>"

theorem process_image_outcomes_witness:
  "process_image demo_image_env (js ''/w'') [9] ''avatar'' (onApplicationShutdown (new_pool 4)) =
     (Inl processing_unavailable, onApplicationShutdown (new_pool 4))
   \<and> is_ok (fst (process_image demo_image_env (js ''/w'') [9] ''avatar'' (new_pool 4)))"
  using process_image_outcomes [of demo_image_env demo_sharp "js ''/w''" "[9]"
      "onApplicationShutdown (new_pool 4)"]
  by (simp add: demo_image_env_def onApplicationShutdown_def process_image_def profile_of_def
      pool_run_def assertAccepting_def new_pool_def Let_def MIN_THREADS_def MAX_THREADS_CAP_def
      QUEUE_MULTIPLIER_def assertWorkerPath_def processImageTask_def readMetadata_def demo_sharp_def
      validateMetadata_def avatar_profile_def)

end
