(* ===== verification/Users.thy ===== *)
theory Users
  imports Account FileStorage Images
begin

text \<open>
  The user's own profile (\<open>src/users\<close>): the repository, the service and the replacement of an avatar,
  which spans the worker pool, the bucket and the database. The \<open>FOR UPDATE\<close> lock makes reading the old
  key and writing the new one one step; what other requests do before that step is an argument.
\<close>

section \<open>UsersRepository\<close>

record user_row =
  ur_email :: jstr
  ur_username :: jstr
  ur_bio :: "jstr option"
  ur_image :: "jstr option"

text \<open>An absent property is \<open>None\<close>; a property set to null is \<open>Some None\<close>.\<close>

record user_update =
  uu_username :: "jstr option"
  uu_bio :: "jstr option option"
  uu_image :: "jstr option option"

definition public_row :: "user \<Rightarrow> user_row" where
  "public_row u = \<lparr>ur_email = u_email u, ur_username = u_username u, ur_bio = u_bio u, ur_image = u_image u\<rparr>"

text \<open>\<open>publicUserSelect\<close> also selects the id: \<open>findById\<close> returns it beside the row.\<close>

definition findById :: "nat \<Rightarrow> db \<Rightarrow> (nat \<times> user_row) option" where
  "findById i d = map_option (\<lambda>u. (u_id u, public_row u)) (find_user i d)"

definition apply_update :: "user_update \<Rightarrow> user \<Rightarrow> user" where
  "apply_update data u = u\<lparr>
     u_username := (case uu_username data of Some n \<Rightarrow> n | None \<Rightarrow> u_username u),
     u_bio := (case uu_bio data of Some b \<Rightarrow> b | None \<Rightarrow> u_bio u),
     u_image := (case uu_image data of Some i \<Rightarrow> i | None \<Rightarrow> u_image u)\<rparr>"

definition update_user :: "nat \<Rightarrow> user_update \<Rightarrow> (thrown, user_row, db) comp" where
  "update_user i data d = (case find_user i d of
     None \<Rightarrow> (Inl record_not_found, d)
   | Some u \<Rightarrow>
       if list_ex (\<lambda>v. u_id v \<noteq> i \<and> Some (u_username v) = uu_username data) (users d)
       then (Inl (unique_violation [''username'']), d)
       else (Inr (public_row (apply_update data u)),
             d\<lparr>users := upd_where (\<lambda>v. u_id v = i) (apply_update data) (users d)\<rparr>))"

definition lockImage :: "nat \<Rightarrow> db \<Rightarrow> jstr option" where
  "lockImage i d = (case find_user i d of None \<Rightarrow> None | Some u \<Rightarrow> u_image u)"

definition findByUsernameExcluding :: "jstr \<Rightarrow> nat \<Rightarrow> db \<Rightarrow> nat option" where
  "findByUsernameExcluding un i d =
     map_option u_id (find (\<lambda>u. u_username u = un \<and> u_id u \<noteq> i) (users d))"

definition findFollowersByAuthorId :: "nat \<Rightarrow> db \<Rightarrow> (nat \<times> jstr \<times> jstr) list" where
  "findFollowersByAuthorId author d =
     map (\<lambda>u. (u_id u, u_email u, u_username u))
       (filter (\<lambda>u. (u_id u, author) \<in> set (userFollows d)) (users d))"

section \<open>AvatarReplacementService\<close>

record media =
  me_db :: db
  me_bucket :: bucket
  me_pool :: pool

record media_env =
  env_images :: image_env
  env_workerPath :: jstr
  env_s3 :: s3_env
  env_unicode :: unicode

definition atomicUpdateAvatar ::
    "nat \<Rightarrow> user_update \<Rightarrow> jstr option \<Rightarrow> (thrown, user_row \<times> jstr option, db) comp" where
  "atomicUpdateAvatar uid data newImage d =
     (let previous = lockImage uid d
      in case update_user uid (data\<lparr>uu_image := Some newImage\<rparr>) d of
           (Inl e, d') \<Rightarrow> (Inl e, rollback d d')
         | (Inr row, d') \<Rightarrow> (Inr (row, previous), d'))"

definition cleanupFailedUpload :: "s3_env \<Rightarrow> jstr \<Rightarrow> bucket \<Rightarrow> bucket" where
  "cleanupFailedUpload env key b = snd (delete_file env key b)"

definition cleanupPreviousAvatar :: "s3_env \<Rightarrow> jstr option \<Rightarrow> bucket \<Rightarrow> bucket" where
  "cleanupPreviousAvatar env previous b =
     (case previous of None \<Rightarrow> b | Some key \<Rightarrow> snd (delete_file env key b))"

definition avatar_folder :: "nat \<Rightarrow> jstr" where
  "avatar_folder uid = js ''avatars/'' @ show_nat uid"

definition replace_avatar ::
    "media_env \<Rightarrow> jstr \<Rightarrow> (db \<Rightarrow> db) \<Rightarrow> nat \<Rightarrow> user_update \<Rightarrow> nat list \<Rightarrow> (thrown, user_row, media) comp" where
  "replace_avatar env uuid interfere uid data file s =
     (case process_image (env_images env) (env_workerPath env) file ''avatar'' (me_pool s) of
        (Inl e, p) \<Rightarrow> (Inl e, s\<lparr>me_pool := p\<rparr>)
      | (Inr img, p) \<Rightarrow>
          (case buildStorageKey (env_unicode env) (avatar_folder uid) (pi_extension img) uuid of
             Inl e \<Rightarrow> (Inl e, s\<lparr>me_pool := p\<rparr>)
           | Inr key \<Rightarrow>
               (case upload (env_s3 env) key (pi_data img) (pi_mimeType img) (me_bucket s) of
                  (Inl e, b) \<Rightarrow> (Inl e, s\<lparr>me_pool := p, me_bucket := b\<rparr>)
                | (Inr _, b) \<Rightarrow>
                    (case atomicUpdateAvatar uid data (Some key) (interfere (me_db s)) of
                       (Inl e, d) \<Rightarrow>
                         (Inl e, \<lparr>me_db = d, me_bucket = cleanupFailedUpload (env_s3 env) key b, me_pool = p\<rparr>)
                     | (Inr (row, previous), d) \<Rightarrow>
                         (Inr row, \<lparr>me_db = d,
                            me_bucket = cleanupPreviousAvatar (env_s3 env) previous b, me_pool = p\<rparr>)))))"

definition clear_avatar ::
    "media_env \<Rightarrow> (db \<Rightarrow> db) \<Rightarrow> nat \<Rightarrow> user_update \<Rightarrow> (thrown, user_row, media) comp" where
  "clear_avatar env interfere uid data s =
     (case atomicUpdateAvatar uid data None (interfere (me_db s)) of
        (Inl e, d) \<Rightarrow> (Inl e, s\<lparr>me_db := d\<rparr>)
      | (Inr (row, previous), d) \<Rightarrow>
          (Inr row, s\<lparr>me_db := d, me_bucket := cleanupPreviousAvatar (env_s3 env) previous (me_bucket s)\<rparr>))"

section \<open>UsersService\<close>

definition user_response :: "s3_env \<Rightarrow> user_row \<Rightarrow> user_row" where
  "user_response env row = row\<lparr>ur_image := publicUrl env (ur_image row)\<rparr>"

definition getCurrentUser :: "s3_env \<Rightarrow> nat \<Rightarrow> db \<Rightarrow> thrown + user_row" where
  "getCurrentUser env uid d = (case findById uid d of
     None \<Rightarrow> Inl (NotFoundException (I18n ''common.error.userNotFound''))
   | Some (i, row) \<Rightarrow> Inr (user_response env row))"

definition updateUser ::
    "media_env \<Rightarrow> jstr \<Rightarrow> (nat \<Rightarrow> db \<Rightarrow> db) \<Rightarrow> nat \<Rightarrow> user_update \<Rightarrow> nat list option \<Rightarrow>
     (thrown, user_row, media) comp" where
  "updateUser env uuid sched uid dto file s =
     (let d0 = sched 0 (me_db s); s0 = s\<lparr>me_db := d0\<rparr>;
          taken = (case uu_username dto of
             Some un \<Rightarrow> un \<noteq> [] \<and> findByUsernameExcluding un uid d0 \<noteq> None
           | None \<Rightarrow> False)
      in if taken then (Inl (ConflictException (I18n ''common.error.usernameInUse'')), s0)
         else andThen
           (case file of
              Some f \<Rightarrow> replace_avatar env uuid (sched 1) uid dto f s0
            | None \<Rightarrow>
                if uu_image dto = Some None then clear_avatar env (sched 1) uid dto s0
                else (case update_user uid dto (sched 1 d0) of (r, d) \<Rightarrow> (r, s0\<lparr>me_db := d\<rparr>)))
           (\<lambda>row s'. (Inr (user_response (env_s3 env) row), s')))"

definition ALLOWED_AVATAR_MIME_TYPES :: "string list" where
  "ALLOWED_AVATAR_MIME_TYPES = [''image/jpeg'', ''image/png'', ''image/webp'']"

definition avatarFileFilter :: "string \<Rightarrow> thrown + bool" where
  "avatarFileFilter mimetype =
     (if mimetype \<in> set ALLOWED_AVATAR_MIME_TYPES then Inr True
      else Inl (BadRequestException (Text (js ''Unsupported file type''))))"

section \<open>Lemmas\<close>

lemma apply_update_simps [simp]:
  "u_id (apply_update data u) = u_id u" "u_email (apply_update data u) = u_email u"
  "u_password (apply_update data u) = u_password u"
  by (simp_all add: apply_update_def)

lemma update_user_Inr:
  assumes "update_user i data d = (Inr row, d')"
  obtains u where "find_user i d = Some u" "row = public_row (apply_update data u)"
    "d' = d\<lparr>users := upd_where (\<lambda>v. u_id v = i) (apply_update data) (users d)\<rparr>"
    "\<forall>v \<in> set (users d). u_id v \<noteq> i \<longrightarrow> Some (u_username v) \<noteq> uu_username data"
  using assms by (auto simp: update_user_def list_ex_iff split: option.splits if_splits)

lemma update_user_Inl: "update_user i data d = (Inl e, d') \<Longrightarrow> d' = d"
  by (auto simp: update_user_def split: option.splits if_splits)

lemma db_ok_update_user [keeps]:
  assumes "update_user i data d = (r, d')" and ok: "db_ok d"
  shows "db_ok d'"
proof (cases r)
  case (Inl e)
  then show ?thesis using assms update_user_Inl by blast
next
  case (Inr row)
  let ?us = "upd_where (\<lambda>v. u_id v = i) (apply_update data) (users d)"
  obtain u where u: "find_user i d = Some u" and d': "d' = d\<lparr>users := ?us\<rparr>"
    and free: "\<forall>v \<in> set (users d). u_id v \<noteq> i \<longrightarrow> Some (u_username v) \<noteq> uu_username data"
    using assms(1) Inr by (metis update_user_Inr)
  have us: "uniq u_id (users d)" "uniq u_email (users d)" "uniq u_username (users d)"
      "\<forall>v \<in> set (users d). u_id v < seqs d MUser"
    using db_okD(1) [OF ok] by (simp_all add: users_ok_def)
  have "uniq u_username ?us"
  proof (cases "uu_username data")
    case None
    then show ?thesis using us(3) by (subst uniq_upd) (simp_all add: apply_update_def)
  next
    case (Some un)
    show ?thesis
      by (rule uniq_upd_one [OF us(1,3), of i un]) (use Some free in \<open>auto simp: apply_update_def\<close>)
  qed
  moreover have "\<forall>v \<in> set ?us. u_id v < seqs d MUser"
    using us(4) by (auto simp: set_upd_where)
  ultimately have "users_ok (d\<lparr>users := ?us\<rparr>)"
    using us(1,2) by (simp add: users_ok_def uniq_upd)
  then show ?thesis
    unfolding d' by (intro db_ok_put_users [OF ok]) (simp_all add: map_key_upd_where)
qed

lemma atomicUpdateAvatar_cases:
  assumes "atomicUpdateAvatar uid data im d = (r, d')"
  obtains (failed) e where "r = Inl e" "d' = d"
  | (changed) u where "find_user uid d = Some u"
      "r = Inr (public_row (apply_update (data\<lparr>uu_image := Some im\<rparr>) u), u_image u)"
      "d' = d\<lparr>users := upd_where (\<lambda>v. u_id v = uid) (apply_update (data\<lparr>uu_image := Some im\<rparr>)) (users d)\<rparr>"
      "update_user uid (data\<lparr>uu_image := Some im\<rparr>) d =
         (Inr (public_row (apply_update (data\<lparr>uu_image := Some im\<rparr>) u)), d')"
proof (cases "update_user uid (data\<lparr>uu_image := Some im\<rparr>) d")
  case (Pair r1 d1)
  show ?thesis
  proof (cases r1)
    case (Inl e)
    then have "d1 = d" using Pair update_user_Inl by blast
    with Inl Pair show ?thesis
      using assms failed by (auto simp: atomicUpdateAvatar_def rollback_def)
  next
    case (Inr row)
    then obtain u where "find_user uid d = Some u"
        "row = public_row (apply_update (data\<lparr>uu_image := Some im\<rparr>) u)"
        "d1 = d\<lparr>users := upd_where (\<lambda>v. u_id v = uid) (apply_update (data\<lparr>uu_image := Some im\<rparr>)) (users d)\<rparr>"
      using Pair by (metis update_user_Inr)
    with Inr Pair show ?thesis
      using assms changed by (simp add: atomicUpdateAvatar_def lockImage_def)
  qed
qed

section \<open>Concurrent avatar changes\<close>

text \<open>
  The parts of several replacements, clearings and profile updates in any order: an upload, the
  transaction that commits its key or fails, the deletion of a key that lost its row. A state adds to
  the database and the bucket the keys that are uploaded but not committed and the keys waiting to be
  deleted. \<open>randomUUID\<close> never returns a key that is in any of them.
\<close>

record avatars =
  as_db :: db
  as_bucket :: bucket
  as_inflight :: "jstr set"
  as_doomed :: "jstr set"

definition images_of :: "db \<Rightarrow> jstr set" where
  "images_of d = {k. \<exists>u \<in> set (users d). u_image u = Some k}"

definition known_keys :: "avatars \<Rightarrow> jstr set" where
  "known_keys s = images_of (as_db s) \<union> dom (as_bucket s) \<union> as_inflight s \<union> as_doomed s"

inductive avatar_step :: "avatars \<Rightarrow> avatars \<Rightarrow> bool" where
  uploaded: "key \<notin> known_keys s \<Longrightarrow> upload env key data mime (as_bucket s) = (Inr key, b) \<Longrightarrow>
     avatar_step s (s\<lparr>as_bucket := b, as_inflight := insert key (as_inflight s)\<rparr>)"
| upload_refused: "key \<notin> known_keys s \<Longrightarrow> upload env key data mime (as_bucket s) = (Inl e, b) \<Longrightarrow>
     avatar_step s (s\<lparr>as_bucket := b\<rparr>)"
| committed: "key \<in> as_inflight s \<Longrightarrow>
     atomicUpdateAvatar uid data (Some key) (as_db s) = (Inr (row, previous), d) \<Longrightarrow>
     avatar_step s (s\<lparr>as_db := d, as_inflight := as_inflight s - {key},
       as_doomed := as_doomed s \<union> set_option previous\<rparr>)"
| rolled_back: "key \<in> as_inflight s \<Longrightarrow>
     atomicUpdateAvatar uid data (Some key) (as_db s) = (Inl e, d) \<Longrightarrow>
     avatar_step s (s\<lparr>as_db := d, as_inflight := as_inflight s - {key},
       as_doomed := insert key (as_doomed s)\<rparr>)"
| cleared: "atomicUpdateAvatar uid data None (as_db s) = (Inr (row, previous), d) \<Longrightarrow>
     avatar_step s (s\<lparr>as_db := d, as_doomed := as_doomed s \<union> set_option previous\<rparr>)"
| removed: "key \<in> as_doomed s \<Longrightarrow> delete_file env key (as_bucket s) = (r, b) \<Longrightarrow>
     avatar_step s (s\<lparr>as_bucket := b, as_doomed := as_doomed s - {key}\<rparr>)"
| profile_updated: "uu_image data = None \<Longrightarrow> update_user uid data (as_db s) = (r, d) \<Longrightarrow>
     avatar_step s (s\<lparr>as_db := d\<rparr>)"
| user_created: "create_user em un pw bio (as_db s) = (r, d) \<Longrightarrow> avatar_step s (s\<lparr>as_db := d\<rparr>)"

definition images_distinct :: "db \<Rightarrow> bool" where
  "images_distinct d \<longleftrightarrow> (\<forall>u \<in> set (users d). \<forall>v \<in> set (users d).
     u_image u \<noteq> None \<longrightarrow> u_image u = u_image v \<longrightarrow> u_id u = u_id v)"

definition avatars_ok :: "avatars \<Rightarrow> bool" where
  "avatars_ok s \<longleftrightarrow> db_ok (as_db s) \<and> images_distinct (as_db s)
     \<and> images_of (as_db s) \<subseteq> dom (as_bucket s)
     \<and> as_inflight s \<subseteq> dom (as_bucket s)
     \<and> as_inflight s \<inter> images_of (as_db s) = {}
     \<and> as_doomed s \<inter> images_of (as_db s) = {}
     \<and> as_inflight s \<inter> as_doomed s = {}"

lemma images_of_apply:
  assumes "uniq u_id (users d)" and "find_user i d = Some u" and "uu_image data = Some im"
    and "images_distinct d"
  shows "images_of (d\<lparr>users := upd_where (\<lambda>v. u_id v = i) (apply_update data) (users d)\<rparr>) =
     images_of d - set_option (u_image u) \<union> set_option im"
proof -
  have u: "u \<in> set (users d)" "u_id u = i"
    using assms(2) find_SomeD by (fastforce simp: find_user_def)+
  have same: "v \<in> set (users d) \<Longrightarrow> u_id v = i \<Longrightarrow> v = u" for v
    using uniqD [OF assms(1)] u by metis
  have other: "v \<in> set (users d) \<Longrightarrow> u_id v \<noteq> i \<Longrightarrow> u_image v = Some k \<Longrightarrow> u_image u \<noteq> Some k" for v k
    using assms(4) u unfolding images_distinct_def by (metis option.distinct(1))
  have kept: "(\<exists>v \<in> set (users d). u_id v \<noteq> i \<and> u_image v = Some k) \<longleftrightarrow>
      k \<in> images_of d - set_option (u_image u)" for k
    unfolding images_of_def using same [THEN arg_cong, of _ u_image] other by fastforce
  have "k \<in> images_of (d\<lparr>users := upd_where (\<lambda>v. u_id v = i) (apply_update data) (users d)\<rparr>) \<longleftrightarrow>
      (\<exists>v \<in> set (users d). u_id v \<noteq> i \<and> u_image v = Some k) \<or> im = Some k" for k
  proof -
    have "u_image (apply_update data v) = im" for v
      using assms(3) by (simp add: apply_update_def)
    then have "(\<exists>v \<in> set (users d). u_image (if u_id v = i then apply_update data v else v) = Some k)
        \<longleftrightarrow> (\<exists>v \<in> set (users d). u_id v \<noteq> i \<and> u_image v = Some k) \<or> im = Some k"
      using u by (auto split: if_splits)
    then show ?thesis by (simp add: images_of_def set_upd_where del: if_image_distrib)
  qed
  then show ?thesis unfolding kept by auto
qed

lemma images_distinct_apply:
  assumes "images_distinct d" and "uu_image data = Some im"
    and "\<forall>v \<in> set (users d). u_id v \<noteq> i \<longrightarrow> im \<noteq> None \<longrightarrow> u_image v \<noteq> im"
  shows "images_distinct (d\<lparr>users := upd_where (\<lambda>v. u_id v = i) (apply_update data) (users d)\<rparr>)"
proof -
  let ?g = "\<lambda>v. if u_id v = i then apply_update data v else v"
  have img: "u_image (apply_update data v) = im" for v
    using assms(2) by (simp add: apply_update_def)
  have "u_id (?g v) = u_id (?g w)"
    if "v \<in> set (users d)" "w \<in> set (users d)" "u_image (?g v) \<noteq> None" "u_image (?g v) = u_image (?g w)"
    for v w
  proof (cases "u_id v = i")
    case True
    then have "im \<noteq> None" "u_image (?g w) = im" using that(3,4) img by simp_all
    then show ?thesis using True assms(3) that(2) by (cases "u_id w = i") auto
  next
    case False
    then have v: "u_image v \<noteq> None" "u_image (?g w) = u_image v" using that(3,4) by simp_all
    show ?thesis
    proof (cases "u_id w = i")
      case True
      then have "u_image v = im" using v(2) img by simp
      with v(1) False that(1) assms(3) show ?thesis by metis
    next
      case w: False
      then have "u_image v = u_image w" using v(2) by simp
      with v(1) that(1,2) assms(1) False w show ?thesis
        unfolding images_distinct_def by (metis (full_types))
    qed
  qed
  then show ?thesis
    unfolding images_distinct_def
    by (simp add: set_upd_where del: if_image_distrib split del: if_split) metis
qed

lemma images_same_users: "users d' = users d \<Longrightarrow> images_of d' = images_of d"
  by (simp add: images_of_def)

lemma images_profile:
  assumes "uu_image data = None"
  shows "images_of (d\<lparr>users := upd_where P (apply_update data) (users d)\<rparr>) = images_of d"
    and "images_distinct (d\<lparr>users := upd_where P (apply_update data) (users d)\<rparr>) = images_distinct d"
proof -
  have "u_image (if P v then apply_update data v else v) = u_image v" for v
    using assms by (simp add: apply_update_def)
  moreover have "u_id (if P v then apply_update data v else v) = u_id v" for v by simp
  ultimately show "images_of (d\<lparr>users := upd_where P (apply_update data) (users d)\<rparr>) = images_of d"
    "images_distinct (d\<lparr>users := upd_where P (apply_update data) (users d)\<rparr>) = images_distinct d"
    by (simp_all add: images_of_def images_distinct_def set_upd_where del: if_image_distrib)
qed

lemma images_update_user:
  assumes "update_user i data d = (r, d')" and "uu_image data = None"
  shows "images_of d' = images_of d \<and> images_distinct d' = images_distinct d"
proof (cases r)
  case (Inl e)
  then show ?thesis using assms update_user_Inl by blast
next
  case (Inr row)
  then obtain u where "d' = d\<lparr>users := upd_where (\<lambda>v. u_id v = i) (apply_update data) (users d)\<rparr>"
    using assms(1) by (metis update_user_Inr)
  then show ?thesis using images_profile [OF assms(2)] by simp
qed

lemma images_new_user:
  assumes "create_user em un pw bio d = (r, d')"
  shows "images_of d' = images_of d \<and> (images_distinct d \<longrightarrow> images_distinct d')"
  using assms
proof (cases rule: create_user_cases)
  case (ok u)
  then have "users d' = users d @ [u]" "u_image u = None" by simp_all
  then show ?thesis
    by (auto simp only: images_of_def images_distinct_def set_append list.set Un_iff insert_iff
        empty_iff option.distinct)
qed (simp_all add: images_of_def images_distinct_def)

text \<open>The transaction, from the point of view of the keys.\<close>

lemma atomicUpdateAvatar_images:
  assumes ok: "db_ok d" and inj: "images_distinct d" and fresh: "\<forall>k \<in> set_option im. k \<notin> images_of d"
    and run: "atomicUpdateAvatar uid data im d = (Inr (row, previous), d')"
  shows "db_ok d'" and "images_distinct d'" and "set_option previous \<subseteq> images_of d"
    and "images_of d' = images_of d - set_option previous \<union> set_option im"
proof -
  obtain u where changed: "find_user uid d = Some u"
      "(Inr (row, previous) :: thrown + user_row \<times> jstr option) =
         Inr (public_row (apply_update (data\<lparr>uu_image := Some im\<rparr>) u), u_image u)"
      "d' = d\<lparr>users := upd_where (\<lambda>v. u_id v = uid) (apply_update (data\<lparr>uu_image := Some im\<rparr>)) (users d)\<rparr>"
      "update_user uid (data\<lparr>uu_image := Some im\<rparr>) d =
         (Inr (public_row (apply_update (data\<lparr>uu_image := Some im\<rparr>) u)), d')"
    using run by (cases rule: atomicUpdateAvatar_cases) auto
  have p: "previous = u_image u" using changed by simp
  have u: "u \<in> set (users d)" using changed(1) find_SomeD by (fastforce simp: find_user_def)
  show "db_ok d'" using db_ok_update_user [OF changed(4) ok] .
  show "set_option previous \<subseteq> images_of d" using p u by (auto simp: images_of_def)
  have "\<forall>v \<in> set (users d). im \<noteq> None \<longrightarrow> u_image v \<noteq> im"
    using fresh by (auto simp: images_of_def)
  then show "images_distinct d'"
    unfolding changed(3) by (intro images_distinct_apply [OF inj]) auto
  show "images_of d' = images_of d - set_option previous \<union> set_option im"
    using images_of_apply [OF _ changed(1) _ inj] db_okD(1) [OF ok]
    unfolding changed(3) p by (simp add: users_ok_def)
qed

lemma avatar_step_ok:
  assumes "avatar_step s s'" and "avatars_ok s"
  shows "avatars_ok s'"
  using assms
proof (induction rule: avatar_step.induct)
  case (uploaded key s env data mime b)
  obtain r' obj where put: "driver_put env key obj (as_bucket s) = (r', b)"
    using upload_driver [OF uploaded(2)] by blast
  have "dom (as_bucket s) \<subseteq> dom b"
    using s3.put_keeps [OF put] by blast
  then have "as_inflight s \<subseteq> dom b" "images_of (as_db s) \<subseteq> dom b"
    using uploaded(3) unfolding avatars_ok_def by (meson order_trans)+
  moreover have "key \<in> dom b"
    using uploaded(2) by (fastforce simp: upload_def dest: s3.put_ok split: prod.splits sum.splits)
  ultimately show ?case
    using uploaded(1,3) by (auto simp: avatars_ok_def known_keys_def)
next
  case (upload_refused key s env data mime e b)
  obtain r' obj where put: "driver_put env key obj (as_bucket s) = (r', b)"
    using upload_driver [OF upload_refused(2)] by blast
  have "dom (as_bucket s) \<subseteq> dom b"
    using s3.put_keeps [OF put] by blast
  then have "as_inflight s \<subseteq> dom b" "images_of (as_db s) \<subseteq> dom b"
    using upload_refused(3) unfolding avatars_ok_def by (meson order_trans)+
  then show ?case using upload_refused(3) by (simp add: avatars_ok_def)
next
  case (committed key s uid data row previous d)
  have "key \<notin> images_of (as_db s)" using committed(1,3) by (auto simp: avatars_ok_def)
  then show ?case
    using atomicUpdateAvatar_images [OF _ _ _ committed(2)] committed(1,3)
    by (auto simp: avatars_ok_def)
next
  case (rolled_back key s uid data e d)
  have "d = as_db s" using rolled_back(2) by (cases rule: atomicUpdateAvatar_cases) auto
  then show ?case using rolled_back(1,3) by (auto simp: avatars_ok_def)
next
  case (cleared uid data s row previous d)
  then show ?case
    using atomicUpdateAvatar_images [OF _ _ _ cleared(1)] by (auto simp: avatars_ok_def)
next
  case (removed key s env r b)
  obtain r' where del: "driver_delete env key (as_bucket s) = (r', b)"
    using delete_driver [OF removed(2)] by blast
  have "j \<noteq> key \<Longrightarrow> j \<in> dom (as_bucket s) \<Longrightarrow> j \<in> dom b" for j
    using s3.delete_keeps [OF del, of j] by blast
  moreover have "key \<notin> as_inflight s" "key \<notin> images_of (as_db s)"
    using removed(1,3) by (auto simp: avatars_ok_def)
  ultimately have "as_inflight s \<subseteq> dom b" "images_of (as_db s) \<subseteq> dom b"
    using removed(3) unfolding avatars_ok_def by (metis subset_iff)+
  then show ?case using removed(3) by (auto simp: avatars_ok_def)
next
  case (profile_updated data uid s r d)
  then show ?case
    using images_update_user [OF profile_updated(2,1)] db_ok_update_user [OF profile_updated(2)]
    by (simp add: avatars_ok_def)
next
  case (user_created em un pw bio s r d)
  then show ?case
    using images_new_user [OF user_created(1)] db_ok_create_user [OF user_created(1)]
    by (simp add: avatars_ok_def)
qed


definition demo_s3 :: s3_env where
  "demo_s3 = \<lparr>s3_put = (\<lambda>_. Done), s3_delete = (\<lambda>_. Done), s3_publicUrl = js ''http://s3/''\<rparr>"

definition demo_avatars :: avatars where
  "demo_avatars = \<lparr>as_db = demo_db, as_bucket = Map.empty, as_inflight = {}, as_doomed = {}\<rparr>"

lemma demo_avatars_ok: "avatars_ok demo_avatars"
  by (simp add: avatars_ok_def demo_avatars_def demo_db_ok)
    (simp add: images_distinct_def images_of_def demo_db_def demo_user_def empty_db_def)


abbreviation settled :: "db \<Rightarrow> bucket \<Rightarrow> avatars" where
  "settled d b \<equiv> \<lparr>as_db = d, as_bucket = b, as_inflight = {}, as_doomed = {}\<rparr>"

lemma commit_steps:
  assumes tx: "atomicUpdateAvatar uid data (Some key) d0 = (r, d)"
  shows "avatar_step\<^sup>*\<^sup>* ((settled d0 b)\<lparr>as_inflight := {key}\<rparr>)
    (settled d (case r of Inl _ \<Rightarrow> cleanupFailedUpload env key b
                        | Inr (_, previous) \<Rightarrow> cleanupPreviousAvatar env previous b))"
proof (cases r)
  case (Inl e)
  have "avatar_step ((settled d0 b)\<lparr>as_inflight := {key}\<rparr>) ((settled d b)\<lparr>as_doomed := {key}\<rparr>)"
    using avatar_step.rolled_back [of key "(settled d0 b)\<lparr>as_inflight := {key}\<rparr>" uid data e d] tx Inl
    by simp
  moreover have "avatar_step ((settled d b)\<lparr>as_doomed := {key}\<rparr>) (settled d (cleanupFailedUpload env key b))"
    using avatar_step.removed [of key "(settled d b)\<lparr>as_doomed := {key}\<rparr>" env]
    by (simp add: cleanupFailedUpload_def prod_eq_iff)
  ultimately show ?thesis using Inl by simp
next
  case (Inr x)
  obtain row previous where x: "x = (row, previous)" by fastforce
  have two: "avatar_step ((settled d0 b)\<lparr>as_inflight := {key}\<rparr>) ((settled d b)\<lparr>as_doomed := set_option previous\<rparr>)"
    using avatar_step.committed [of key "(settled d0 b)\<lparr>as_inflight := {key}\<rparr>" uid data row previous d]
      tx Inr x by simp
  have "avatar_step\<^sup>*\<^sup>* ((settled d b)\<lparr>as_doomed := set_option previous\<rparr>)
      (settled d (cleanupPreviousAvatar env previous b))"
  proof (cases previous)
    case (Some old)
    then show ?thesis
      using avatar_step.removed [of old "(settled d b)\<lparr>as_doomed := {old}\<rparr>" env]
      by (simp add: cleanupPreviousAvatar_def prod_eq_iff r_into_rtranclp)
  qed (simp add: cleanupPreviousAvatar_def)
  with two show ?thesis using Inr x by (simp add: converse_rtranclp_into_rtranclp)
qed

text \<open>How far a replacement got, and what it had done by then.\<close>

lemma replace_avatar_cases:
  assumes "replace_avatar env uuid (\<lambda>d. d) uid data file s = (r, s')"
  obtains (refused) e where "r = Inl e" "me_db s' = me_db s" "me_bucket s' = me_bucket s"
  | (not_uploaded) im :: processed_image and key e e' b where "r = Inl e"
      "buildStorageKey (env_unicode env) (avatar_folder uid) (pi_extension im) uuid = Inr key"
      "upload (env_s3 env) key (pi_data im) (pi_mimeType im) (me_bucket s) = (Inl e', b)"
      "me_db s' = me_db s" "me_bucket s' = b"
  | (uploaded) im :: processed_image and key b rt d where
      "buildStorageKey (env_unicode env) (avatar_folder uid) (pi_extension im) uuid = Inr key"
      "upload (env_s3 env) key (pi_data im) (pi_mimeType im) (me_bucket s) = (Inr key, b)"
      "atomicUpdateAvatar uid data (Some key) (me_db s) = (rt, d)"
      "me_db s' = d"
      "me_bucket s' = (case rt of Inl _ \<Rightarrow> cleanupFailedUpload (env_s3 env) key b
                     | Inr (_, previous) \<Rightarrow> cleanupPreviousAvatar (env_s3 env) previous b)"
      "r = (case rt of Inl e \<Rightarrow> Inl e | Inr (row, _) \<Rightarrow> Inr row)"
proof -
  obtain ri p where img: "process_image (env_images env) (env_workerPath env) file ''avatar'' (me_pool s) = (ri, p)"
    by fastforce
  note run = assms [unfolded replace_avatar_def img]
  show ?thesis
  proof (cases ri)
    case (Inl e)
    then show ?thesis using run by (intro refused [of e]) auto
  next
    case ri: (Inr im)
    show ?thesis
    proof (cases "buildStorageKey (env_unicode env) (avatar_folder uid) (pi_extension im) uuid")
      case (Inl e)
      then show ?thesis using run ri by (intro refused [of e]) auto
    next
      case key: (Inr key)
      obtain ru b where up: "upload (env_s3 env) key (pi_data im) (pi_mimeType im) (me_bucket s) = (ru, b)"
        by fastforce
      show ?thesis
      proof (cases ru)
        case (Inl e)
        then show ?thesis using run ri key up by (intro not_uploaded [of e im key e b]) auto
      next
        case (Inr k)
        then have "k = key" using up by (auto simp: upload_def split: prod.splits sum.splits)
        obtain rt d where tx: "atomicUpdateAvatar uid data (Some key) (me_db s) = (rt, d)" by fastforce
        show ?thesis
          using run ri key up tx Inr \<open>k = key\<close>
          by (intro uploaded [of im key b rt d]) (auto split: sum.splits)
      qed
    qed
  qed
qed


definition demo_media_env :: media_env where
  "demo_media_env = \<lparr>env_images = demo_image_env, env_workerPath = js ''/w'', env_s3 = demo_s3,
     env_unicode = ascii_unicode\<rparr>"

definition demo_media :: media where
  "demo_media = \<lparr>me_db = demo_db, me_bucket = Map.empty, me_pool = new_pool 4\<rparr>"

definition no_update :: user_update where
  "no_update = \<lparr>uu_username = None, uu_bio = None, uu_image = None\<rparr>"

lemma demo_media_fresh: "images_of (me_db demo_media) \<union> dom (me_bucket demo_media) = {}"
  by (simp add: demo_media_def images_of_def demo_db_def demo_user_def empty_db_def)


lemma find_user_upd:
  "find_user j (d\<lparr>users := upd_where (\<lambda>v. u_id v = i) (apply_update data) (users d)\<rparr>) =
     map_option (\<lambda>u. if i = j then apply_update data u else u) (find_user j d)"
  by (simp add: find_user_def find_upd_where)

lemma upload_effect:
  assumes "upload env key data mime b = (r, b')"
  shows "j \<noteq> key \<Longrightarrow> b' j = b j" and "r = Inr x \<Longrightarrow> b' key \<noteq> None"
  using assms by (auto simp: upload_def driver_put_def split: outcome.splits)

lemma delete_effect: "j \<noteq> key \<Longrightarrow> snd (delete_file env key b) j = b j"
  by (auto simp: delete_file_def driver_delete_def split: outcome.splits)

text \<open>C23: A replacement that fails, at whatever stage, leaves the database as it was and every stored
  object untouched; one that succeeds gives the user the new key, whose object is stored, changes no
  other user, and touches no stored object but the one the user had before.\<close>

theorem replace_avatar_all_or_nothing:
  assumes run: "replace_avatar env uuid (\<lambda>d. d) uid data file s = (r, s')"
    and fresh: "\<forall>ext key. buildStorageKey (env_unicode env) (avatar_folder uid) ext uuid = Inr key \<longrightarrow>
           key \<notin> images_of (me_db s) \<union> dom (me_bucket s)"
  shows "case r of
      Inl e \<Rightarrow> me_db s' = me_db s \<and> (\<forall>k \<in> dom (me_bucket s). me_bucket s' k = me_bucket s k)
    | Inr row \<Rightarrow> \<exists>u key. find_user uid (me_db s) = Some u
        \<and> find_user uid (me_db s') = Some (apply_update (data\<lparr>uu_image := Some (Some key)\<rparr>) u)
        \<and> ur_image row = Some key \<and> me_bucket s' key \<noteq> None
        \<and> (\<forall>j. j \<noteq> uid \<longrightarrow> find_user j (me_db s') = find_user j (me_db s))
        \<and> (\<forall>k \<in> dom (me_bucket s). Some k \<noteq> u_image u \<longrightarrow> me_bucket s' k = me_bucket s k)"
  using run
proof (cases rule: replace_avatar_cases)
  case (refused e)
  then show ?thesis by simp
next
  case (not_uploaded im key e e' b)
  then have key: "key \<notin> dom (me_bucket s)" using fresh by blast
  have "\<forall>k \<in> dom (me_bucket s). b k = me_bucket s k"
    by (intro ballI upload_effect(1) [OF not_uploaded(3)]) (use key in auto)
  then show ?thesis using not_uploaded(1,4,5) by simp
next
  case (uploaded im key b rt d)
  have key: "key \<notin> dom (me_bucket s)" "key \<notin> images_of (me_db s)" using fresh uploaded(1) by blast+
  have kept: "\<forall>k \<in> dom (me_bucket s). b k = me_bucket s k"
    by (intro ballI upload_effect(1) [OF uploaded(2)]) (use key(1) in auto)
  from uploaded(3) show ?thesis
  proof (cases rule: atomicUpdateAvatar_cases)
    case (failed e)
    have "me_bucket s' k = b k" if "k \<noteq> key" for k
      using uploaded(5) failed(1) delete_effect [OF that] by (simp add: cleanupFailedUpload_def)
    then have "\<forall>k \<in> dom (me_bucket s). me_bucket s' k = me_bucket s k"
      using kept key(1) by (metis (no_types, lifting))
    then show ?thesis using uploaded(4,6) failed by simp
  next
    case (changed u)
    let ?data = "data\<lparr>uu_image := Some (Some key)\<rparr>"
    have b: "me_bucket s' = cleanupPreviousAvatar (env_s3 env) (u_image u) b"
      using uploaded(5) changed(2) by simp
    have other: "Some j \<noteq> u_image u \<Longrightarrow> me_bucket s' j = b j" for j
      unfolding b cleanupPreviousAvatar_def using delete_effect by (auto split: option.splits)
    have "u_image u \<noteq> Some key"
      using key(2) changed(1) find_SomeD by (fastforce simp: images_of_def find_user_def)
    then have "me_bucket s' key \<noteq> None" using other upload_effect(2) [OF uploaded(2)] by simp
    moreover have "find_user uid (me_db s') = Some (apply_update ?data u)"
        "\<forall>j. j \<noteq> uid \<longrightarrow> find_user j (me_db s') = find_user j (me_db s)"
      unfolding uploaded(4) changed(3) find_user_upd using changed(1)
      by (auto simp: option.map_id [unfolded id_def])
    moreover have "r = Inr (public_row (apply_update ?data u))"
        "ur_image (public_row (apply_update ?data u)) = Some key"
      using uploaded(6) changed(2) by (simp_all add: public_row_def apply_update_def)
    ultimately show ?thesis using changed(1) kept other by auto
  qed
qed

theorem replace_avatar_all_or_nothing_witness:
  "\<exists>row s'. replace_avatar demo_media_env (js ''u1'') (\<lambda>d. d) 1 no_update [9] demo_media = (Inr row, s')
     \<and> (\<exists>key. ur_image row = Some key \<and> me_bucket s' key \<noteq> None)"
proof -
  obtain r s' where run: "replace_avatar demo_media_env (js ''u1'') (\<lambda>d. d) 1 no_update [9] demo_media = (r, s')"
    by fastforce
  have ext: "lower ascii_unicode (dropWhile is_dot (js ''webp'')) = js ''webp''"
      "list_all alnum (js ''webp'')"
    by (simp_all add: ascii_unicode_def ascii_lower_def js_def is_dot_def alnum_def)
  have "is_ok r"
    using run
    by (auto simp: replace_avatar_def demo_media_env_def demo_media_def process_image_def profile_of_def
        pool_run_def assertAccepting_def new_pool_def Let_def MIN_THREADS_def MAX_THREADS_CAP_def
        QUEUE_MULTIPLIER_def assertWorkerPath_def processImageTask_def readMetadata_def demo_sharp_def
        validateMetadata_def avatar_profile_def demo_image_env_def moveWorkerSuccess_def
        buildStorageKey_def ext upload_def driver_put_def demo_s3_def atomicUpdateAvatar_def
        update_user_def find_user_def demo_db_def demo_user_def empty_db_def no_update_def)
  moreover have "\<forall>ext key. buildStorageKey (env_unicode demo_media_env) (avatar_folder 1) ext (js ''u1'') = Inr key \<longrightarrow>
      key \<notin> images_of (me_db demo_media) \<union> dom (me_bucket demo_media)"
    using demo_media_fresh by simp
  ultimately show ?thesis
    using replace_avatar_all_or_nothing [OF run] run by (cases r) auto
qed

end
