(* ===== verification/Pagination.thy ===== *)
theory Pagination
  imports Prelude "HOL-Library.Multiset"
begin

text \<open>
  The pagination extension of the database client (\<open>src/prisma/prisma.extension.ts\<close>).

  \<open>count\<close> and \<open>findMany\<close> are two queries. PostgreSQL returns the matching rows in an order of its
  choosing (\<open>scan\<close>, a permutation that may differ from query to query), sorts them by the requested key
  and cuts out the page; rows with equal keys therefore come in any order. The query DTO keeps page and
  limit at least 1, where \<open>Math.ceil(total / limit)\<close> is the rounded up quotient.
\<close>

definition DEFAULT_PAGE :: nat where "DEFAULT_PAGE = 1"
definition DEFAULT_LIMIT :: nat where "DEFAULT_LIMIT = 10"

record pagination_meta =
  pm_total :: nat
  pm_page :: nat
  pm_last_page :: nat
  pm_limit :: nat
  pm_has_next_page :: bool
  pm_has_prev_page :: bool

definition paginationSkip :: "nat \<Rightarrow> nat \<Rightarrow> nat" where
  "paginationSkip page limit = (page - 1) * limit"

definition ceil_div :: "nat \<Rightarrow> nat \<Rightarrow> nat" where
  "ceil_div a b = (a + b - 1) div b"

definition buildPaginationMeta :: "nat \<Rightarrow> nat \<Rightarrow> nat \<Rightarrow> pagination_meta" where
  "buildPaginationMeta cnt page limit =
     (let last_page = ceil_div cnt limit
      in \<lparr>pm_total = cnt, pm_page = page, pm_last_page = last_page, pm_limit = limit,
          pm_has_next_page = page < last_page, pm_has_prev_page = page > 1\<rparr>)"

definition query_page ::
    "('r list \<Rightarrow> 'r list) \<Rightarrow> ('r \<Rightarrow> 'k::linorder) \<Rightarrow> nat \<Rightarrow> nat \<Rightarrow> 'r list \<Rightarrow> 'r list" where
  "query_page scan key skip n rows = take n (drop skip (sort_key key (scan rows)))"

definition paginate ::
    "('r list \<Rightarrow> 'r list) \<Rightarrow> ('r \<Rightarrow> 'k::linorder) \<Rightarrow> 'r list \<Rightarrow> 'r list \<Rightarrow> nat option \<Rightarrow> nat option \<Rightarrow>
     'r list \<times> pagination_meta" where
  "paginate scan key counted found pageArg limitArg =
     (let page = (case pageArg of Some p \<Rightarrow> p | None \<Rightarrow> DEFAULT_PAGE);
          limit = (case limitArg of Some l \<Rightarrow> l | None \<Rightarrow> DEFAULT_LIMIT)
      in (query_page scan key (paginationSkip page limit) limit found,
          buildPaginationMeta (length counted) page limit))"

section \<open>Lemmas\<close>

definition permutes :: "('r list \<Rightarrow> 'r list) \<Rightarrow> bool" where
  "permutes scan \<longleftrightarrow> (\<forall>rows. mset (scan rows) = mset rows)"

lemma sort_key_unique:
  assumes "mset xs = mset ys" and "inj_on key (set ys)"
  shows "sort_key key xs = sort_key key ys"
proof (rule map_inj_on [of key])
  have "map key (sort_key key xs) = sort (map key xs)" "map key (sort_key key ys) = sort (map key ys)"
    by (metis mset_map mset_sort properties_for_sort sorted_sort_key)+
  moreover have "sort (map key xs) = sort (map key ys)"
    using assms(1) by (metis mset_map mset_sort properties_for_sort sorted_sort)
  ultimately show "map key (sort_key key xs) = map key (sort_key key ys)" by simp
  have "set xs = set ys" using assms(1) by (metis set_mset_mset)
  then show "inj_on key (set (sort_key key xs) \<union> set (sort_key key ys))"
    using assms(2) by simp
qed

lemma concat_pages: "concat (map (\<lambda>p. take l (drop (p * l) xs)) [0..<n]) = take (n * l) xs"
proof (induction n)
  case (Suc n)
  have "take (Suc n * l) xs = take (n * l) xs @ take l (drop (n * l) xs)"
    by (simp only: mult_Suc add.commute [of l] take_add)
  with Suc show ?case by simp
qed simp

lemma ceil_div_bound: "0 < b \<Longrightarrow> a \<le> ceil_div a b * b"
proof -
  assume "0 < b"
  then have "a + b - 1 < ((a + b - 1) div b + 1) * b"
    by (metis Suc_eq_plus1 add.commute div_mult_mod_eq mod_less_divisor mult.commute mult_Suc_right
        nat_add_left_cancel_less)
  then show ?thesis unfolding ceil_div_def by (simp add: algebra_simps)
qed

lemma ceil_div_less: "0 < b \<Longrightarrow> p < ceil_div a b \<longleftrightarrow> p * b < a"
proof -
  assume b: "0 < b"
  have "p < ceil_div a b \<longleftrightarrow> Suc p \<le> (a + b - 1) div b" by (auto simp: ceil_div_def)
  also have "\<dots> \<longleftrightarrow> Suc p * b \<le> a + b - 1" using b by (simp add: less_eq_div_iff_mult_less_eq)
  also have "\<dots> \<longleftrightarrow> p * b < a" using b by auto
  finally show ?thesis .
qed

section \<open>Properties\<close>

text \<open>C26: When no two matching rows share their sort key and nothing changes between the requests, the
  pages 1 to \<open>last_page\<close> put together are the whole result in order, each row exactly once, however the
  database scans the rows for each page.\<close>

theorem pages_partition_the_result:
  assumes "\<forall>p. permutes (scan p)" and "inj_on key (set rows)" and "1 \<le> limit"
  shows "concat (map (\<lambda>p. fst (paginate (scan p) key rows rows (Some p) (Some limit)))
     [1..<Suc (pm_last_page (snd (paginate (scan 1) key rows rows (Some 1) (Some limit))))])
   = sort_key key rows"
proof -
  let ?n = "ceil_div (length rows) limit" and ?xs = "sort_key key rows"
  have "sort_key key (scan p rows) = ?xs" for p
    using assms(1,2) by (intro sort_key_unique) (simp_all add: permutes_def)
  then have "concat (map (\<lambda>p. fst (paginate (scan p) key rows rows (Some p) (Some limit))) [1..<Suc ?n])
      = concat (map (\<lambda>p. take limit (drop ((p - 1) * limit) ?xs)) [1..<Suc ?n])"
    by (simp add: paginate_def query_page_def paginationSkip_def Let_def)
  also have "\<dots> = concat (map (\<lambda>p. take limit (drop (p * limit) ?xs)) [0..<?n])"
    by (simp add: map_Suc_upt [symmetric] o_def del: upt_Suc)
  also have "\<dots> = ?xs"
    using ceil_div_bound [of limit "length rows"] assms(3) by (simp add: concat_pages)
  finally show ?thesis by (simp add: paginate_def buildPaginationMeta_def Let_def)
qed

theorem pages_partition_the_result_witness:
  "concat (map (\<lambda>p. fst (paginate (if p = 2 then rev else (\<lambda>r. r)) Desc [3, 1, 2::int] [3, 1, 2] (Some p) (Some 2)))
     [1..<3]) = [3, 2, 1]"
proof -
  have "\<forall>p. permutes (if p = (2::nat) then rev else (\<lambda>r. r :: int list))" by (simp add: permutes_def)
  from pages_partition_the_result [OF this, of Desc "[3, 1, 2]" 2] show ?thesis
    by (simp add: paginate_def buildPaginationMeta_def Let_def ceil_div_def)
qed


text \<open>The page's flags tell the truth about its neighbours: there is a next page exactly when some
  row lies beyond this one, and \<open>last_page\<close> is the last page that is not empty.\<close>

theorem meta_is_truthful:
  assumes "permutes scan" and "1 \<le> limit" and "1 \<le> page"
  shows "let (data, meta) = paginate scan key rows rows (Some page) (Some limit) in
     (pm_has_next_page meta \<longleftrightarrow> fst (paginate scan key rows rows (Some (page + 1)) (Some limit)) \<noteq> [])
     \<and> (data \<noteq> [] \<longleftrightarrow> page \<le> pm_last_page meta)
     \<and> pm_total meta = length rows \<and> length data \<le> limit"
proof -
  have len: "length (sort_key key (scan rows)) = length rows"
    using assms(1) by (metis length_sort mset_eq_length permutes_def)
  have "page * limit < length rows \<longleftrightarrow> page < ceil_div (length rows) limit"
      "(page - 1) * limit < length rows \<longleftrightarrow> page \<le> ceil_div (length rows) limit"
    using assms(2,3) ceil_div_less [of limit page "length rows"]
      ceil_div_less [of limit "page - 1" "length rows"] by auto
  then show ?thesis
    using assms(2,3) len
    by (simp add: paginate_def query_page_def paginationSkip_def buildPaginationMeta_def Let_def not_le)
qed

theorem meta_is_truthful_witness:
  "pm_has_next_page (snd (paginate (\<lambda>r. r) Desc [5, 7, 6::int] [5, 7, 6] (Some 1) (Some 2)))
   \<and> fst (paginate (\<lambda>r. r) Desc [5, 7, 6::int] [5, 7, 6] (Some 2) (Some 2)) = [5]"
  using meta_is_truthful [of "\<lambda>r. r" 2 1 Desc "[5, 7, 6::int]"]
  by (simp add: permutes_def paginate_def query_page_def paginationSkip_def buildPaginationMeta_def
      ceil_div_def Let_def)

end
