(* ===== verification/ArticleStore.thy ===== *)
theory ArticleStore
  imports Users Pagination "HOL-Library.List_Lexorder"
begin

text \<open>
  The articles repository (\<open>articles/articles.repository.ts\<close>, \<open>article-select.ts\<close>): reads through the
  per-viewer select, the listings, and the three writes with the rows they take along. Each write is one
  transaction. The collation PostgreSQL orders tag names by is a parameter.
\<close>

section \<open>buildArticleSelect\<close>

record author_row =
  au_username :: jstr
  au_bio :: "jstr option"
  au_image :: "jstr option"
  au_followedBy :: "nat list"

record article_record =
  ar_id :: nat
  ar_slug :: jstr
  ar_title :: jstr
  ar_description :: jstr
  ar_body :: jstr
  ar_createdAt :: int
  ar_updatedAt :: int
  ar_authorId :: nat
  ar_tagList :: "jstr list"
  ar_author :: author_row
  ar_favoritedBy :: "nat list"
  ar_favoritesCount :: nat

definition find_article :: "nat \<Rightarrow> db \<Rightarrow> article option" where
  "find_article i d = find (\<lambda>a. a_id a = i) (articles d)"

definition followers :: "nat \<Rightarrow> db \<Rightarrow> nat list" where
  "followers uid d = map fst (filter (\<lambda>e. snd e = uid) (userFollows d))"

definition favoriters :: "nat \<Rightarrow> db \<Rightarrow> nat list" where
  "favoriters aid d = map snd (filter (\<lambda>e. fst e = aid) (userFavorites d))"

definition tag_names :: "nat \<Rightarrow> db \<Rightarrow> jstr list" where
  "tag_names aid d = map t_name (filter (\<lambda>t. (aid, t_id t) \<in> set (articleTags d)) (tags d))"

text \<open>The relation filter \<open>{ id: viewerId }\<close>, or the \<open>in: []\<close> that matches nothing for an anonymous reader.\<close>

definition viewer_only :: "nat option \<Rightarrow> nat list \<Rightarrow> nat list" where
  "viewer_only viewer ids = (case viewer of None \<Rightarrow> [] | Some v \<Rightarrow> filter (\<lambda>i. i = v) ids)"

text \<open>
  A row whose required author is missing makes the client throw; the foreign key keeps that from
  happening.
\<close>

definition inconsistent_result :: thrown where
  "inconsistent_result = JsError (js ''Inconsistent query result: Field author is required to return data, got null instead.'')"

definition buildArticleSelect ::
    "(jstr \<Rightarrow> jstr) \<Rightarrow> nat option \<Rightarrow> db \<Rightarrow> article \<Rightarrow> thrown + article_record" where
  "buildArticleSelect coll viewer d a = (case find_user (a_authorId a) d of
     None \<Rightarrow> Inl inconsistent_result
   | Some u \<Rightarrow> Inr \<lparr>ar_id = a_id a, ar_slug = a_slug a, ar_title = a_title a,
       ar_description = a_description a, ar_body = a_body a, ar_createdAt = a_createdAt a,
       ar_updatedAt = a_updatedAt a, ar_authorId = a_authorId a,
       ar_tagList = sort_key coll (tag_names (a_id a) d),
       ar_author = \<lparr>au_username = u_username u, au_bio = u_bio u, au_image = u_image u,
         au_followedBy = viewer_only viewer (followers (u_id u) d)\<rparr>,
       ar_favoritedBy = viewer_only viewer (favoriters (a_id a) d),
       ar_favoritesCount = length (favoriters (a_id a) d)\<rparr>)"

section \<open>Reads\<close>

record article_identity =
  ai_id :: nat
  ai_slug :: jstr
  ai_title :: jstr
  ai_authorId :: nat

record article_filter =
  af_tag :: "jstr option"
  af_author :: "jstr option"
  af_favorited :: "jstr option"

definition by_slug :: "jstr \<Rightarrow> db \<Rightarrow> article option" where
  "by_slug slug d = find (\<lambda>a. a_slug a = slug) (articles d)"

definition findBySlug ::
    "(jstr \<Rightarrow> jstr) \<Rightarrow> jstr \<Rightarrow> nat option \<Rightarrow> db \<Rightarrow> thrown + article_record option" where
  "findBySlug coll slug viewer d = (case by_slug slug d of
     None \<Rightarrow> Inr None
   | Some a \<Rightarrow> (case buildArticleSelect coll viewer d a of Inl e \<Rightarrow> Inl e | Inr r \<Rightarrow> Inr (Some r)))"

definition articleIdentitySelect :: "article \<Rightarrow> article_identity" where
  "articleIdentitySelect a =
     \<lparr>ai_id = a_id a, ai_slug = a_slug a, ai_title = a_title a, ai_authorId = a_authorId a\<rparr>"

definition findIdentityBySlug :: "jstr \<Rightarrow> db \<Rightarrow> article_identity option" where
  "findIdentityBySlug slug d = map_option articleIdentitySelect (by_slug slug d)"

definition findSlugsByBase :: "jstr \<Rightarrow> nat option \<Rightarrow> db \<Rightarrow> jstr list" where
  "findSlugsByBase base exclude d =
     map a_slug (filter (\<lambda>a. (a_slug a = base \<or> startsWith (a_slug a) (base @ js ''-''))
       \<and> \<not> (exclude = Some (a_id a))) (articles d))"

definition buildListWhere :: "article_filter \<Rightarrow> db \<Rightarrow> article \<Rightarrow> bool" where
  "buildListWhere f d a \<longleftrightarrow>
     (case af_tag f of None \<Rightarrow> True | Some t \<Rightarrow> t \<in> set (tag_names (a_id a) d))
   \<and> (case af_author f of None \<Rightarrow> True
      | Some n \<Rightarrow> list_ex (\<lambda>u. u_id u = a_authorId a \<and> u_username u = n) (users d))
   \<and> (case af_favorited f of None \<Rightarrow> True
      | Some n \<Rightarrow> list_ex (\<lambda>u. u_id u \<in> set (favoriters (a_id a) d) \<and> u_username u = n) (users d))"

definition articleListOrderBy :: "article \<Rightarrow> int desc" where
  "articleListOrderBy a = Desc (a_createdAt a)"

fun collect :: "('e + 'a) list \<Rightarrow> 'e + 'a list" where
  "collect [] = Inr []"
| "collect (Inl e # rs) = Inl e"
| "collect (Inr x # rs) = (case collect rs of Inl e \<Rightarrow> Inl e | Inr xs \<Rightarrow> Inr (x # xs))"

text \<open>
  A page: \<open>count\<close> sees the database \<open>dc\<close>, \<open>findMany\<close> the database \<open>df\<close> (they are two queries), and the
  select is evaluated with the rows.
\<close>

definition page_of ::
    "(jstr \<Rightarrow> jstr) \<Rightarrow> (article list \<Rightarrow> article list) \<Rightarrow> (db \<Rightarrow> article \<Rightarrow> bool) \<Rightarrow> nat option \<Rightarrow> nat \<Rightarrow> nat \<Rightarrow>
     db \<Rightarrow> db \<Rightarrow> thrown + article_record list \<times> pagination_meta" where
  "page_of coll scan wh viewer page limit dc df =
     (case paginate scan articleListOrderBy (filter (wh dc) (articles dc)) (filter (wh df) (articles df))
        (Some page) (Some limit) of
       (rows, meta) \<Rightarrow> (case collect (map (buildArticleSelect coll viewer df) rows) of
          Inl e \<Rightarrow> Inl e | Inr rs \<Rightarrow> Inr (rs, meta)))"

definition listPaginated ::
    "(jstr \<Rightarrow> jstr) \<Rightarrow> (article list \<Rightarrow> article list) \<Rightarrow> article_filter \<Rightarrow> nat \<Rightarrow> nat \<Rightarrow> nat option \<Rightarrow>
     db \<Rightarrow> db \<Rightarrow> thrown + article_record list \<times> pagination_meta" where
  "listPaginated coll scan f page limit viewer dc df =
     page_of coll scan (buildListWhere f) viewer page limit dc df"

definition in_feed :: "nat \<Rightarrow> db \<Rightarrow> article \<Rightarrow> bool" where
  "in_feed uid d a \<longleftrightarrow> uid \<in> set (followers (a_authorId a) d)"

definition listFeedPaginated ::
    "(jstr \<Rightarrow> jstr) \<Rightarrow> (article list \<Rightarrow> article list) \<Rightarrow> nat \<Rightarrow> nat \<Rightarrow> nat \<Rightarrow>
     db \<Rightarrow> db \<Rightarrow> thrown + article_record list \<times> pagination_meta" where
  "listFeedPaginated coll scan uid page limit dc df =
     page_of coll scan (in_feed uid) (Some uid) page limit dc df"

section \<open>Writes\<close>

record create_data =
  cd_slug :: jstr
  cd_title :: jstr
  cd_description :: jstr
  cd_body :: jstr
  cd_authorId :: nat
  cd_tags :: "jstr list"

record update_data =
  ud_slug :: "jstr option"
  ud_title :: "jstr option"
  ud_description :: "jstr option"
  ud_body :: "jstr option"
  ud_tags :: "jstr list option"

text \<open>\<open>connectOrCreate\<close>: the tag of that name, made when it does not exist, joined to the article.\<close>

definition connect_tag :: "nat \<Rightarrow> jstr \<Rightarrow> db \<Rightarrow> db" where
  "connect_tag aid name d =
     (case find (\<lambda>t. t_name t = name) (tags d) of
        Some t \<Rightarrow>
          if (aid, t_id t) \<in> set (articleTags d) then d
          else d\<lparr>articleTags := articleTags d @ [(aid, t_id t)]\<rparr>
      | None \<Rightarrow>
          (let i = seqs d MTag
           in (bump MTag d)\<lparr>tags := tags d @ [\<lparr>t_id = i, t_name = name\<rparr>],
                articleTags := articleTags d @ [(aid, i)]\<rparr>))"

definition connectOrCreate :: "nat \<Rightarrow> jstr list \<Rightarrow> db \<Rightarrow> db" where
  "connectOrCreate aid names d = fold (connect_tag aid) names d"

text \<open>The nested select of a write runs inside its transaction, after the mutation.\<close>

definition select_after ::
    "(jstr \<Rightarrow> jstr) \<Rightarrow> nat option \<Rightarrow> nat \<Rightarrow> db \<Rightarrow> db \<Rightarrow> (thrown + article_record) \<times> db" where
  "select_after coll viewer aid before after =
     (case find_article aid after of
        None \<Rightarrow> (Inl record_not_found, rollback before after)
      | Some a \<Rightarrow> (case buildArticleSelect coll viewer after a of
            Inl e \<Rightarrow> (Inl e, rollback before after)
          | Inr r \<Rightarrow> (Inr r, after)))"

definition create_article ::
    "(jstr \<Rightarrow> jstr) \<Rightarrow> int \<Rightarrow> create_data \<Rightarrow> (thrown, article_record, db) comp" where
  "create_article coll now data d =
     (if cd_authorId data \<notin> user_ids d then (Inl record_not_found, d)
      else if cd_slug data \<in> a_slug ` set (articles d) then
        (Inl (unique_violation [''slug'']), bump MArticle d)
      else
        (let i = seqs d MArticle;
             a = \<lparr>a_id = i, a_slug = cd_slug data, a_title = cd_title data,
                  a_description = cd_description data, a_body = cd_body data, a_createdAt = now,
                  a_updatedAt = now, a_authorId = cd_authorId data\<rparr>
         in select_after coll None i d
              (connectOrCreate i (cd_tags data) ((bump MArticle d)\<lparr>articles := articles d @ [a]\<rparr>))))"

text \<open>
  \<open>@updatedAt\<close> is set when a column of the row is written; changing only its tags writes join rows only.
\<close>

definition apply_article_update :: "int \<Rightarrow> update_data \<Rightarrow> article \<Rightarrow> article" where
  "apply_article_update now data a = a\<lparr>
     a_slug := (case ud_slug data of Some s \<Rightarrow> s | None \<Rightarrow> a_slug a),
     a_title := (case ud_title data of Some s \<Rightarrow> s | None \<Rightarrow> a_title a),
     a_description := (case ud_description data of Some s \<Rightarrow> s | None \<Rightarrow> a_description a),
     a_body := (case ud_body data of Some s \<Rightarrow> s | None \<Rightarrow> a_body a),
     a_updatedAt := (if ud_slug data = None \<and> ud_title data = None \<and> ud_description data = None
         \<and> ud_body data = None then a_updatedAt a else now)\<rparr>"

definition update_article ::
    "(jstr \<Rightarrow> jstr) \<Rightarrow> int \<Rightarrow> nat \<Rightarrow> update_data \<Rightarrow> nat option \<Rightarrow> (thrown, article_record, db) comp" where
  "update_article coll now i data viewer d =
     (if find_article i d = None then (Inl record_not_found, d)
      else if list_ex (\<lambda>a. a_id a \<noteq> i \<and> Some (a_slug a) = ud_slug data) (articles d) then
        (Inl (unique_violation [''slug'']), d)
      else
        (let d1 = d\<lparr>articles := upd_where (\<lambda>a. a_id a = i) (apply_article_update now data) (articles d)\<rparr>;
             d2 = (case ud_tags data of
                     None \<Rightarrow> d1
                   | Some names \<Rightarrow> connectOrCreate i names
                       (d1\<lparr>articleTags := del_where (\<lambda>e. fst e = i) (articleTags d1)\<rparr>))
         in select_after coll viewer i d d2))"

text \<open>\<open>ON DELETE CASCADE\<close>: the comments and the join rows of the article go with it.\<close>

definition delete_article :: "nat \<Rightarrow> (thrown, unit, db) comp" where
  "delete_article i d =
     (if find_article i d = None then (Inl record_not_found, d)
      else (Inr (), d\<lparr>articles := del_where (\<lambda>a. a_id a = i) (articles d),
        cmts := del_where (\<lambda>c. c_articleId c = i) (cmts d),
        articleTags := del_where (\<lambda>e. fst e = i) (articleTags d),
        userFavorites := del_where (\<lambda>e. fst e = i) (userFavorites d)\<rparr>))"

section \<open>Lemmas\<close>

lemma connect_tag_frame [simp]:
  "users (connect_tag i n d) = users d" "articles (connect_tag i n d) = articles d"
  "cmts (connect_tag i n d) = cmts d" "userFavorites (connect_tag i n d) = userFavorites d"
  "userFollows (connect_tag i n d) = userFollows d" "authProviders (connect_tag i n d) = authProviders d"
  "refreshTokens (connect_tag i n d) = refreshTokens d" "pendingLinks (connect_tag i n d) = pendingLinks d"
  "seqs_le d (connect_tag i n d)"
  by (auto simp: connect_tag_def Let_def seqs_le_def split: option.splits)

lemma connectOrCreate_frame [simp]:
  "users (connectOrCreate i ns d) = users d" "articles (connectOrCreate i ns d) = articles d"
  "cmts (connectOrCreate i ns d) = cmts d" "userFavorites (connectOrCreate i ns d) = userFavorites d"
  "userFollows (connectOrCreate i ns d) = userFollows d"
  "authProviders (connectOrCreate i ns d) = authProviders d"
  "refreshTokens (connectOrCreate i ns d) = refreshTokens d"
  "pendingLinks (connectOrCreate i ns d) = pendingLinks d"
  by (induction ns arbitrary: d) (simp_all add: connectOrCreate_def)

lemma connectOrCreate_seqs [simp]: "seqs_le d (connectOrCreate i ns d)"
proof (induction ns arbitrary: d)
  case (Cons n ns)
  from seqs_le_trans [OF connect_tag_frame(9) this] show ?case by (simp add: connectOrCreate_def)
qed (simp add: connectOrCreate_def)

lemma edge_tag:
  assumes "db_ok d" and "(i, t) \<in> set (articleTags d)"
  shows "i \<in> article_ids d" "t < seqs d MTag" "t \<in> t_id ` set (tags d)"
proof -
  have e: "set (articleTags d) \<subseteq> article_ids d \<times> t_id ` set (tags d)"
    using db_okD(8) [OF assms(1)] by (simp add: edges_ok_def)
  from subsetD [OF e assms(2)] show "i \<in> article_ids d" and t: "t \<in> t_id ` set (tags d)"
    by simp_all
  from t show "t < seqs d MTag"
    using db_okD(4) [OF assms(1)] by (auto simp: tags_ok_def)
qed

lemma edges_ok_tags:
  assumes "edges_ok d" and "distinct es" and "set es \<subseteq> article_ids d \<times> t_id ` set ts"
  shows "edges_ok (d\<lparr>tags := ts, articleTags := es\<rparr>)"
  using assms by (simp add: edges_ok_def article_ids_def user_ids_def)

lemma db_ok_connect_tag [keeps]:
  assumes "db_ok d" and "i \<in> article_ids d"
  shows "db_ok (connect_tag i n d)"
proof (cases "find (\<lambda>t. t_name t = n) (tags d)")
  case None
  let ?t = "\<lparr>t_id = seqs d MTag, t_name = n\<rparr>"
  let ?es = "articleTags d @ [(i, seqs d MTag)]" and ?ts = "tags d @ [?t]"
  have tg: "tags_ok d" using db_okD [OF assms(1)] by simp
  have "\<forall>t \<in> set (tags d). t_name t \<noteq> n" "\<forall>t \<in> set (tags d). t_id t \<noteq> seqs d MTag"
    using None tg by (auto simp: tags_ok_def find_None_iff)
  then have "n \<notin> t_name ` set (tags d)" "seqs d MTag \<notin> t_id ` set (tags d)" by (metis imageE)+
  then have ts: "tags_ok ((bump MTag d)\<lparr>tags := ?ts\<rparr>)"
    using tg by (simp add: tags_ok_def uniq_append1 less_SucI)
  have "(i, seqs d MTag) \<notin> set (articleTags d)"
    using edge_tag(2) [OF assms(1)] by blast
  moreover have "set (articleTags d) \<subseteq> article_ids d \<times> t_id ` set (tags d)" "distinct (articleTags d)"
    using db_okD(8) [OF assms(1)] by (simp_all add: edges_ok_def)
  ultimately have "distinct ?es" "set ?es \<subseteq> article_ids (bump MTag d) \<times> t_id ` set ?ts"
    using assms(2) by (auto simp: article_ids_def)
  from edges_ok_tags [OF db_okD(8) [OF db_ok_bump [OF assms(1)]] this]
  have "edges_ok ((bump MTag d)\<lparr>tags := ?ts, articleTags := ?es\<rparr>)" .
  with ts show ?thesis
    using None db_okD [OF db_ok_bump [OF assms(1), of MTag]]
    by (simp add: connect_tag_def Let_def db_ok_def)
next
  case (Some t)
  then have t: "t \<in> set (tags d)" by (rule find_SomeD [THEN conjunct1])
  show ?thesis
  proof (cases "(i, t_id t) \<in> set (articleTags d)")
    case False
    then have "edges_ok (d\<lparr>articleTags := articleTags d @ [(i, t_id t)]\<rparr>)"
      using t assms(2) db_okD(8) [OF assms(1)] by (auto simp: edges_ok_def article_ids_def user_ids_def)
    from db_ok_put(7) [OF assms(1) this] False Some show ?thesis by (simp add: connect_tag_def)
  qed (use Some assms(1) in \<open>simp add: connect_tag_def\<close>)
qed

lemma db_ok_connectOrCreate [keeps]:
  "db_ok d \<Longrightarrow> i \<in> article_ids d \<Longrightarrow> db_ok (connectOrCreate i ns d)"
proof (induction ns arbitrary: d)
  case (Cons n ns)
  have "i \<in> article_ids (connect_tag i n d)"
    using Cons.prems(2) by (simp add: article_ids_def)
  with Cons show ?case by (simp add: connectOrCreate_def db_ok_connect_tag)
qed (simp add: connectOrCreate_def)

text \<open>What connecting tags does to the tag list of the article, and of the others.\<close>

lemma set_tag_names:
  "set (tag_names i d) = {t_name t | t. t \<in> set (tags d) \<and> (i, t_id t) \<in> set (articleTags d)}"
  by (auto simp: tag_names_def)

lemma connect_tag_names:
  assumes "db_ok d"
  shows "set (tag_names j (connect_tag i n d)) =
     (if j = i then insert n (set (tag_names j d)) else set (tag_names j d))"
proof (cases "find (\<lambda>t. t_name t = n) (tags d)")
  case None
  have fresh: "\<forall>t \<in> set (tags d). t_id t \<noteq> seqs d MTag"
    using db_okD(4) [OF assms] by (auto simp: tags_ok_def)
  have noedge: "(j, seqs d MTag) \<notin> set (articleTags d)" for j
    using edge_tag(2) [OF assms] by blast
  show ?thesis
    unfolding set_tag_names using None fresh noedge
    by (auto simp: connect_tag_def Let_def intro: exI [of _ "\<lparr>t_id = seqs d MTag, t_name = n\<rparr>"])
next
  case (Some t)
  then have t: "t \<in> set (tags d)" "t_name t = n" using find_SomeD by fast+
  have "t' = t" if "t' \<in> set (tags d)" "t_id t' = t_id t" for t'
    using db_okD(4) [OF assms] that t(1) by (auto simp: tags_ok_def dest: uniqD)
  with t Some show ?thesis
    unfolding set_tag_names by (auto simp: connect_tag_def)
qed

lemma connectOrCreate_names:
  "db_ok d \<Longrightarrow> i \<in> article_ids d \<Longrightarrow> set (tag_names j (connectOrCreate i ns d)) =
     (if j = i then set ns \<union> set (tag_names j d) else set (tag_names j d))"
proof (induction ns arbitrary: d)
  case (Cons n ns)
  have "i \<in> article_ids (connect_tag i n d)"
    using Cons.prems(2) by (simp add: article_ids_def)
  with Cons show ?case
    by (simp add: connectOrCreate_def db_ok_connect_tag connect_tag_names)
qed (simp add: connectOrCreate_def)

lemma db_ok_select_after:
  assumes "db_ok d" and "db_ok d'" and "seqs_le d d'" and "select_after coll v i d d' = (r, d2)"
  shows "db_ok d2 \<and> seqs_le d d2 \<and> (\<forall>x. r = Inr x \<longrightarrow> d2 = d')"
  using assms db_ok_rollback [OF assms(1,3)]
  by (auto simp: select_after_def seqs_le_def rollback_def split: option.splits sum.splits)

lemma db_ok_put_articles:
  assumes "db_ok d" and "map a_id as = map a_id (articles d)" and "articles_ok (d\<lparr>articles := as\<rparr>)"
  shows "db_ok (d\<lparr>articles := as\<rparr>)"
proof -
  have "article_ids (d\<lparr>articles := as\<rparr>) = article_ids d"
    using arg_cong [OF assms(2), of set] by (simp add: article_ids_def)
  then show ?thesis
    using assms(1,3) by (simp add: db_ok_def comments_ok_def edges_ok_def user_ids_def)
qed

lemma db_ok_add_article:
  assumes "db_ok d" and "a_slug a \<notin> a_slug ` set (articles d)" and "a_authorId a \<in> user_ids d"
    and "a_id a = seqs d MArticle"
  shows "db_ok ((bump MArticle d)\<lparr>articles := articles d @ [a]\<rparr>)"
proof -
  have ao: "articles_ok d" using db_okD(2) [OF assms(1)] .
  then have "\<forall>b \<in> set (articles d). a_id b \<noteq> seqs d MArticle" by (auto simp: articles_ok_def)
  then have "a_id a \<notin> a_id ` set (articles d)" using assms(4) by (metis imageE)
  then have "articles_ok ((bump MArticle d)\<lparr>articles := articles d @ [a]\<rparr>)"
    using ao assms(2-4) by (simp add: articles_ok_def uniq_append1 user_ids_def less_SucI)
  moreover have "article_ids ((bump MArticle d)\<lparr>articles := articles d @ [a]\<rparr>) = insert (a_id a) (article_ids d)"
    by (simp add: article_ids_def)
  ultimately show ?thesis
    using db_okD [OF db_ok_bump [OF assms(1), of MArticle]]
    by (auto simp: db_ok_def comments_ok_def edges_ok_def user_ids_def article_ids_def users_ok_def
        tags_ok_def providers_ok_def tokens_ok_def links_ok_def)
qed

lemma db_ok_create_article [keeps]:
  assumes "create_article coll now data d = (r, d')" and "db_ok d"
  shows "db_ok d' \<and> seqs_le d d'"
proof (cases "cd_authorId data \<in> user_ids d \<and> cd_slug data \<notin> a_slug ` set (articles d)")
  case True
  let ?a = "\<lparr>a_id = seqs d MArticle, a_slug = cd_slug data, a_title = cd_title data,
      a_description = cd_description data, a_body = cd_body data, a_createdAt = now,
      a_updatedAt = now, a_authorId = cd_authorId data\<rparr>"
  let ?d1 = "(bump MArticle d)\<lparr>articles := articles d @ [?a]\<rparr>"
  let ?d2 = "connectOrCreate (seqs d MArticle) (cd_tags data) ?d1"
  have "db_ok ?d1" using True by (intro db_ok_add_article [OF assms(2)]) simp_all
  then have "db_ok ?d2"
    by (rule db_ok_connectOrCreate) (simp add: article_ids_def)
  moreover have "seqs_le d ?d1" by (simp add: seqs_le_def)
  then have "seqs_le d ?d2" using connectOrCreate_seqs seqs_le_trans by blast
  moreover have "select_after coll None (seqs d MArticle) d ?d2 = (r, d')"
    using assms(1) True by (simp add: create_article_def Let_def)
  ultimately show ?thesis using db_ok_select_after [OF assms(2)] by blast
next
  case False
  then show ?thesis
    using assms db_ok_bump [OF assms(2), of MArticle]
    by (auto simp: create_article_def seqs_le_def split: if_splits)
qed

lemma apply_article_update_simps [simp]:
  "a_id (apply_article_update now data a) = a_id a"
  "a_authorId (apply_article_update now data a) = a_authorId a"
  "a_createdAt (apply_article_update now data a) = a_createdAt a"
  by (simp_all add: apply_article_update_def)

lemma ids_upd_article: "a_id ` set (upd_where P (apply_article_update now data) as) = a_id ` set as"
  using map_key_upd_where [of a_id "apply_article_update now data" P as]
  by (metis apply_article_update_simps(1) list.set_map)

lemma article_idI: "find_article i d = Some a \<Longrightarrow> a \<in> set (articles d) \<and> a_id a = i"
  by (auto simp: find_article_def dest: find_SomeD)

lemma articles_ok_update:
  assumes ok: "db_ok d"
    and free: "\<forall>a \<in> set (articles d). a_id a \<noteq> i \<longrightarrow> Some (a_slug a) \<noteq> ud_slug data"
  shows "articles_ok (d\<lparr>articles := upd_where (\<lambda>a. a_id a = i) (apply_article_update now data) (articles d)\<rparr>)"
    (is "articles_ok (d\<lparr>articles := ?as\<rparr>)")
proof -
  have ao: "uniq a_id (articles d)" "uniq a_slug (articles d)"
      "\<forall>a \<in> set (articles d). a_id a < seqs d MArticle \<and> a_authorId a \<in> user_ids d"
    using db_okD(2) [OF ok] by (simp_all add: articles_ok_def)
  have "uniq a_slug ?as"
  proof (cases "ud_slug data")
    case None
    then show ?thesis using ao(2) by (subst uniq_upd) (simp_all add: apply_article_update_def)
  next
    case (Some s)
    show ?thesis
      by (rule uniq_upd_one [OF ao(1,2), of i s]) (use Some free in \<open>auto simp: apply_article_update_def\<close>)
  qed
  moreover have "\<forall>a \<in> set ?as. a_id a < seqs d MArticle \<and> a_authorId a \<in> user_ids d"
    using ao(3) by (auto simp: set_upd_where)
  ultimately show ?thesis
    using ao(1) by (simp add: articles_ok_def uniq_upd user_ids_def)
qed

lemma db_ok_update_article [keeps]:
  assumes "update_article coll now i data viewer d = (r, d')" and ok: "db_ok d"
  shows "db_ok d' \<and> seqs_le d d'"
proof (cases "find_article i d = None \<or> list_ex (\<lambda>a. a_id a \<noteq> i \<and> Some (a_slug a) = ud_slug data) (articles d)")
  case True
  then have "d' = d" using assms(1) by (auto simp: update_article_def split: if_splits)
  then show ?thesis using ok by simp
next
  case False
  let ?d1 = "d\<lparr>articles := upd_where (\<lambda>a. a_id a = i) (apply_article_update now data) (articles d)\<rparr>"
  let ?d0 = "?d1\<lparr>articleTags := del_where (\<lambda>e. fst e = i) (articleTags ?d1)\<rparr>"
  let ?d2 = "case ud_tags data of None \<Rightarrow> ?d1 | Some names \<Rightarrow> connectOrCreate i names ?d0"
  obtain a where a: "find_article i d = Some a" using False by auto
  have nl: "\<not> list_ex (\<lambda>a. a_id a \<noteq> i \<and> Some (a_slug a) = ud_slug data) (articles d)"
    using False by simp
  then have free: "\<forall>a \<in> set (articles d). a_id a \<noteq> i \<longrightarrow> Some (a_slug a) \<noteq> ud_slug data"
    by (auto simp: list_ex_iff)
  have d1: "db_ok ?d1"
    by (rule db_ok_put_articles [OF ok]) (simp_all add: map_key_upd_where articles_ok_update [OF ok free])
  have "set (articleTags d) \<subseteq> article_ids ?d1 \<times> t_id ` set (tags ?d1)"
    using db_okD(8) [OF d1] by (simp add: edges_ok_def)
  then have "edges_ok ?d0"
    using db_okD(8) [OF d1] by (auto simp: edges_ok_def article_ids_def user_ids_def del_where_def)
  then have d0: "db_ok ?d0" by (rule db_ok_put(7) [OF d1])
  from a have "i \<in> article_ids ?d0"
    using article_idI [of i d a] ids_upd_article [of "\<lambda>a. a_id a = i" now data "articles d"]
    by (auto simp: article_ids_def)
  then have "db_ok (connectOrCreate i names ?d0)" for names by (rule db_ok_connectOrCreate [OF d0])
  then have "db_ok ?d2" using d1 by (simp split: option.splits)
  moreover have "seqs_le d ?d2"
  proof (cases "ud_tags data")
    case (Some names)
    have "seqs_le ?d0 (connectOrCreate i names ?d0)" by simp
    then show ?thesis using Some by (simp add: seqs_le_def)
  qed (simp add: seqs_le_def)
  moreover have "select_after coll viewer i d ?d2 = (r, d')"
    using assms(1) a nl by (simp add: update_article_def Let_def)
  ultimately show ?thesis using db_ok_select_after [OF ok] by blast
qed

lemma db_ok_delete_article [keeps]:
  assumes "delete_article i d = (r, d')" and ok: "db_ok d"
  shows "db_ok d'"
proof (cases "find_article i d")
  case None
  then show ?thesis using assms by (simp add: delete_article_def)
next
  case (Some a)
  then have d': "d' = d\<lparr>articles := del_where (\<lambda>a. a_id a = i) (articles d),
        cmts := del_where (\<lambda>c. c_articleId c = i) (cmts d),
        articleTags := del_where (\<lambda>e. fst e = i) (articleTags d),
        userFavorites := del_where (\<lambda>e. fst e = i) (userFavorites d)\<rparr>"
    using assms(1) by (simp add: delete_article_def)
  have ids: "article_ids d' = article_ids d - {i}" "user_ids d' = user_ids d"
    by (auto simp: d' article_ids_def user_ids_def)
  have "articles_ok d'"
    using db_okD(2) [OF ok] ids by (auto simp: articles_ok_def d' user_ids_def)
  moreover have "comments_ok d'"
    using db_okD(3) [OF ok] ids by (auto simp: comments_ok_def d')
  moreover have "edges_ok d'"
    unfolding edges_ok_def ids using db_okD(8) [OF ok]
    by (auto simp: edges_ok_def d' del_where_def)
  ultimately show ?thesis
    using db_okD [OF ok] by (simp add: db_ok_def d' users_ok_def tags_ok_def providers_ok_def
        tokens_ok_def links_ok_def user_ids_def)
qed

end
