(* ===== verification/ArticleSlug.thy ===== *)
theory ArticleSlug
  imports ArticleStore
begin

text \<open>
  Slugs (\<open>articles/article-slug.service.ts\<close>): the URL name made from a title, the first free numbered
  variant of it, and the retry loop around the write that may still lose a race for it. \<open>sched\<close> says what
  other requests do to the database before each step of an attempt.
\<close>

definition ARTICLE_SLUG_FALLBACK :: jstr where "ARTICLE_SLUG_FALLBACK = js ''article''"
definition SLUG_GENERATION_MAX_RETRIES :: nat where "SLUG_GENERATION_MAX_RETRIES = 3"

definition is_slug_char :: "nat \<Rightarrow> bool" where
  "is_slug_char c \<longleftrightarrow> 97 \<le> c \<and> c \<le> 122 \<or> is_digit c"

definition is_combining :: "nat \<Rightarrow> bool" where
  "is_combining c \<longleftrightarrow> 768 \<le> c \<and> c \<le> 879"

definition toBaseSlug :: "unicode \<Rightarrow> jstr \<Rightarrow> jstr" where
  "toBaseSlug uc title =
     (let slug = strip_both (\<lambda>c. c = 45)
            (replace_runs (\<lambda>c. \<not> is_slug_char c) (js ''-'')
              (filter (\<lambda>c. \<not> is_combining c)
                (nfd uc (replace_char 273 (js ''d'') (lower uc (trim title))))))
      in if slug = [] then ARTICLE_SLUG_FALLBACK else slug)"

definition numbered :: "jstr \<Rightarrow> nat \<Rightarrow> jstr" where
  "numbered base k = base @ js ''-'' @ show_nat k"

lemma numbered_inj: "inj (numbered base)"
  by (rule injI) (simp add: numbered_def)

text \<open>\<open>while (used.has(`${base}-${suffix}`)) suffix += 1\<close>: the used slugs run out.\<close>

function nextSuffix :: "jstr \<Rightarrow> jstr list \<Rightarrow> nat \<Rightarrow> nat" where
  "nextSuffix base used k =
     (if numbered base k \<in> set used then nextSuffix base used (Suc k) else k)"
  by pat_completeness auto

lemma finite_numbered: "finite {j. k \<le> j \<and> numbered base j \<in> set used}"
proof (rule finite_subset)
  show "{j. k \<le> j \<and> numbered base j \<in> set used} \<subseteq> numbered base -` set used" by auto
  show "finite (numbered base -` set used)" by (intro finite_vimageI numbered_inj) simp
qed

termination nextSuffix
proof (relation "measure (\<lambda>(base, used, k). card {j. k \<le> j \<and> numbered base j \<in> set used})")
  fix base used k
  assume "numbered base k \<in> set used"
  then have "k \<in> {j. k \<le> j \<and> numbered base j \<in> set used}" by simp
  moreover have "k \<notin> {j. Suc k \<le> j \<and> numbered base j \<in> set used}" by simp
  moreover have "{j. Suc k \<le> j \<and> numbered base j \<in> set used} \<subseteq> {j. k \<le> j \<and> numbered base j \<in> set used}"
    by auto
  ultimately have "{j. Suc k \<le> j \<and> numbered base j \<in> set used} \<subset> {j. k \<le> j \<and> numbered base j \<in> set used}"
    by blast
  then show "((base, used, Suc k), base, used, k)
      \<in> measure (\<lambda>(base, used, k). card {j. k \<le> j \<and> numbered base j \<in> set used})"
    using psubset_card_mono [OF finite_numbered] by simp
qed simp

declare nextSuffix.simps [simp del]

definition createCandidate :: "unicode \<Rightarrow> jstr \<Rightarrow> nat option \<Rightarrow> db \<Rightarrow> jstr" where
  "createCandidate uc title exclude d =
     (let base = toBaseSlug uc title;
          used = findSlugsByBase base exclude d
      in if base \<notin> set used then base else numbered base (nextSuffix base used 2))"

definition isSlugConflict :: "thrown \<Rightarrow> bool" where
  "isSlugConflict e = (case e of
     PrismaKnown code target m \<Rightarrow> code = ''P2002'' \<and> (case target of
        TargetArray cols \<Rightarrow> js ''slug'' \<in> set cols
      | TargetString s \<Rightarrow> contains s (js ''slug'')
      | TargetUndefined \<Rightarrow> False)
   | _ \<Rightarrow> False)"

text \<open>The attempts that are left; the attempt \<open>k\<close> of the loop has steps \<open>2 k\<close> and \<open>2 k + 1\<close> of \<open>sched\<close>.\<close>

fun executeFrom ::
    "unicode \<Rightarrow> jstr \<Rightarrow> (jstr \<Rightarrow> (thrown, 'a, db) comp) \<Rightarrow> nat option \<Rightarrow> (nat \<Rightarrow> db \<Rightarrow> db) \<Rightarrow>
     nat \<Rightarrow> nat \<Rightarrow> (thrown, 'a, db) comp" where
  "executeFrom uc title write exclude sched k 0 d =
     (Inl (ConflictException (I18n ''common.error.articleSlugConflict'')), d)"
| "executeFrom uc title write exclude sched k (Suc left) d =
     (let d1 = sched (2 * k) d;
          slug = createCandidate uc title exclude d1
      in case write slug (sched (2 * k + 1) d1) of
           (Inr x, d2) \<Rightarrow> (Inr x, d2)
         | (Inl e, d2) \<Rightarrow>
             if isSlugConflict e then executeFrom uc title write exclude sched (Suc k) left d2
             else (Inl e, d2))"

definition execute ::
    "unicode \<Rightarrow> jstr \<Rightarrow> (jstr \<Rightarrow> (thrown, 'a, db) comp) \<Rightarrow> nat option \<Rightarrow> (nat \<Rightarrow> db \<Rightarrow> db) \<Rightarrow>
     (thrown, 'a, db) comp" where
  "execute uc title write exclude sched d =
     executeFrom uc title write exclude sched 0 SLUG_GENERATION_MAX_RETRIES d"

section \<open>Lemmas\<close>

lemma nextSuffix_free: "numbered base (nextSuffix base used k) \<notin> set used"
  by (induction base used k rule: nextSuffix.induct) (subst nextSuffix.simps, simp)

lemma nextSuffix_ge: "k \<le> nextSuffix base used k"
  by (induction base used k rule: nextSuffix.induct) (subst nextSuffix.simps, auto)

lemma nextSuffix_least: "k \<le> j \<Longrightarrow> j < nextSuffix base used k \<Longrightarrow> numbered base j \<in> set used"
proof (induction base used k rule: nextSuffix.induct)
  case (1 base used k)
  show ?case
  proof (cases "numbered base k \<in> set used")
    case True
    then have "j < nextSuffix base used (Suc k)"
      using "1.prems"(2) by (subst (asm) nextSuffix.simps) simp
    with True 1 show ?thesis by (cases "j = k") auto
  next
    case False
    then have "nextSuffix base used k = k" by (subst nextSuffix.simps) simp
    then show ?thesis using "1.prems" by simp
  qed
qed

text \<open>No article but the excluded one carries the candidate: the prefix query sees every numbered variant.\<close>

lemma findSlugsByBase_complete:
  assumes "a \<in> set (articles d)" and "Some (a_id a) \<noteq> exclude"
    and "a_slug a = base \<or> (\<exists>k. a_slug a = numbered base k)"
  shows "a_slug a \<in> set (findSlugsByBase base exclude d)"
proof -
  have "a_slug a = base \<or> startsWith (a_slug a) (base @ js ''-'')"
    using assms(3) unfolding startsWith_iff numbered_def by (metis append.assoc)
  moreover have "exclude \<noteq> Some (a_id a)" using assms(2) by auto
  ultimately show ?thesis using assms(1) by (simp add: findSlugsByBase_def)
qed

lemma createCandidate_form:
  "createCandidate uc title exclude d = toBaseSlug uc title
   \<or> (\<exists>k \<ge> 2. createCandidate uc title exclude d = numbered (toBaseSlug uc title) k)"
  using nextSuffix_ge by (auto simp: createCandidate_def Let_def)

lemma createCandidate_unused:
  "createCandidate uc title exclude d \<notin> set (findSlugsByBase (toBaseSlug uc title) exclude d)"
  by (simp add: createCandidate_def Let_def nextSuffix_free)

lemma createCandidate_free:
  assumes "a \<in> set (articles d)" and "Some (a_id a) \<noteq> exclude"
  shows "a_slug a \<noteq> createCandidate uc title exclude d"
proof
  assume eq: "a_slug a = createCandidate uc title exclude d"
  then have "a_slug a \<in> set (findSlugsByBase (toBaseSlug uc title) exclude d)"
    using createCandidate_form [of uc title exclude d] by (intro findSlugsByBase_complete assms) auto
  with eq createCandidate_unused show False by metis
qed

section \<open>The shape of a slug\<close>

definition single_dashes :: "jstr \<Rightarrow> bool" where
  "single_dashes s = successively (\<lambda>a b. \<not> (a = 45 \<and> b = 45)) s"

definition slug_wf :: "jstr \<Rightarrow> bool" where
  "slug_wf s \<longleftrightarrow> s \<noteq> [] \<and> list_all (\<lambda>c. is_slug_char c \<or> c = 45) s \<and> hd s \<noteq> 45 \<and> last s \<noteq> 45
     \<and> single_dashes s"

lemma slug_char_not_dash [simp]: "is_slug_char c \<Longrightarrow> c \<noteq> 45"
  by (auto simp: is_slug_char_def is_digit_def)

lemma single_dashes_Cons:
  "single_dashes (c # s) \<longleftrightarrow> (c = 45 \<longrightarrow> s = [] \<or> hd s \<noteq> 45) \<and> single_dashes s"
  by (cases s) (auto simp: single_dashes_def)

lemma single_dashes_Nil [simp]: "single_dashes []"
  by (simp add: single_dashes_def)

lemma dashless: "45 \<notin> set s \<Longrightarrow> single_dashes s"
  by (induction s) (auto simp: single_dashes_Cons)

lemma single_dashes_dropWhile: "single_dashes s \<Longrightarrow> single_dashes (dropWhile p s)"
  by (induction s) (auto simp: single_dashes_Cons)

lemma single_dashes_rev [simp]: "single_dashes (rev s) = single_dashes s"
proof -
  have "(\<lambda>a b. \<not> (b = 45 \<and> a = 45)) = (\<lambda>a b :: nat. \<not> (a = (45 :: nat) \<and> b = 45))" by auto
  then show ?thesis unfolding single_dashes_def successively_rev by (simp only:)
qed

lemma single_dashes_strip: "single_dashes s \<Longrightarrow> single_dashes (strip_both p s)"
  by (simp add: strip_both_def single_dashes_dropWhile)

lemma hd_replace_runs:
  "s \<noteq> [] \<Longrightarrow> is_slug_char (hd s) \<Longrightarrow> hd (replace_runs (\<lambda>c. \<not> is_slug_char c) [45] s) = hd s"
  by (cases s) auto

lemma replace_runs_Nil_iff [simp]: "replace_runs p [x] s = [] \<longleftrightarrow> s = []"
  by (cases s) auto

lemma single_dashes_replace: "single_dashes (replace_runs (\<lambda>c. \<not> is_slug_char c) [45] s)"
proof (induction "\<lambda>c. \<not> is_slug_char c" "[45 :: nat]" s rule: replace_runs.induct)
  case (2 c cs)
  let ?t = "dropWhile (\<lambda>c. \<not> is_slug_char c) cs"
  show ?case
  proof (cases "is_slug_char c")
    case False
    have "?t = [] \<or> is_slug_char (hd ?t)" using hd_dropWhile by blast
    then have "replace_runs (\<lambda>c. \<not> is_slug_char c) [45] ?t = []
        \<or> hd (replace_runs (\<lambda>c. \<not> is_slug_char c) [45] ?t) \<noteq> 45"
      using hd_replace_runs [of ?t] slug_char_not_dash by fastforce
    with False 2 show ?thesis by (auto simp: single_dashes_Cons)
  qed (use 2 in \<open>auto simp: single_dashes_Cons\<close>)
qed simp

lemma replace_runs_ident:
  assumes "list_all (\<lambda>c. is_slug_char c \<or> c = 45) s" and "single_dashes s"
  shows "replace_runs (\<lambda>c. \<not> is_slug_char c) [45] s = s"
  using assms
proof (induction s)
  case (Cons c cs)
  have IH: "replace_runs (\<lambda>c. \<not> is_slug_char c) [45] cs = cs"
    using Cons by (simp add: single_dashes_Cons)
  show ?case
  proof (cases "is_slug_char c")
    case False
    then have "cs = [] \<or> is_slug_char (hd cs)"
      using Cons.prems by (cases cs) (auto simp: single_dashes_Cons)
    then have "dropWhile (\<lambda>c. \<not> is_slug_char c) cs = cs" by (cases cs) auto
    with False IH Cons.prems show ?thesis by simp
  qed (use IH in simp)
qed simp

lemma slug_wf_toBaseSlug: "slug_wf (toBaseSlug uc title)"
proof -
  define raw where "raw = filter (\<lambda>c. \<not> is_combining c)
      (nfd uc (replace_char 273 (js ''d'') (lower uc (trim title))))"
  define r where "r = replace_runs (\<lambda>c. \<not> is_slug_char c) [45] raw"
  have "\<forall>c \<in> set r. is_slug_char c \<or> c = 45"
    unfolding r_def using set_replace_runs [of _ "\<lambda>c. \<not> is_slug_char c" "[45]" raw] by auto
  then have "\<forall>c \<in> set (strip_both (\<lambda>c. c = 45) r). is_slug_char c \<or> c = 45"
    using set_strip_both by blast
  moreover have "single_dashes (strip_both (\<lambda>c. c = 45) r)"
    unfolding r_def by (intro single_dashes_strip single_dashes_replace)
  moreover have "strip_both (\<lambda>c. c = 45) r \<noteq> [] \<Longrightarrow> hd (strip_both (\<lambda>c. c = 45) r) \<noteq> 45
      \<and> last (strip_both (\<lambda>c. c = 45) r) \<noteq> 45"
    using strip_both_hd strip_both_last by fastforce
  moreover have "slug_wf (js ''article'')" by code_simp
  ultimately show ?thesis
    by (auto simp: toBaseSlug_def Let_def raw_def [symmetric] r_def [symmetric] slug_wf_def list_all_iff
        ARTICLE_SLUG_FALLBACK_def)
qed

lemma single_dashes_append:
  "single_dashes s \<Longrightarrow> last s \<noteq> 45 \<Longrightarrow> 45 \<notin> set t \<Longrightarrow> single_dashes (s @ 45 # t)"
proof (induction s)
  case Nil
  then show ?case using dashless [of t] by (cases t) (auto simp: single_dashes_Cons)
next
  case (Cons c cs)
  then show ?case
  proof (cases cs)
    case Nil
    then show ?thesis using Cons.prems dashless [of t] by (cases t) (auto simp: single_dashes_Cons)
  qed (auto simp: single_dashes_Cons)
qed

lemma slug_wf_numbered: "slug_wf base \<Longrightarrow> slug_wf (numbered base k)"
  using show_nat_digits [of "last (show_nat k)" k] show_nat_digits [of _ k]
  by (auto simp: slug_wf_def numbered_def single_dashes_append list_all_iff is_slug_char_def is_digit_def)

lemma slug_wf_candidate: "slug_wf (createCandidate uc title exclude d)"
  using createCandidate_form [of uc title exclude d] slug_wf_numbered slug_wf_toBaseSlug by metis

lemma filter_all: "\<forall>c \<in> set s. p c \<Longrightarrow> filter p s = s"
  by (induction s) auto

lemma replace_char_absent: "c \<notin> set s \<Longrightarrow> replace_char c rep s = s"
  by (induction s) (auto simp: replace_char_def)

lemma toBaseSlug_ident:
  assumes "ascii_sound uc" and wf: "slug_wf s"
  shows "toBaseSlug uc s = s"
proof -
  have range: "\<forall>c \<in> set s. 97 \<le> c \<and> c \<le> 122 \<or> 48 \<le> c \<and> c \<le> 57 \<or> c = 45"
    using wf by (auto simp: slug_wf_def list_all_iff is_slug_char_def is_digit_def)
  then have ascii: "\<forall>c \<in> set s. c < 128" by fastforce
  have "\<forall>c \<in> set s. \<not> is_ws c" using range by (fastforce simp: is_ws_def)
  then have "trim s = s"
    unfolding trim_def by (intro strip_both_ident) (metis hd_in_set last_in_set)
  moreover have "map (\<lambda>c. if 65 \<le> c \<and> c \<le> 90 then c + 32 else c) s = map (\<lambda>c. c) s"
    using range by (intro map_cong) fastforce+
  then have "ascii_lower s = s" by (simp add: ascii_lower_def)
  then have "lower uc s = s" "nfd uc s = s"
    using assms(1) ascii by (simp_all add: ascii_sound_def)
  moreover have "273 \<notin> set s" using range by fastforce
  then have "replace_char 273 (js ''d'') s = s" by (rule replace_char_absent)
  moreover have "filter (\<lambda>c. \<not> is_combining c) s = s"
    using range by (intro filter_all) (fastforce simp: is_combining_def)
  moreover have "replace_runs (\<lambda>c. \<not> is_slug_char c) [45] s = s"
    using wf by (intro replace_runs_ident) (simp_all add: slug_wf_def)
  moreover have "strip_both (\<lambda>c. c = 45) s = s"
    using wf by (intro strip_both_ident) (simp add: slug_wf_def)
  ultimately show ?thesis using wf by (simp add: toBaseSlug_def slug_wf_def)
qed

text \<open>What a loop around \<open>write\<close> keeps, and how it can end.\<close>

lemma executeFrom_outcome:
  assumes sched: "\<And>i d. P d \<Longrightarrow> P (sched i d)"
    and wr: "\<And>slug d r d'. P d \<Longrightarrow> write slug d = (r, d') \<Longrightarrow> P d'"
  shows "P d \<Longrightarrow> executeFrom uc title write exclude sched k n d = (r, d') \<Longrightarrow>
     P d' \<and> (r = Inl (ConflictException (I18n ''common.error.articleSlugConflict''))
      \<or> (\<exists>i d1. P d1 \<and> write (createCandidate uc title exclude d1) (sched i d1) = (r, d')
            \<and> (\<forall>e. r = Inl e \<longrightarrow> \<not> isSlugConflict e)))"
proof (induction n arbitrary: k d)
  case (Suc n)
  let ?d1 = "sched (2 * k) d" and ?i = "2 * k + 1"
  let ?w = "write (createCandidate uc title exclude ?d1) (sched ?i ?d1)"
  have ok: "P ?d1" "P (sched ?i ?d1)" using Suc.prems(1) sched by blast+
  obtain r2 d2 where w: "?w = (r2, d2)" by fastforce
  show ?case
  proof (cases "\<exists>e. r2 = Inl e \<and> isSlugConflict e")
    case True
    then have "executeFrom uc title write exclude sched (Suc k) n d2 = (r, d')"
      using Suc.prems(2) w by (auto simp: Let_def)
    then show ?thesis using Suc.IH wr [OF ok(2) w] by blast
  next
    case False
    then have "r = r2" "d' = d2"
      using Suc.prems(2) w by (auto simp: Let_def split: sum.splits)
    then show ?thesis using False ok(1) w wr [OF ok(2) w] by blast
  qed
qed simp

lemmas execute_outcome = executeFrom_outcome [where k = 0 and n = SLUG_GENERATION_MAX_RETRIES, folded execute_def]

text \<open>If the first write is no slug conflict, it is the result.\<close>

lemma execute_first:
  assumes "write (createCandidate uc title exclude (sched 0 d)) (sched 1 (sched 0 d)) = (r, d')"
    and "\<And>e. r = Inl e \<Longrightarrow> \<not> isSlugConflict e"
  shows "execute uc title write exclude sched d = (r, d')"
  using assms by (auto simp: execute_def SLUG_GENERATION_MAX_RETRIES_def eval_nat_numeral Let_def
      split: sum.splits)

section \<open>Properties\<close>

text \<open>C24: Every slug the service proposes is safe in a URL: nonempty, lower-case letters, digits and single inner
  dashes only, whatever Unicode the title holds; and making a slug of such a slug gives it back.\<close>

theorem slugs_are_url_safe:
  assumes "ascii_sound uc"
  shows "slug_wf (toBaseSlug uc title) \<and> slug_wf (createCandidate uc title exclude d)
     \<and> toBaseSlug uc (createCandidate uc title exclude d) = createCandidate uc title exclude d"
  using toBaseSlug_ident [OF assms slug_wf_candidate] slug_wf_toBaseSlug slug_wf_candidate by blast

theorem slugs_are_url_safe_witness:
  "slug_wf (toBaseSlug ascii_unicode (js ''  --Hello,  World! '')) \<and>
   toBaseSlug ascii_unicode (js ''  --Hello,  World! '') = js ''hello-world''"
proof
  show "slug_wf (toBaseSlug ascii_unicode (js ''  --Hello,  World! ''))"
    using slugs_are_url_safe [OF ascii_unicode_sound] by blast
qed (simp add: toBaseSlug_def Let_def js_def trim_def strip_both_def is_ws_def ascii_unicode_def
    ascii_lower_def replace_char_def is_combining_def is_slug_char_def is_digit_def)

definition taken_slugs :: "nat option \<Rightarrow> db \<Rightarrow> jstr set" where
  "taken_slugs exclude d = a_slug ` {a \<in> set (articles d). Some (a_id a) \<noteq> exclude}"

lemma used_iff_taken:
  assumes "s = base \<or> (\<exists>k. s = numbered base k)"
  shows "s \<in> set (findSlugsByBase base exclude d) \<longleftrightarrow> s \<in> taken_slugs exclude d"
proof
  assume "s \<in> taken_slugs exclude d"
  then show "s \<in> set (findSlugsByBase base exclude d)"
    using findSlugsByBase_complete [of _ d exclude base] assms by (auto simp: taken_slugs_def)
qed (auto simp: findSlugsByBase_def taken_slugs_def)

lemma createCandidate_not_taken: "createCandidate uc title exclude d \<notin> taken_slugs exclude d"
proof
  assume "createCandidate uc title exclude d \<in> taken_slugs exclude d"
  then obtain a where "a \<in> set (articles d)" "Some (a_id a) \<noteq> exclude"
      "a_slug a = createCandidate uc title exclude d"
    unfolding taken_slugs_def by auto
  then show False using createCandidate_free by metis
qed

text \<open>C25: A proposed slug belongs to no other article. It is the plain slug of the title when that is free, and
  otherwise the variant with the smallest free number from 2 on: the search ends, and skips nothing.\<close>

theorem candidate_is_first_free:
  "createCandidate uc title exclude d \<notin> taken_slugs exclude d
   \<and> (if toBaseSlug uc title \<notin> taken_slugs exclude d then createCandidate uc title exclude d = toBaseSlug uc title
      else (\<exists>k. 2 \<le> k \<and> createCandidate uc title exclude d = numbered (toBaseSlug uc title) k
              \<and> numbered (toBaseSlug uc title) ` {2..<k} \<subseteq> taken_slugs exclude d))"
proof -
  let ?b = "toBaseSlug uc title" and ?c = "createCandidate uc title exclude d"
  let ?u = "findSlugsByBase ?b exclude d"
  have "?c \<notin> taken_slugs exclude d" by (rule createCandidate_not_taken)
  moreover have "?c = ?b" if "?b \<notin> taken_slugs exclude d"
    using that used_iff_taken [of ?b ?b] by (simp add: createCandidate_def Let_def)
  moreover have "2 \<le> nextSuffix ?b ?u 2 \<and> ?c = numbered ?b (nextSuffix ?b ?u 2)
      \<and> numbered ?b ` {2..<nextSuffix ?b ?u 2} \<subseteq> taken_slugs exclude d"
    if "?b \<in> taken_slugs exclude d"
  proof -
    have "numbered ?b j \<in> taken_slugs exclude d" if "j \<in> {2..<nextSuffix ?b ?u 2}" for j
      using that nextSuffix_least [of 2 j ?b ?u] used_iff_taken [of "numbered ?b j" ?b exclude d] by auto
    then show ?thesis
      using that nextSuffix_ge [of 2 ?b ?u] used_iff_taken [of ?b ?b exclude d]
      by (auto simp: createCandidate_def Let_def)
  qed
  ultimately show ?thesis by auto
qed

end
