(* ===== verification/Events.thy ===== *)
theory Events
  imports HttpErrors
begin

text \<open>
  Domain events on Kafka (\<open>src/kafka\<close>): the two events and the producer that hands them to the broker
  without ever failing the request that caused them. What the Kafka client does with a message is a
  parameter: it delivers it, reports a failure later, or throws at once. \<open>occurredAt\<close> is the instant of
  the ISO string.
\<close>

record article_created =
  ce_articleId :: nat
  ce_slug :: jstr
  ce_title :: jstr
  ce_authorId :: nat
  ce_authorUsername :: jstr
  ce_occurredAt :: int

record article_favorited =
  fe_articleId :: nat
  fe_slug :: jstr
  fe_title :: jstr
  fe_authorId :: nat
  fe_favoritedByUserId :: nat
  fe_favoritedByUsername :: jstr
  fe_occurredAt :: int

datatype event = ArticleCreated article_created | ArticleFavorited article_favorited

definition EVENT_ARTICLE_FAVORITED :: jstr where "EVENT_ARTICLE_FAVORITED = js ''article.favorited''"
definition EVENT_ARTICLE_CREATED :: jstr where "EVENT_ARTICLE_CREATED = js ''article.created''"

record kafka_message =
  km_topic :: jstr
  km_key :: jstr
  km_value :: event

datatype emit_result = Delivered | FailsLater jstr | Throws jstr

datatype producer_log = Emitted jstr nat | FailedToEmit jstr nat jstr

record bus =
  broker :: "kafka_message list"
  producerLog :: "producer_log list"

type_synonym kafka_client = "bus \<Rightarrow> kafka_message \<Rightarrow> emit_result"

definition emit :: "kafka_client \<Rightarrow> jstr \<Rightarrow> nat \<Rightarrow> event \<Rightarrow> bus \<Rightarrow> bus" where
  "emit client topic articleId ev b =
     (let m = \<lparr>km_topic = topic, km_key = show_nat articleId, km_value = ev\<rparr>
      in case client b m of
           Delivered \<Rightarrow> \<lparr>broker = broker b @ [m], producerLog = producerLog b @ [Emitted topic articleId]\<rparr>
         | FailsLater err \<Rightarrow>
             b\<lparr>producerLog := producerLog b @ [Emitted topic articleId, FailedToEmit topic articleId err]\<rparr>
         | Throws err \<Rightarrow> b\<lparr>producerLog := producerLog b @ [FailedToEmit topic articleId err]\<rparr>)"

definition emitArticleFavorited :: "kafka_client \<Rightarrow> article_favorited \<Rightarrow> bus \<Rightarrow> bus" where
  "emitArticleFavorited client ev = emit client EVENT_ARTICLE_FAVORITED (fe_articleId ev) (ArticleFavorited ev)"

definition emitArticleCreated :: "kafka_client \<Rightarrow> article_created \<Rightarrow> bus \<Rightarrow> bus" where
  "emitArticleCreated client ev = emit client EVENT_ARTICLE_CREATED (ce_articleId ev) (ArticleCreated ev)"

section \<open>Lemmas\<close>

text \<open>An emitted message goes to the end of the broker's log, or nowhere.\<close>

lemma emit_broker:
  "broker (emit client topic i ev b) = broker b
   \<or> broker (emit client topic i ev b) = broker b @ [\<lparr>km_topic = topic, km_key = show_nat i, km_value = ev\<rparr>]"
  by (auto simp: emit_def Let_def split: emit_result.splits)

lemma created_broker:
  "broker (emitArticleCreated client ev b) = broker b
   \<or> (\<exists>m. broker (emitArticleCreated client ev b) = broker b @ [m] \<and> km_topic m = EVENT_ARTICLE_CREATED)"
  using emit_broker [of client EVENT_ARTICLE_CREATED "ce_articleId ev" "ArticleCreated ev" b]
  unfolding emitArticleCreated_def by (metis kafka_message.select_convs(1))

end
