(* ===== verification/Articles.thy ===== *)
theory Articles
  imports ArticleSlug Events
begin

text \<open>
  The articles service (\<open>articles/articles.service.ts\<close>) with its helpers and response mapper. A request
  works on the database and the event bus; \<open>sched\<close> says what other requests do to the database between
  its steps.
\<close>

section \<open>Helpers\<close>

record update_dto =
  ua_title :: "jstr option"
  ua_description :: "jstr option"
  ua_body :: "jstr option"
  ua_tagList :: "jstr list option"

record create_dto =
  ca_title :: jstr
  ca_description :: jstr
  ca_body :: jstr
  ca_tagList :: "jstr list option"

record list_query =
  lq_page :: "nat option"
  lq_limit :: "nat option"
  lq_tag :: "jstr option"
  lq_author :: "jstr option"
  lq_favorited :: "jstr option"

definition hasEffectiveUpdate :: "update_dto \<Rightarrow> bool" where
  "hasEffectiveUpdate dto \<longleftrightarrow>
     ua_title dto \<noteq> None \<or> ua_description dto \<noteq> None \<or> ua_body dto \<noteq> None \<or> ua_tagList dto \<noteq> None"

definition normalizeTag :: "unicode \<Rightarrow> jstr \<Rightarrow> jstr" where
  "normalizeTag uc t = lower uc (trim t)"

text \<open>\<open>[...new Set(xs)]\<close>: the first occurrence of each element, in order.\<close>

definition js_unique :: "'a list \<Rightarrow> 'a list" where
  "js_unique xs = rev (remdups (rev xs))"

definition normalizeTags :: "unicode \<Rightarrow> jstr list \<Rightarrow> jstr list" where
  "normalizeTags uc ts = js_unique (filter (\<lambda>t. t \<noteq> []) (map (normalizeTag uc) ts))"

definition buildArticleFilter :: "unicode \<Rightarrow> list_query \<Rightarrow> article_filter" where
  "buildArticleFilter uc q =
     \<lparr>af_tag = (case lq_tag q of None \<Rightarrow> None
        | Some t \<Rightarrow> if normalizeTag uc t = [] then None else Some (normalizeTag uc t)),
      af_author = lq_author q, af_favorited = lq_favorited q\<rparr>"

section \<open>ArticleResponseMapper\<close>

record author_response =
  as_username :: jstr
  as_bio :: "jstr option"
  as_image :: "jstr option"
  as_following :: bool

record article_response =
  rs_slug :: jstr
  rs_title :: jstr
  rs_description :: jstr
  rs_body :: jstr
  rs_tagList :: "jstr list"
  rs_createdAt :: int
  rs_updatedAt :: int
  rs_favorited :: bool
  rs_favoritesCount :: nat
  rs_author :: author_response

definition toResponse :: "s3_env \<Rightarrow> article_record \<Rightarrow> article_response" where
  "toResponse s3 a = \<lparr>rs_slug = ar_slug a, rs_title = ar_title a, rs_description = ar_description a,
     rs_body = ar_body a, rs_tagList = ar_tagList a, rs_createdAt = ar_createdAt a,
     rs_updatedAt = ar_updatedAt a, rs_favorited = (0 < length (ar_favoritedBy a)),
     rs_favoritesCount = ar_favoritesCount a,
     rs_author = \<lparr>as_username = au_username (ar_author a), as_bio = au_bio (ar_author a),
       as_image = publicUrl s3 (au_image (ar_author a)),
       as_following = (0 < length (au_followedBy (ar_author a)))\<rparr>\<rparr>"

definition toResponseList :: "s3_env \<Rightarrow> article_record list \<Rightarrow> article_response list" where
  "toResponseList s3 as = map (toResponse s3) as"

section \<open>ArticlesService\<close>

record article_env =
  ae_unicode :: unicode
  ae_collation :: "jstr \<Rightarrow> jstr"
  ae_s3 :: s3_env
  ae_kafka :: kafka_client

record app =
  app_db :: db
  app_bus :: bus

definition requireOwnedArticle :: "nat \<Rightarrow> jstr \<Rightarrow> db \<Rightarrow> thrown + article_identity" where
  "requireOwnedArticle uid slug d = (case findIdentityBySlug slug d of
     None \<Rightarrow> Inl (NotFoundException (I18n ''common.error.articleNotFound''))
   | Some a \<Rightarrow> if ai_authorId a \<noteq> uid then Inl (ForbiddenException (I18n ''common.error.articleForbidden''))
              else Inr a)"

definition create_event :: "nat \<Rightarrow> int \<Rightarrow> article_record \<Rightarrow> article_created" where
  "create_event uid now a = \<lparr>ce_articleId = ar_id a, ce_slug = ar_slug a, ce_title = ar_title a,
     ce_authorId = uid, ce_authorUsername = au_username (ar_author a), ce_occurredAt = now\<rparr>"

definition createArticle ::
    "article_env \<Rightarrow> int \<Rightarrow> (nat \<Rightarrow> db \<Rightarrow> db) \<Rightarrow> nat \<Rightarrow> create_dto \<Rightarrow> (thrown, article_response, app) comp" where
  "createArticle env now sched uid dto s =
     (let title = trim (ca_title dto);
          description = trim (ca_description dto);
          tgs = normalizeTags (ae_unicode env) (case ca_tagList dto of None \<Rightarrow> [] | Some ts \<Rightarrow> ts)
      in case execute (ae_unicode env) title
           (\<lambda>slug. create_article (ae_collation env) now
              \<lparr>cd_slug = slug, cd_title = title, cd_description = description, cd_body = ca_body dto,
               cd_authorId = uid, cd_tags = tgs\<rparr>)
           None sched (app_db s) of
         (Inl e, d) \<Rightarrow> (Inl e, s\<lparr>app_db := d\<rparr>)
       | (Inr a, d) \<Rightarrow>
           (Inr (toResponse (ae_s3 env) a),
            \<lparr>app_db = d, app_bus = emitArticleCreated (ae_kafka env) (create_event uid now a) (app_bus s)\<rparr>))"

definition listArticles ::
    "article_env \<Rightarrow> (article list \<Rightarrow> article list) \<Rightarrow> list_query \<Rightarrow> nat option \<Rightarrow> db \<Rightarrow> db \<Rightarrow>
     thrown + article_response list \<times> pagination_meta" where
  "listArticles env scan q viewer dc df =
     (case listPaginated (ae_collation env) scan (buildArticleFilter (ae_unicode env) q)
         (case lq_page q of Some p \<Rightarrow> p | None \<Rightarrow> DEFAULT_PAGE)
         (case lq_limit q of Some l \<Rightarrow> l | None \<Rightarrow> DEFAULT_LIMIT) viewer dc df of
        Inl e \<Rightarrow> Inl e
      | Inr (data, meta) \<Rightarrow> Inr (toResponseList (ae_s3 env) data, meta))"

definition feed ::
    "article_env \<Rightarrow> (article list \<Rightarrow> article list) \<Rightarrow> nat \<Rightarrow> nat option \<Rightarrow> nat option \<Rightarrow> db \<Rightarrow> db \<Rightarrow>
     thrown + article_response list \<times> pagination_meta" where
  "feed env scan uid page limit dc df =
     (case listFeedPaginated (ae_collation env) scan uid
         (case page of Some p \<Rightarrow> p | None \<Rightarrow> DEFAULT_PAGE)
         (case limit of Some l \<Rightarrow> l | None \<Rightarrow> DEFAULT_LIMIT) dc df of
        Inl e \<Rightarrow> Inl e
      | Inr (data, meta) \<Rightarrow> Inr (toResponseList (ae_s3 env) data, meta))"

definition getBySlug :: "article_env \<Rightarrow> jstr \<Rightarrow> nat option \<Rightarrow> db \<Rightarrow> thrown + article_response" where
  "getBySlug env slug viewer d = (case findBySlug (ae_collation env) slug viewer d of
     Inl e \<Rightarrow> Inl e
   | Inr None \<Rightarrow> Inl (NotFoundException (I18n ''common.error.articleNotFound''))
   | Inr (Some a) \<Rightarrow> Inr (toResponse (ae_s3 env) a))"

definition update_data_of :: "unicode \<Rightarrow> update_dto \<Rightarrow> update_data" where
  "update_data_of uc dto = \<lparr>ud_slug = None, ud_title = map_option trim (ua_title dto),
     ud_description = map_option trim (ua_description dto), ud_body = ua_body dto,
     ud_tags = map_option (normalizeTags uc) (ua_tagList dto)\<rparr>"

text \<open>Step 0 of \<open>sched\<close> comes before the ownership check, the later ones before the steps of the write.\<close>

definition updateArticle ::
    "article_env \<Rightarrow> int \<Rightarrow> (nat \<Rightarrow> db \<Rightarrow> db) \<Rightarrow> nat \<Rightarrow> jstr \<Rightarrow> update_dto \<Rightarrow> (thrown, article_response, db) comp" where
  "updateArticle env now sched uid slug dto d =
     (let d0 = sched 0 d
      in case requireOwnedArticle uid slug d0 of
           Inl e \<Rightarrow> (Inl e, d0)
         | Inr identity \<Rightarrow>
             if \<not> hasEffectiveUpdate dto
             then (Inl (UnprocessableEntityException (I18n ''common.error.emptyArticleUpdate'')), d0)
             else
               (let title = map_option trim (ua_title dto);
                    data = update_data_of (ae_unicode env) dto
                in case (if title \<noteq> None \<and> title \<noteq> Some (ai_title identity)
                       then execute (ae_unicode env) (the title)
                              (\<lambda>newSlug. update_article (ae_collation env) now (ai_id identity)
                                 (data\<lparr>ud_slug := Some newSlug\<rparr>) (Some uid))
                              (Some (ai_id identity)) (\<lambda>i. sched (Suc i)) d0
                       else update_article (ae_collation env) now (ai_id identity) data (Some uid) (sched 1 d0)) of
                     (Inl e, d') \<Rightarrow> (Inl e, d')
                   | (Inr a, d') \<Rightarrow> (Inr (toResponse (ae_s3 env) a), d')))"

definition removeArticle ::
    "(nat \<Rightarrow> db \<Rightarrow> db) \<Rightarrow> nat \<Rightarrow> jstr \<Rightarrow> (thrown, unit, db) comp" where
  "removeArticle sched uid slug d =
     (let d0 = sched 0 d
      in case requireOwnedArticle uid slug d0 of
           Inl e \<Rightarrow> (Inl e, d0)
         | Inr identity \<Rightarrow> delete_article (ai_id identity) (sched 1 d0))"

section \<open>Lemmas\<close>

lemma find_user_author:
  assumes "db_ok d" and "a \<in> set (articles d)"
  obtains u where "find_user (a_authorId a) d = Some u" "u_id u = a_authorId a"
proof -
  have "a_authorId a \<in> user_ids d"
    using assms(2) db_okD(2) [OF assms(1)] unfolding articles_ok_def by blast
  from find_user_exists [OF this] that show ?thesis by blast
qed

lemma select_ok:
  assumes "db_ok d" and "a \<in> set (articles d)"
  obtains r where "buildArticleSelect coll v d a = Inr r" "ar_id r = a_id a" "ar_slug r = a_slug a"
    "ar_title r = a_title a" "ar_authorId r = a_authorId a"
proof -
  obtain u where "find_user (a_authorId a) d = Some u" using find_user_author [OF assms] by metis
  with that show ?thesis by (simp add: buildArticleSelect_def)
qed

lemma by_slug_iff:
  "db_ok d \<Longrightarrow> by_slug s d = Some a \<longleftrightarrow> a \<in> set (articles d) \<and> a_slug a = s"
  using uniq_find [of a_slug "articles d" a s] db_okD(2)
  by (auto simp: by_slug_def articles_ok_def dest: find_SomeD)

lemma find_article_iff:
  "db_ok d \<Longrightarrow> find_article i d = Some a \<longleftrightarrow> a \<in> set (articles d) \<and> a_id a = i"
  using uniq_find [of a_id "articles d" a i] db_okD(2)
  by (auto simp: find_article_def articles_ok_def dest: find_SomeD)

lemma select_after_ok:
  assumes "db_ok after" and "a \<in> set (articles after)" and "a_id a = i"
  obtains r where "select_after coll v i before after = (Inr r, after)"
    "buildArticleSelect coll v after a = Inr r" "ar_id r = i" "ar_slug r = a_slug a"
proof -
  obtain r where r: "buildArticleSelect coll v after a = Inr r" "ar_id r = a_id a" "ar_slug r = a_slug a"
    using select_ok [OF assms(1,2)] by metis
  moreover have "find_article i after = Some a"
    using assms by (simp add: find_article_iff)
  ultimately show ?thesis using that assms(3) by (simp add: select_after_def)
qed

text \<open>A write that succeeds returns what a read by its slug then returns.\<close>

lemma getBySlug_select:
  assumes "db_ok d" and "a \<in> set (articles d)" and "buildArticleSelect (ae_collation env) v d a = Inr r"
  shows "getBySlug env (a_slug a) v d = Inr (toResponse (ae_s3 env) r)"
  using assms by_slug_iff [OF assms(1), of "a_slug a" a]
  by (simp add: getBySlug_def findBySlug_def)

lemma set_js_unique [simp]: "set (js_unique xs) = set xs"
  by (simp add: js_unique_def)

lemma create_article_Inr:
  assumes ok: "db_ok d" and "cd_authorId data \<in> user_ids d" and "cd_slug data \<notin> a_slug ` set (articles d)"
  obtains r a d' where "create_article coll now data d = (Inr r, d')" "db_ok d'"
    "a \<in> set (articles d')" "buildArticleSelect coll None d' a = Inr r"
    "a = \<lparr>a_id = seqs d MArticle, a_slug = cd_slug data, a_title = cd_title data,
      a_description = cd_description data, a_body = cd_body data, a_createdAt = now,
      a_updatedAt = now, a_authorId = cd_authorId data\<rparr>"
    "articles d' = articles d @ [a]" "set (tag_names (a_id a) d') = set (cd_tags data)"
    "ar_id r = a_id a" "ar_slug r = a_slug a" "users d' = users d" "userFollows d' = userFollows d"
proof -
  let ?a = "\<lparr>a_id = seqs d MArticle, a_slug = cd_slug data, a_title = cd_title data,
      a_description = cd_description data, a_body = cd_body data, a_createdAt = now,
      a_updatedAt = now, a_authorId = cd_authorId data\<rparr>"
  let ?d1 = "(bump MArticle d)\<lparr>articles := articles d @ [?a]\<rparr>"
  let ?d2 = "connectOrCreate (seqs d MArticle) (cd_tags data) ?d1"
  have d1: "db_ok ?d1" using assms by (intro db_ok_add_article [OF ok]) simp_all
  have i: "seqs d MArticle \<in> article_ids ?d1" by (simp add: article_ids_def)
  have d2: "db_ok ?d2" by (rule db_ok_connectOrCreate [OF d1 i])
  have mem: "?a \<in> set (articles ?d2)" by simp
  have "seqs d MArticle \<notin> article_ids d"
    using db_okD(2) [OF ok] by (auto simp: articles_ok_def article_ids_def)
  then have "\<not> (seqs d MArticle, t) \<in> set (articleTags d)" for t
    using edge_tag(1) [OF ok] by blast
  then have "set (tag_names (seqs d MArticle) ?d1) = {}"
    by (auto simp: set_tag_names)
  then have tg: "set (tag_names (seqs d MArticle) ?d2) = set (cd_tags data)"
    using connectOrCreate_names [OF d1 i] by simp
  obtain r where r: "select_after coll None (seqs d MArticle) d ?d2 = (Inr r, ?d2)"
      "buildArticleSelect coll None ?d2 ?a = Inr r" "ar_id r = seqs d MArticle" "ar_slug r = cd_slug data"
    by (rule select_after_ok [OF d2 mem, of "seqs d MArticle" coll None d]) simp_all
  have run: "create_article coll now data d = (Inr r, ?d2)"
    using assms(2,3) r(1) by (simp add: create_article_def Let_def)
  show ?thesis
    by (rule that [OF run d2 mem r(2) refl]) (use r tg in simp_all)
qed

lemma select_fields:
  assumes "buildArticleSelect coll v d a = Inr r"
  shows "ar_id r = a_id a" "ar_slug r = a_slug a" "ar_title r = a_title a" "ar_authorId r = a_authorId a"
    "ar_tagList r = sort_key coll (tag_names (a_id a) d)"
    "ar_description r = a_description a" "ar_body r = a_body a"
    "ar_favoritedBy r = viewer_only v (favoriters (a_id a) d)"
    "ar_favoritesCount r = length (favoriters (a_id a) d)"
    "au_followedBy (ar_author r) = viewer_only v (followers (a_authorId a) d)"
    "\<exists>u. find_user (a_authorId a) d = Some u \<and> au_username (ar_author r) = u_username u"
proof -
  obtain u where "find_user (a_authorId a) d = Some u"
    using assms by (cases "find_user (a_authorId a) d") (simp_all add: buildArticleSelect_def)
  moreover from this have "u_id u = a_authorId a" using find_SomeD unfolding find_user_def by fast
  ultimately show "ar_id r = a_id a" "ar_slug r = a_slug a" "ar_title r = a_title a" "ar_authorId r = a_authorId a"
    "ar_tagList r = sort_key coll (tag_names (a_id a) d)"
    "ar_description r = a_description a" "ar_body r = a_body a"
    "ar_favoritedBy r = viewer_only v (favoriters (a_id a) d)"
    "ar_favoritesCount r = length (favoriters (a_id a) d)"
    "au_followedBy (ar_author r) = viewer_only v (followers (a_authorId a) d)"
    "\<exists>u. find_user (a_authorId a) d = Some u \<and> au_username (ar_author r) = u_username u"
    using assms by (auto simp: buildArticleSelect_def)
qed

lemma distinct_tag_names: "db_ok d \<Longrightarrow> distinct (tag_names i d)"
  using db_okD(4) [of d] by (simp add: tags_ok_def uniq_def tag_names_def distinct_map_filter)

lemma candidate_free_none: "createCandidate uc title None d \<notin> a_slug ` set (articles d)"
  using createCandidate_free [of _ d None uc title] by (metis imageE option.distinct(1))

lemma createArticle_quiet:
  assumes ok: "db_ok (app_db s)" and "uid \<in> user_ids (app_db s)"
  obtains r a d' where
    "createArticle env now (\<lambda>_ d. d) uid dto s = (Inr (toResponse (ae_s3 env) r),
       \<lparr>app_db = d', app_bus = emitArticleCreated (ae_kafka env) (create_event uid now r) (app_bus s)\<rparr>)"
    "db_ok d'" "a \<in> set (articles d')" "buildArticleSelect (ae_collation env) None d' a = Inr r"
    "articles d' = articles (app_db s) @ [a]" "a_id a = seqs (app_db s) MArticle" "a_authorId a = uid"
    "a_slug a = createCandidate (ae_unicode env) (trim (ca_title dto)) None (app_db s)"
    "a_title a = trim (ca_title dto)"
    "set (tag_names (a_id a) d') =
       set (normalizeTags (ae_unicode env) (case ca_tagList dto of None \<Rightarrow> [] | Some ts \<Rightarrow> ts))"
    "ar_id r = a_id a" "ar_slug r = a_slug a"
    "users d' = users (app_db s)" "userFollows d' = userFollows (app_db s)"
proof -
  let ?slug = "createCandidate (ae_unicode env) (trim (ca_title dto)) None (app_db s)"
  let ?data = "\<lparr>cd_slug = ?slug, cd_title = trim (ca_title dto), cd_description = trim (ca_description dto),
      cd_body = ca_body dto, cd_authorId = uid,
      cd_tags = normalizeTags (ae_unicode env) (case ca_tagList dto of None \<Rightarrow> [] | Some ts \<Rightarrow> ts)\<rparr>"
  obtain r a d' where c: "create_article (ae_collation env) now ?data (app_db s) = (Inr r, d')" "db_ok d'"
      "a \<in> set (articles d')" "buildArticleSelect (ae_collation env) None d' a = Inr r"
    and a: "a = \<lparr>a_id = seqs (app_db s) MArticle, a_slug = cd_slug ?data, a_title = cd_title ?data,
      a_description = cd_description ?data, a_body = cd_body ?data, a_createdAt = now,
      a_updatedAt = now, a_authorId = cd_authorId ?data\<rparr>"
    and e: "articles d' = articles (app_db s) @ [a]" "set (tag_names (a_id a) d') = set (cd_tags ?data)"
      "ar_id r = a_id a" "ar_slug r = a_slug a" "users d' = users (app_db s)" "userFollows d' = userFollows (app_db s)"
    by (rule create_article_Inr [OF ok, of ?data "ae_collation env" now])
      (use assms(2) candidate_free_none in simp_all)
  have "execute (ae_unicode env) (trim (ca_title dto))
     (\<lambda>slug. create_article (ae_collation env) now (?data\<lparr>cd_slug := slug\<rparr>)) None (\<lambda>_ d. d) (app_db s) = (Inr r, d')"
    by (rule execute_first) (use c(1) in simp_all)
  then have run: "createArticle env now (\<lambda>_ d. d) uid dto s = (Inr (toResponse (ae_s3 env) r),
       \<lparr>app_db = d', app_bus = emitArticleCreated (ae_kafka env) (create_event uid now r) (app_bus s)\<rparr>)"
    by (simp add: createArticle_def Let_def)
  show ?thesis by (rule that [OF run c(2-4) e(1)]) (use a e in simp_all)
qed

section \<open>Properties\<close>



text \<open>The article writes leave the user table alone.\<close>

lemma select_after_users:
  "select_after coll v i before after = (r, d') \<Longrightarrow> users after = users before \<Longrightarrow> users d' = users before"
  by (auto simp: select_after_def split: option.splits sum.splits)

lemma create_article_users: "create_article coll now data d = (r, d') \<Longrightarrow> users d' = users d"
  by (auto simp: create_article_def Let_def split: if_splits elim: select_after_users)

lemma update_article_users: "update_article coll now i data v d = (r, d') \<Longrightarrow> users d' = users d"
  by (auto simp: update_article_def Let_def split: if_splits option.splits elim!: select_after_users)

lemma create_article_outcome:
  assumes "create_article coll now data d = (r, d')" and "db_ok d" and "cd_authorId data \<in> user_ids d"
    and "\<And>e. r = Inl e \<Longrightarrow> \<not> isSlugConflict e"
  obtains x a where "r = Inr x" "a \<in> set (articles d')" "a_slug a = ar_slug x" "a_authorId a = cd_authorId data"
proof (cases "cd_slug data \<in> a_slug ` set (articles d)")
  case True
  then show ?thesis using assms by (auto simp: create_article_def isSlugConflict_def)
next
  case False
  show ?thesis
    by (rule create_article_Inr [OF assms(2,3) False, of coll now]) (use assms(1) that in fastforce)
qed


definition rival :: "nat \<Rightarrow> db \<Rightarrow> db" where
  "rival i d = (if i = 1 then snd (create_article (\<lambda>t. t) 3 \<lparr>cd_slug = js ''hi'', cd_title = js ''hi'',
     cd_description = [], cd_body = [], cd_authorId = 2, cd_tags = []\<rparr> d) else d)"

lemma rival_keeps: "db_ok d \<and> uid \<in> user_ids d \<Longrightarrow> db_ok (rival i d) \<and> uid \<in> user_ids (rival i d)"
  using db_ok_create_article create_article_users unfolding rival_def user_ids_def
  by (smt (verit) prod.collapse)


section \<open>Updating and removing\<close>

lemma select_after_articles:
  "select_after coll v i before after = (r, d') \<Longrightarrow> articles d' = articles after \<or> articles d' = articles before"
  by (auto simp: select_after_def split: option.splits sum.splits)

lemma create_article_keeps:
  "create_article coll now data d = (r, d') \<Longrightarrow> a \<in> set (articles d) \<Longrightarrow> a \<in> set (articles d')"
  by (auto simp: create_article_def Let_def split: if_splits dest!: select_after_articles)

lemma mem_upd_other: "a \<in> set rows \<Longrightarrow> \<not> P a \<Longrightarrow> a \<in> set (upd_where P f rows)"
  by (induction rows) auto

lemma mem_upd_hit: "a \<in> set rows \<Longrightarrow> P a \<Longrightarrow> f a \<in> set (upd_where P f rows)"
  by (induction rows) auto

lemma update_article_keeps:
  assumes "update_article coll now i data v d = (r, d')" and "a \<in> set (articles d)" and "a_id a \<noteq> i"
  shows "a \<in> set (articles d')"
  using assms mem_upd_other [OF assms(2), of "\<lambda>a. a_id a = i" "apply_article_update now data"]
  by (auto simp: update_article_def Let_def split: if_splits option.splits dest!: select_after_articles)

lemma delete_article_keeps:
  assumes "delete_article i d = (r, d')" and "a \<in> set (articles d)" and "a_id a \<noteq> i"
  shows "a \<in> set (articles d')"
  using assms by (auto simp: delete_article_def split: if_splits)

lemma requireOwnedArticle_cases:
  obtains (missing) "by_slug slug d = None"
      "requireOwnedArticle uid slug d = Inl (NotFoundException (I18n ''common.error.articleNotFound''))"
  | (foreign) a where "by_slug slug d = Some a" "a_authorId a \<noteq> uid"
      "requireOwnedArticle uid slug d = Inl (ForbiddenException (I18n ''common.error.articleForbidden''))"
  | (owned) a where "by_slug slug d = Some a" "a_authorId a = uid" "a \<in> set (articles d)" "a_slug a = slug"
      "requireOwnedArticle uid slug d = Inr (articleIdentitySelect a)"
proof (cases "by_slug slug d")
  case None
  then show ?thesis using missing by (simp add: requireOwnedArticle_def findIdentityBySlug_def)
next
  case (Some a)
  then have "a \<in> set (articles d)" "a_slug a = slug" using find_SomeD unfolding by_slug_def by fast+
  with Some show ?thesis using foreign [of a] owned [of a]
    by (cases "a_authorId a = uid")
      (simp_all add: requireOwnedArticle_def findIdentityBySlug_def articleIdentitySelect_def)
qed

lemma ids_differ: "db_ok d \<Longrightarrow> a \<in> set (articles d) \<Longrightarrow> b \<in> set (articles d) \<Longrightarrow> a \<noteq> b \<Longrightarrow> a_id a \<noteq> a_id b"
  using db_okD(2) uniqD [of a_id "articles d" a b] unfolding articles_ok_def by blast

lemma keeps_other:
  assumes "db_ok d \<and> a \<in> set (articles d)"
  shows "a_id a \<noteq> i \<Longrightarrow> db_ok (snd (update_article coll now i udata v d)) \<and> a \<in> set (articles (snd (update_article coll now i udata v d)))"
    and "a_id a \<noteq> i \<Longrightarrow> db_ok (snd (delete_article i d)) \<and> a \<in> set (articles (snd (delete_article i d)))"
    and "db_ok (snd (create_article coll now cdata d)) \<and> a \<in> set (articles (snd (create_article coll now cdata d)))"
  using assms db_ok_update_article update_article_keeps db_ok_delete_article delete_article_keeps
    db_ok_create_article create_article_keeps by (metis prod.collapse)+

text \<open>What the raw writes and the interference keep, the operations keep.\<close>

lemma execute_keeps:
  assumes "\<And>i d. P d \<Longrightarrow> P (sched i d)" and "\<And>slug d. P d \<Longrightarrow> P (snd (w slug d))" and "P d"
  shows "P (snd (execute uc t w ex sched d))"
proof -
  obtain r d' where run: "execute uc t w ex sched d = (r, d')" by fastforce
  have "P d'"
    using execute_outcome [where P = P and sched = sched, OF assms(1) _ assms(3) run] assms(2)
    by (metis snd_conv)
  with run show ?thesis by simp
qed

lemma createArticle_keeps:
  assumes "\<And>i d. P d \<Longrightarrow> P (sched i d)"
    and "\<And>data d. P d \<Longrightarrow> P (snd (create_article (ae_collation env) now data d))" and "P (app_db s)"
  shows "P (app_db (snd (createArticle env now sched uid dto s)))"
proof -
  have lp: "P (snd (execute uc t (\<lambda>slug. create_article (ae_collation env) now (f slug)) ex sched (app_db s)))"
    for uc t ex f
    by (rule execute_keeps [where P = P, OF assms(1) assms(2) assms(3)])
  obtain r d' where run: "execute (ae_unicode env) (trim (ca_title dto))
      (\<lambda>slug. create_article (ae_collation env) now
          \<lparr>cd_slug = slug, cd_title = trim (ca_title dto), cd_description = trim (ca_description dto),
           cd_body = ca_body dto, cd_authorId = uid,
           cd_tags = normalizeTags (ae_unicode env) (case ca_tagList dto of None \<Rightarrow> [] | Some ts \<Rightarrow> ts)\<rparr>)
      None sched (app_db s) = (r, d')" by fastforce
  then have "P d'" using lp by (metis (no_types) snd_conv)
  then show ?thesis by (cases r) (simp_all add: createArticle_def Let_def run)
qed

lemma updateArticle_keeps:
  assumes sched: "\<And>i d. P d \<Longrightarrow> P (sched i d)" and d: "P d"
    and wr: "\<And>b data v d1. by_slug slug (sched 0 d) = Some b \<Longrightarrow> a_authorId b = uid \<Longrightarrow> P d1 \<Longrightarrow>
       P (snd (update_article (ae_collation env) now (a_id b) data v d1))"
  shows "P (snd (updateArticle env now sched uid slug dto d))"
proof -
  have d0: "P (sched 0 d)" using sched d .
  show ?thesis
  proof (cases rule: requireOwnedArticle_cases [of slug "sched 0 d" uid])
    case (owned b)
    then have w: "P (snd (update_article (ae_collation env) now (a_id b) data v d1))" if "P d1" for data v d1
      using wr that by blast
    have "P (snd (execute uc t (\<lambda>newSlug. update_article (ae_collation env) now (a_id b) (f newSlug) v) ex
        (\<lambda>i. sched (Suc i)) (sched 0 d)))" for uc t f v ex
      by (rule execute_keeps [where P = P and sched = "\<lambda>i. sched (Suc i)", OF sched w d0])
    moreover have "P (snd (update_article (ae_collation env) now (a_id b) data v (sched 1 (sched 0 d))))" for data v
      by (rule w [OF sched [OF d0]])
    ultimately have "P (snd (if map_option trim (ua_title dto) \<noteq> None
          \<and> map_option trim (ua_title dto) \<noteq> Some (ai_title (articleIdentitySelect b))
        then execute (ae_unicode env) (the (map_option trim (ua_title dto)))
               (\<lambda>newSlug. update_article (ae_collation env) now (a_id b)
                  ((update_data_of (ae_unicode env) dto)\<lparr>ud_slug := Some newSlug\<rparr>) (Some uid))
               (Some (a_id b)) (\<lambda>i. sched (Suc i)) (sched 0 d)
        else update_article (ae_collation env) now (a_id b) (update_data_of (ae_unicode env) dto) (Some uid)
               (sched 1 (sched 0 d))))" (is "P (snd ?w)") by (simp only: simp_thms split: if_split)
    moreover have "updateArticle env now sched uid slug dto d =
        (if \<not> hasEffectiveUpdate dto
         then (Inl (UnprocessableEntityException (I18n ''common.error.emptyArticleUpdate'')), sched 0 d)
         else case ?w of (Inl e, d') \<Rightarrow> (Inl e, d') | (Inr x, d') \<Rightarrow> (Inr (toResponse (ae_s3 env) x), d'))"
      by (simp only: updateArticle_def Let_def owned(5) sum.case articleIdentitySelect_def article_identity.simps)
    ultimately show ?thesis
      using d0 by (cases ?w) (simp split: sum.splits del: if_split_asm)
  qed (use d0 in \<open>simp_all add: updateArticle_def Let_def\<close>)
qed

lemma removeArticle_keeps:
  assumes sched: "\<And>i d. P d \<Longrightarrow> P (sched i d)" and d: "P d"
    and wr: "\<And>b d1. by_slug slug (sched 0 d) = Some b \<Longrightarrow> a_authorId b = uid \<Longrightarrow> P d1 \<Longrightarrow>
       P (snd (delete_article (a_id b) d1))"
  shows "P (snd (removeArticle sched uid slug d))"
proof -
  have d0: "P (sched 0 d)" using sched d .
  show ?thesis
  proof (cases rule: requireOwnedArticle_cases [of slug "sched 0 d" uid])
    case (owned b)
    then show ?thesis
      using wr [OF owned(1,2) sched [OF d0]] by (simp add: removeArticle_def Let_def articleIdentitySelect_def)
  qed (use d0 in \<open>simp_all add: removeArticle_def Let_def\<close>)
qed

text \<open>C8: Nobody but its author can change or remove an article, or break a constraint: as long as all other
  requests leave the article in place while this one runs, a creation, an update or a removal requested by
  another user leaves it in place too, whatever slug it names and however the requests interleave.\<close>

theorem only_the_author_touches_an_article:
  assumes "db_ok d" and "a \<in> set (articles d)" and "a_authorId a \<noteq> uid"
    and sched: "\<And>i d. db_ok d \<and> a \<in> set (articles d) \<Longrightarrow> db_ok (sched i d) \<and> a \<in> set (articles (sched i d))"
  shows "db_ok (snd (updateArticle env now sched uid slug dto d))
     \<and> a \<in> set (articles (snd (updateArticle env now sched uid slug dto d)))
     \<and> db_ok (snd (removeArticle sched uid slug d)) \<and> a \<in> set (articles (snd (removeArticle sched uid slug d)))
     \<and> a \<in> set (articles (app_db (snd (createArticle env now sched uid cdto \<lparr>app_db = d, app_bus = bus0\<rparr>))))"
proof -
  let ?P = "\<lambda>d. db_ok d \<and> a \<in> set (articles d)"
  have d: "?P d" using assms(1,2) by blast
  have other: "a_id a \<noteq> a_id b" if "by_slug slug (sched 0 d) = Some b" "a_authorId b = uid" for b
    using that ids_differ [of "sched 0 d" a b] sched [OF d, of 0] by_slug_iff assms(3) by blast
  have "?P (snd (updateArticle env now sched uid slug dto d))"
    by (rule updateArticle_keeps [where P = ?P and sched = sched])
      ((rule sched, assumption) | rule d | (rule keeps_other(1), assumption, erule other, assumption))+
  moreover have "?P (snd (removeArticle sched uid slug d))"
    by (rule removeArticle_keeps [where P = ?P and sched = sched])
      ((rule sched, assumption) | rule d | (rule keeps_other(2), assumption, erule other, assumption))+
  moreover have "?P (app_db (snd (createArticle env now sched uid cdto \<lparr>app_db = d, app_bus = bus0\<rparr>)))"
    by (rule createArticle_keeps [where P = ?P and sched = sched])
      ((rule sched, assumption) | (rule keeps_other(3), assumption) | (use d in simp))+
  ultimately show ?thesis by blast
qed

definition demo_article :: article where
  "demo_article = \<lparr>a_id = 1, a_slug = js ''hi'', a_title = js ''Hi'', a_description = [], a_body = js ''b'',
     a_createdAt = 1, a_updatedAt = 1, a_authorId = 1\<rparr>"

definition demo_article_db :: db where
  "demo_article_db = demo_db\<lparr>articles := [demo_article], tags := [\<lparr>t_id = 1, t_name = js ''x''\<rparr>],
     articleTags := [(1, 1)], userFollows := [(2, 1)]\<rparr>"

definition demo_article_env :: article_env where
  "demo_article_env = \<lparr>ae_unicode = ascii_unicode, ae_collation = (\<lambda>t. t), ae_s3 = demo_s3,
     ae_kafka = (\<lambda>_ _. Delivered)\<rparr>"

lemma demo_article_db_ok: "db_ok demo_article_db"
  by (simp add: db_ok_def ok_defs demo_article_db_def demo_article_def demo_db_def demo_user_def empty_db_def)

theorem only_the_author_touches_an_article_witness:
  "demo_article \<in> set (articles (snd (removeArticle (\<lambda>_ d. d) 2 (js ''hi'') demo_article_db)))"
proof -
  have "demo_article \<in> set (articles demo_article_db)" "a_authorId demo_article \<noteq> 2"
    by (simp_all add: demo_article_db_def demo_article_def)
  from only_the_author_touches_an_article [OF demo_article_db_ok this, of "\<lambda>_ d. d"] show ?thesis by blast
qed

lemma update_article_Inr:
  assumes ok: "db_ok d" and a: "a \<in> set (articles d)"
    and free: "\<And>s. ud_slug data = Some s \<Longrightarrow> s \<notin> taken_slugs (Some (a_id a)) d"
  obtains r d' where "update_article coll now (a_id a) data v d = (Inr r, d')" "db_ok d'"
    "buildArticleSelect coll v d' (apply_article_update now data a) = Inr r"
    "articles d' = upd_where (\<lambda>b. a_id b = a_id a) (apply_article_update now data) (articles d)"
    "cmts d' = cmts d" "userFavorites d' = userFavorites d"
    "\<And>j. set (tag_names j d') = (case ud_tags data of Some ns \<Rightarrow> if j = a_id a then set ns else set (tag_names j d)
        | None \<Rightarrow> set (tag_names j d))"
proof -
  let ?d1 = "d\<lparr>articles := upd_where (\<lambda>b. a_id b = a_id a) (apply_article_update now data) (articles d)\<rparr>"
  let ?d0 = "?d1\<lparr>articleTags := del_where (\<lambda>e. fst e = a_id a) (articleTags ?d1)\<rparr>"
  let ?d2 = "case ud_tags data of None \<Rightarrow> ?d1 | Some ns \<Rightarrow> connectOrCreate (a_id a) ns ?d0"
  have fa: "find_article (a_id a) d = Some a" using ok a by (simp add: find_article_iff)
  have nl: "\<not> list_ex (\<lambda>b. a_id b \<noteq> a_id a \<and> Some (a_slug b) = ud_slug data) (articles d)"
  proof
    assume "list_ex (\<lambda>b. a_id b \<noteq> a_id a \<and> Some (a_slug b) = ud_slug data) (articles d)"
    then obtain b where "b \<in> set (articles d)" "a_id b \<noteq> a_id a" "ud_slug data = Some (a_slug b)"
      by (auto simp: list_ex_iff)
    then show False using free [of "a_slug b"] by (simp add: taken_slugs_def)
  qed
  then have free2: "\<forall>b \<in> set (articles d). a_id b \<noteq> a_id a \<longrightarrow> Some (a_slug b) \<noteq> ud_slug data"
    by (auto simp: list_ex_iff)
  have run: "update_article coll now (a_id a) data v d = select_after coll v (a_id a) d ?d2"
    using fa nl by (simp add: update_article_def Let_def)
  have d1: "db_ok ?d1"
    by (rule db_ok_put_articles [OF ok]) (simp_all add: map_key_upd_where articles_ok_update [OF ok free2])
  have edges: "edges_ok ?d0"
    using db_okD(8) [OF d1] by (auto simp: edges_ok_def article_ids_def user_ids_def del_where_def)
  have d0: "db_ok ?d0" by (rule db_ok_put(7) [OF d1 edges])
  have mem: "apply_article_update now data a \<in> set (articles ?d1)"
    using mem_upd_hit [OF a, of "\<lambda>b. a_id b = a_id a"] by simp
  have i: "a_id a \<in> article_ids ?d0"
    using a ids_upd_article [of "\<lambda>b. a_id b = a_id a" now data "articles d"] by (simp add: article_ids_def)
  have d2: "db_ok ?d2" using d1 db_ok_connectOrCreate [OF d0 i] by (simp split: option.splits)
  have as: "articles ?d2 = articles ?d1" by (simp split: option.splits)
  obtain r where r: "select_after coll v (a_id a) d ?d2 = (Inr r, ?d2)"
      "buildArticleSelect coll v ?d2 (apply_article_update now data a) = Inr r"
    by (rule select_after_ok [OF d2, of "apply_article_update now data a" "a_id a" coll v d])
      (use mem as in simp_all)
  have "set (tag_names j ?d0) = (if j = a_id a then {} else set (tag_names j d))" for j
    by (auto simp: set_tag_names)
  then have "set (tag_names j ?d2) = (case ud_tags data of
      Some ns \<Rightarrow> if j = a_id a then set ns else set (tag_names j d) | None \<Rightarrow> set (tag_names j d))" for j
    using connectOrCreate_names [OF d0 i] by (simp add: set_tag_names split: option.splits)
  then show ?thesis
    using that [of r ?d2] run r d2 as by (simp split: option.splits)
qed

text \<open>What an effective update leaves of an article: the given fields, the slug of a changed title.\<close>

definition updated_article :: "unicode \<Rightarrow> int \<Rightarrow> update_dto \<Rightarrow> db \<Rightarrow> article \<Rightarrow> article" where
  "updated_article uc now dto d a = a\<lparr>
     a_slug := (case ua_title dto of None \<Rightarrow> a_slug a
       | Some t \<Rightarrow> if trim t = a_title a then a_slug a else createCandidate uc (trim t) (Some (a_id a)) d),
     a_title := (case ua_title dto of None \<Rightarrow> a_title a | Some t \<Rightarrow> trim t),
     a_description := (case ua_description dto of None \<Rightarrow> a_description a | Some t \<Rightarrow> trim t),
     a_body := (case ua_body dto of None \<Rightarrow> a_body a | Some t \<Rightarrow> t),
     a_updatedAt := (if ua_title dto = None \<and> ua_description dto = None \<and> ua_body dto = None
         then a_updatedAt a else now)\<rparr>"

lemma updateArticle_quiet:
  assumes ok: "db_ok d" and a: "by_slug slug d = Some a" "a_authorId a = uid" and eff: "hasEffectiveUpdate dto"
  obtains data where "updateArticle env now (\<lambda>_ d. d) uid slug dto d =
       (case update_article (ae_collation env) now (a_id a) data (Some uid) d of
          (Inl e, d') \<Rightarrow> (Inl e, d') | (Inr x, d') \<Rightarrow> (Inr (toResponse (ae_s3 env) x), d'))"
    "apply_article_update now data a = updated_article (ae_unicode env) now dto d a"
    "\<And>s. ud_slug data = Some s \<Longrightarrow> s \<notin> taken_slugs (Some (a_id a)) d"
    "ud_tags data = map_option (normalizeTags (ae_unicode env)) (ua_tagList dto)"
proof -
  let ?uc = "ae_unicode env" and ?id = "articleIdentitySelect a"
  let ?base = "update_data_of ?uc dto" and ?t = "map_option trim (ua_title dto)"
  have own: "requireOwnedArticle uid slug d = Inr ?id"
    using a by (simp add: requireOwnedArticle_def findIdentityBySlug_def articleIdentitySelect_def)
  have am: "a \<in> set (articles d)" using by_slug_iff [OF ok] a(1) by blast
  show ?thesis
  proof (cases "?t \<noteq> None \<and> ?t \<noteq> Some (a_title a)")
    case True
    then obtain t where t: "ua_title dto = Some t" "trim t \<noteq> a_title a" by auto
    let ?c = "createCandidate ?uc (trim t) (Some (a_id a)) d"
    let ?data = "?base\<lparr>ud_slug := Some ?c\<rparr>"
    have free: "s \<notin> taken_slugs (Some (a_id a)) d" if "ud_slug ?data = Some s" for s
      using that createCandidate_not_taken by auto
    obtain r d' where w: "update_article (ae_collation env) now (a_id a) ?data (Some uid) d = (Inr r, d')"
      by (rule update_article_Inr [OF ok am free]) blast+
    have "execute ?uc (trim t) (\<lambda>newSlug. update_article (ae_collation env) now (a_id a)
        (?base\<lparr>ud_slug := Some newSlug\<rparr>) (Some uid)) (Some (a_id a)) (\<lambda>_ d. d) d = (Inr r, d')"
      by (rule execute_first) (use w in simp_all)
    then have "updateArticle env now (\<lambda>_ d. d) uid slug dto d = (Inr (toResponse (ae_s3 env) r), d')"
      using own eff t by (simp add: updateArticle_def articleIdentitySelect_def)
    moreover have "apply_article_update now ?data a = updated_article ?uc now dto d a"
      using t by (simp add: apply_article_update_def updated_article_def update_data_of_def split: option.splits)
    ultimately show ?thesis
      by (intro that [of ?data]) (use w free in \<open>simp_all add: update_data_of_def\<close>)
  next
    case False
    then have "updateArticle env now (\<lambda>_ d. d) uid slug dto d =
       (case update_article (ae_collation env) now (a_id a) ?base (Some uid) d of
          (Inl e, d') \<Rightarrow> (Inl e, d') | (Inr x, d') \<Rightarrow> (Inr (toResponse (ae_s3 env) x), d'))"
      using own eff by (auto simp: updateArticle_def articleIdentitySelect_def)
    moreover have "apply_article_update now ?base a = updated_article ?uc now dto d a"
      using False by (auto simp: apply_article_update_def updated_article_def update_data_of_def split: option.splits)
    ultimately show ?thesis by (intro that [of ?base]) (simp_all add: update_data_of_def)
  qed
qed

text \<open>C19: What an effective update by the author does, undisturbed: the article gets the given fields (trimmed
  title and description), the time of the update unless only tags change, and the normalised tags; its URL changes only when the title
  does, to the first free slug of the new title; nothing else in the tables changes, neither another article
  or its tags nor a comment nor a favourite; and the response is what a read at the slug then returns.\<close>

theorem update_by_the_author:
  assumes "db_ok d" and "by_slug slug d = Some a" and "a_authorId a = uid" and "hasEffectiveUpdate dto"
  shows "\<exists>resp d'. updateArticle env now (\<lambda>_ d. d) uid slug dto d = (Inr resp, d') \<and> db_ok d'
     \<and> articles d' = upd_where (\<lambda>b. a_id b = a_id a) (\<lambda>_. updated_article (ae_unicode env) now dto d a) (articles d)
     \<and> (\<forall>j. set (tag_names j d') = (case ua_tagList dto of
          Some ts \<Rightarrow> if j = a_id a then set (normalizeTags (ae_unicode env) ts) else set (tag_names j d)
        | None \<Rightarrow> set (tag_names j d)))
     \<and> cmts d' = cmts d \<and> userFavorites d' = userFavorites d
     \<and> getBySlug env (a_slug (updated_article (ae_unicode env) now dto d a)) (Some uid) d' = Inr resp"
proof -
  let ?a' = "updated_article (ae_unicode env) now dto d a"
  have am: "a \<in> set (articles d)" using by_slug_iff assms(1,2) by blast
  obtain data where upd: "updateArticle env now (\<lambda>_ d. d) uid slug dto d =
       (case update_article (ae_collation env) now (a_id a) data (Some uid) d of
          (Inl e, d') \<Rightarrow> (Inl e, d') | (Inr x, d') \<Rightarrow> (Inr (toResponse (ae_s3 env) x), d'))"
    and data: "apply_article_update now data a = ?a'"
      "\<And>s. ud_slug data = Some s \<Longrightarrow> s \<notin> taken_slugs (Some (a_id a)) d"
      "ud_tags data = map_option (normalizeTags (ae_unicode env)) (ua_tagList dto)"
    by (rule updateArticle_quiet [OF assms, of env now]) (rule that)
  obtain r d' where w: "update_article (ae_collation env) now (a_id a) data (Some uid) d = (Inr r, d')" "db_ok d'"
      "buildArticleSelect (ae_collation env) (Some uid) d' (apply_article_update now data a) = Inr r"
    and eff: "articles d' = upd_where (\<lambda>b. a_id b = a_id a) (apply_article_update now data) (articles d)"
      "cmts d' = cmts d" "userFavorites d' = userFavorites d"
      "\<And>j. set (tag_names j d') = (case ud_tags data of Some ns \<Rightarrow> if j = a_id a then set ns else set (tag_names j d)
        | None \<Rightarrow> set (tag_names j d))"
    by (rule update_article_Inr [where data = data and coll = "ae_collation env" and now = now
          and v = "Some uid", OF assms(1) am]) (use data(2) in blast)+
  have "b = a" if "b \<in> set (articles d)" "a_id b = a_id a" for b
    using that ids_differ [OF assms(1) _ am] by blast
  then have as: "articles d' = upd_where (\<lambda>b. a_id b = a_id a) (\<lambda>_. ?a') (articles d)"
    unfolding eff(1) data(1) [symmetric] upd_where_def by (intro map_cong) auto
  have "?a' \<in> set (articles d')"
    using mem_upd_hit [OF am, of "\<lambda>b. a_id b = a_id a" "\<lambda>_. ?a'"] by (simp add: as)
  from getBySlug_select [OF w(2) this w(3) [unfolded data(1)]]
  show ?thesis using upd w(1,2) as eff(2-4) data(3) by (simp split: option.splits)
qed

theorem update_by_the_author_witness:
  "\<exists>resp d'. updateArticle demo_article_env 9 (\<lambda>_ d. d) 1 (js ''hi'')
       \<lparr>ua_title = None, ua_description = None, ua_body = Some (js ''new''), ua_tagList = Some []\<rparr> demo_article_db = (Inr resp, d')
     \<and> articles d' = [demo_article\<lparr>a_body := js ''new'', a_updatedAt := 9\<rparr>] \<and> set (tag_names 1 d') = {}
     \<and> getBySlug demo_article_env (js ''hi'') (Some 1) d' = Inr resp"
proof -
  let ?dto = "\<lparr>ua_title = None, ua_description = None, ua_body = Some (js ''new''), ua_tagList = Some []\<rparr>"
  have "by_slug (js ''hi'') demo_article_db = Some demo_article" "a_authorId demo_article = 1"
      "hasEffectiveUpdate ?dto"
    by (simp_all add: by_slug_def demo_article_db_def demo_article_def hasEffectiveUpdate_def)
  moreover have "updated_article u 9 ?dto demo_article_db demo_article = demo_article\<lparr>a_body := js ''new'', a_updatedAt := 9\<rparr>" for u
    by (simp add: updated_article_def demo_article_def)
  moreover have "articles demo_article_db = [demo_article]" "a_id demo_article = 1" "a_slug demo_article = js ''hi''"
    by (simp_all add: demo_article_db_def demo_article_def)
  moreover have "normalizeTags (ae_unicode demo_article_env) [] = []" by (simp add: normalizeTags_def js_unique_def)
  ultimately show ?thesis
    using update_by_the_author [OF demo_article_db_ok, of "js ''hi''" demo_article 1 ?dto demo_article_env 9]
    by (auto split: if_split_asm)
qed

text \<open>Removing an article takes its comments, its tags' links and its favourites along and nothing else: the
  slug answers 404 afterwards, every other article and comment stays, and all references are intact.\<close>

theorem removed_article_is_gone:
  assumes "db_ok d" and "by_slug slug d = Some a" and "a_authorId a = uid"
  shows "case removeArticle (\<lambda>_ d. d) uid slug d of (r, d') \<Rightarrow> r = Inr () \<and> db_ok d'
     \<and> getBySlug env slug v d' = Inl (NotFoundException (I18n ''common.error.articleNotFound''))
     \<and> set (articles d') = set (articles d) - {a}
     \<and> set (cmts d') = {c \<in> set (cmts d). c_articleId c \<noteq> a_id a}
     \<and> favoriters (a_id a) d' = [] \<and> tag_names (a_id a) d' = []
     \<and> users d' = users d \<and> tags d' = tags d"
proof -
  have am: "a \<in> set (articles d)" "a_slug a = slug" using by_slug_iff [OF assms(1)] assms(2) by blast+
  then have fa: "find_article (a_id a) d = Some a" using assms(1) by (simp add: find_article_iff)
  obtain r d' where del: "delete_article (a_id a) d = (r, d')" by fastforce
  have ok: "db_ok d'" by (rule db_ok_delete_article [OF del assms(1)])
  have run: "removeArticle (\<lambda>_ d. d) uid slug d = (r, d')"
    using assms(2,3) del
    by (simp add: removeArticle_def requireOwnedArticle_def findIdentityBySlug_def articleIdentitySelect_def)
  have d': "r = Inr ()" "articles d' = del_where (\<lambda>b. a_id b = a_id a) (articles d)"
      "set (cmts d') = {c \<in> set (cmts d). c_articleId c \<noteq> a_id a}" "favoriters (a_id a) d' = []"
      "tag_names (a_id a) d' = []" "users d' = users d" "tags d' = tags d"
    using del fa by (auto simp: delete_article_def favoriters_def tag_names_def filter_empty_conv)
  have "set (articles d') = set (articles d) - {a}"
    using ids_differ [OF assms(1) _ am(1)] am(1) unfolding d'(2) by auto
  moreover from this have "by_slug slug d' = None"
    using by_slug_iff [OF ok, of slug] by_slug_iff [OF assms(1), of slug] assms(2)
    by (metis Diff_iff not_None_eq option.inject singletonI)
  then have "getBySlug env slug v d' = Inl (NotFoundException (I18n ''common.error.articleNotFound''))"
    by (simp add: getBySlug_def findBySlug_def)
  ultimately show ?thesis using run ok d' by simp
qed

theorem removed_article_is_gone_witness:
  "case removeArticle (\<lambda>_ d. d) 1 (js ''hi'') demo_article_db of (r, d') \<Rightarrow> r = Inr () \<and> db_ok d' \<and> articles d' = []"
proof -
  have "by_slug (js ''hi'') demo_article_db = Some demo_article" "a_authorId demo_article = 1"
    by (simp_all add: by_slug_def demo_article_db_def demo_article_def)
  from removed_article_is_gone [OF demo_article_db_ok this] show ?thesis
    by (simp add: demo_article_db_def case_prod_beta)
qed

section \<open>Listings\<close>

lemma collect_Inr:
  "(\<And>x. x \<in> set rows \<Longrightarrow> f x = Inr (g x)) \<Longrightarrow> collect (map f rows) = Inr (map g rows)"
  by (induction rows) auto

definition selected :: "(jstr \<Rightarrow> jstr) \<Rightarrow> nat option \<Rightarrow> db \<Rightarrow> article \<Rightarrow> article_record" where
  "selected coll v d a = (case buildArticleSelect coll v d a of Inr r \<Rightarrow> r | Inl _ \<Rightarrow> undefined)"

lemma select_selected:
  "db_ok d \<Longrightarrow> a \<in> set (articles d) \<Longrightarrow> buildArticleSelect coll v d a = Inr (selected coll v d a)"
  using select_ok [of d a coll v] by (metis selected_def sum.case(2))

lemma page_of_quiet:
  assumes ok: "db_ok d" and scan: "permutes scan"
  shows "\<exists>rows meta. paginate scan articleListOrderBy (filter (wh d) (articles d)) (filter (wh d) (articles d))
       (Some page) (Some limit) = (rows, meta)
     \<and> set rows \<subseteq> set (filter (wh d) (articles d))
     \<and> page_of coll scan wh v page limit d d = Inr (map (selected coll v d) rows, meta)"
proof -
  obtain rows meta where p: "paginate scan articleListOrderBy (filter (wh d) (articles d))
      (filter (wh d) (articles d)) (Some page) (Some limit) = (rows, meta)" by fastforce
  have "set (scan xs) = set xs" for xs using scan by (metis permutes_def set_mset_mset)
  then have sub: "set rows \<subseteq> set (filter (wh d) (articles d))"
    using p by (auto simp: paginate_def query_page_def Let_def dest!: in_set_takeD in_set_dropD)
  then have "collect (map (buildArticleSelect coll v d) rows) = Inr (map (selected coll v d) rows)"
    by (intro collect_Inr select_selected [OF ok]) auto
  with p sub show ?thesis by (auto simp: page_of_def)
qed

lemma author_filter:
  assumes "db_ok d" and "a \<in> set (articles d)"
    and "list_ex (\<lambda>u. u_id u = a_authorId a \<and> u_username u = n) (users d)"
  shows "au_username (ar_author (selected coll v d a)) = n"
proof -
  obtain u where u: "u \<in> set (users d)" "u_id u = a_authorId a" "u_username u = n"
    using assms(3) by (auto simp: list_ex_iff)
  then have "find_user (a_authorId a) d = Some u"
    using find_user_Some [OF db_okD(1) [OF assms(1)]] by blast
  with select_fields(11) [OF select_selected [OF assms(1,2), of coll v]] u(3) show ?thesis by auto
qed



text \<open>C18: The feed of a user is made of exactly the articles whose author the user follows: the total counts them
  all, and every article shown is marked as by a followed author.\<close>

theorem feed_shows_followed_authors:
  assumes ok: "db_ok d" and scan: "permutes scan"
  shows "\<exists>resps meta. feed env scan uid page limit d d = Inr (resps, meta)
     \<and> pm_total meta = count_where (\<lambda>a. (uid, a_authorId a) \<in> set (userFollows d)) (articles d)
     \<and> (\<forall>r \<in> set resps. as_following (rs_author r))
     \<and> rs_slug ` set resps \<subseteq> a_slug ` {a \<in> set (articles d). (uid, a_authorId a) \<in> set (userFollows d)}"
proof -
  let ?c = "ae_collation env"
  have fol: "in_feed uid d a \<longleftrightarrow> (uid, a_authorId a) \<in> set (userFollows d)" for a
    by (force simp: in_feed_def followers_def)
  obtain rows meta where p: "paginate scan articleListOrderBy (filter (in_feed uid d) (articles d))
      (filter (in_feed uid d) (articles d)) (Some (case page of Some p \<Rightarrow> p | None \<Rightarrow> DEFAULT_PAGE))
      (Some (case limit of Some l \<Rightarrow> l | None \<Rightarrow> DEFAULT_LIMIT)) = (rows, meta)"
    and sub: "set rows \<subseteq> set (filter (in_feed uid d) (articles d))"
    and run: "page_of ?c scan (in_feed uid) (Some uid) (case page of Some p \<Rightarrow> p | None \<Rightarrow> DEFAULT_PAGE)
      (case limit of Some l \<Rightarrow> l | None \<Rightarrow> DEFAULT_LIMIT) d d = Inr (map (selected ?c (Some uid) d) rows, meta)"
    using page_of_quiet [OF ok scan, of "in_feed uid"] by metis
  have "feed env scan uid page limit d d = Inr (map (\<lambda>a. toResponse (ae_s3 env) (selected ?c (Some uid) d a)) rows, meta)"
    using run by (simp add: feed_def listFeedPaginated_def toResponseList_def o_def)
  moreover have "pm_total meta = count_where (\<lambda>a. (uid, a_authorId a) \<in> set (userFollows d)) (articles d)"
    using p arg_cong [where f = "\<lambda>P. length (filter P (articles d))", OF ext [of "in_feed uid d", OF fol]]
    by (auto simp: paginate_def Let_def buildPaginationMeta_def count_where_def)
  moreover have "as_following (rs_author (toResponse (ae_s3 env) (selected ?c (Some uid) d a)))
      \<and> rs_slug (toResponse (ae_s3 env) (selected ?c (Some uid) d a)) = a_slug a \<and> a \<in> set (articles d)
      \<and> (uid, a_authorId a) \<in> set (userFollows d)" if "a \<in> set rows" for a
  proof -
    have am: "a \<in> set (articles d)" and f: "in_feed uid d a" using sub that by auto
    note fields = select_fields [OF select_selected [OF ok am, of ?c "Some uid"]]
    have "uid \<in> set (viewer_only (Some uid) (followers (a_authorId a) d))"
      using f by (simp add: in_feed_def viewer_only_def)
    then have "0 < length (au_followedBy (ar_author (selected ?c (Some uid) d a)))"
      unfolding fields(10) by (rule length_pos_if_in_set)
    then show ?thesis using fields(2) am f fol by (simp add: toResponse_def)
  qed
  ultimately show ?thesis by fastforce
qed

theorem feed_shows_followed_authors_witness:
  "\<exists>resps meta. feed demo_article_env rev 2 None None demo_article_db demo_article_db = Inr (resps, meta)
    \<and> pm_total meta = 1 \<and> (\<forall>r \<in> set resps. as_following (rs_author r))"
  using feed_shows_followed_authors [OF demo_article_db_ok, of rev demo_article_env 2 None None]
  by (auto simp: permutes_def demo_article_db_def demo_article_def)

end
