(* ===== verification/Comments.thy ===== *)
theory Comments
  imports Articles "HOL-Library.Product_Lexorder"
begin

text \<open>
  Comments (\<open>src/comments\<close>): the repository over the \<open>Comment\<close> table and the service in front of it. The
  body column is a \<open>VARCHAR(255)\<close>, which counts characters, not UTF-16 code units.
\<close>

section \<open>CommentsRepository\<close>

record comment_record =
  cr_id :: nat
  cr_createdAt :: int
  cr_updatedAt :: int
  cr_body :: jstr
  cr_author :: author_row

record comment_identity =
  ci_id :: nat
  ci_authorId :: nat

definition buildCommentSelect :: "nat option \<Rightarrow> db \<Rightarrow> cmt \<Rightarrow> thrown + comment_record" where
  "buildCommentSelect viewer d c = (case find_user (c_authorId c) d of
     None \<Rightarrow> Inl inconsistent_result
   | Some u \<Rightarrow> Inr \<lparr>cr_id = c_id c, cr_createdAt = c_createdAt c, cr_updatedAt = c_updatedAt c,
       cr_body = c_body c,
       cr_author = \<lparr>au_username = u_username u, au_bio = u_bio u, au_image = u_image u,
         au_followedBy = viewer_only viewer (followers (u_id u) d)\<rparr>\<rparr>)"

definition comment_order :: "cmt \<Rightarrow> int desc \<times> nat desc" where
  "comment_order c = (Desc (c_createdAt c), Desc (c_id c))"

definition listByArticleId ::
    "(cmt list \<Rightarrow> cmt list) \<Rightarrow> nat \<Rightarrow> nat option \<Rightarrow> db \<Rightarrow> thrown + comment_record list" where
  "listByArticleId scan aid viewer d =
     collect (map (buildCommentSelect viewer d)
       (sort_key comment_order (scan (filter (\<lambda>c. c_articleId c = aid) (cmts d)))))"

text \<open>Characters of a string: a surrogate pair is one.\<close>

fun characters :: "jstr \<Rightarrow> nat" where
  "characters [] = 0"
| "characters [c] = 1"
| "characters (c # e # s) =
     (if 55296 \<le> c \<and> c \<le> 56319 \<and> 56320 \<le> e \<and> e \<le> 57343 then Suc (characters s)
      else Suc (characters (e # s)))"

definition MAX_COMMENT_BODY_LENGTH :: nat where "MAX_COMMENT_BODY_LENGTH = 255"

definition create_comment :: "int \<Rightarrow> nat \<Rightarrow> nat \<Rightarrow> jstr \<Rightarrow> (thrown, comment_record, db) comp" where
  "create_comment now aid uid body d =
     (let c = \<lparr>c_id = seqs d MComment, c_createdAt = now, c_updatedAt = now, c_body = body,
               c_articleId = aid, c_authorId = uid\<rparr>;
          d' = (bump MComment d)\<lparr>cmts := cmts d @ [c]\<rparr>
      in if characters body > 255 then (Inl (PrismaKnown ''P2000'' TargetUndefined []), bump MComment d)
         else if aid \<notin> article_ids d \<or> uid \<notin> user_ids d
         then (Inl (PrismaKnown ''P2003'' TargetUndefined []), bump MComment d)
         else (case buildCommentSelect None d' c of Inl e \<Rightarrow> (Inl e, bump MComment d) | Inr r \<Rightarrow> (Inr r, d')))"

definition findIdentity :: "nat \<Rightarrow> nat \<Rightarrow> db \<Rightarrow> comment_identity option" where
  "findIdentity i aid d = map_option (\<lambda>c. \<lparr>ci_id = c_id c, ci_authorId = c_authorId c\<rparr>)
     (find (\<lambda>c. c_id c = i \<and> c_articleId c = aid) (cmts d))"

definition delete_comment :: "nat \<Rightarrow> (thrown, unit, db) comp" where
  "delete_comment i d =
     (if find (\<lambda>c. c_id c = i) (cmts d) = None then (Inl record_not_found, d)
      else (Inr (), d\<lparr>cmts := del_where (\<lambda>c. c_id c = i) (cmts d)\<rparr>))"

section \<open>CommentsService\<close>

record comment_response =
  cs_id :: nat
  cs_createdAt :: int
  cs_updatedAt :: int
  cs_body :: jstr
  cs_author :: author_response

definition commentToResponse :: "s3_env \<Rightarrow> comment_record \<Rightarrow> comment_response" where
  "commentToResponse s3 c = \<lparr>cs_id = cr_id c, cs_createdAt = cr_createdAt c, cs_updatedAt = cr_updatedAt c,
     cs_body = cr_body c,
     cs_author = \<lparr>as_username = au_username (cr_author c), as_bio = au_bio (cr_author c),
       as_image = publicUrl s3 (au_image (cr_author c)),
       as_following = (0 < length (au_followedBy (cr_author c)))\<rparr>\<rparr>"

definition commentsToResponseList :: "s3_env \<Rightarrow> comment_record list \<Rightarrow> comment_response list" where
  "commentsToResponseList s3 cs = map (commentToResponse s3) cs"

definition comment_requireArticle :: "jstr \<Rightarrow> db \<Rightarrow> thrown + article_identity" where
  "comment_requireArticle slug d = (case findIdentityBySlug slug d of
     None \<Rightarrow> Inl (NotFoundException (I18n ''common.error.articleNotFound''))
   | Some a \<Rightarrow> Inr a)"

definition listComments ::
    "s3_env \<Rightarrow> (cmt list \<Rightarrow> cmt list) \<Rightarrow> (nat \<Rightarrow> db \<Rightarrow> db) \<Rightarrow> jstr \<Rightarrow> nat option \<Rightarrow> db \<Rightarrow>
     thrown + comment_response list" where
  "listComments s3 scan sched slug viewer d = (case comment_requireArticle slug (sched 0 d) of
     Inl e \<Rightarrow> Inl e
   | Inr a \<Rightarrow> (case listByArticleId scan (ai_id a) viewer (sched 1 (sched 0 d)) of
        Inl e \<Rightarrow> Inl e
      | Inr cs \<Rightarrow> Inr (commentsToResponseList s3 cs)))"

definition createComment ::
    "s3_env \<Rightarrow> int \<Rightarrow> (nat \<Rightarrow> db \<Rightarrow> db) \<Rightarrow> nat \<Rightarrow> jstr \<Rightarrow> jstr \<Rightarrow> (thrown, comment_response, db) comp" where
  "createComment s3 now sched uid slug body d = (case comment_requireArticle slug (sched 0 d) of
     Inl e \<Rightarrow> (Inl e, sched 0 d)
   | Inr a \<Rightarrow> (case create_comment now (ai_id a) uid body (sched 1 (sched 0 d)) of
        (Inl e, d') \<Rightarrow> (Inl e, d')
      | (Inr c, d') \<Rightarrow> (Inr (commentToResponse s3 c), d')))"

definition removeComment ::
    "(nat \<Rightarrow> db \<Rightarrow> db) \<Rightarrow> nat \<Rightarrow> jstr \<Rightarrow> nat \<Rightarrow> (thrown, unit, db) comp" where
  "removeComment sched uid slug i d =
     (let d0 = sched 0 d; d1 = sched 1 d0
      in case comment_requireArticle slug d0 of
           Inl e \<Rightarrow> (Inl e, d0)
         | Inr a \<Rightarrow> (case findIdentity i (ai_id a) d1 of
              None \<Rightarrow> (Inl (NotFoundException (I18n ''common.error.commentNotFound'')), d1)
            | Some c \<Rightarrow>
                if ci_authorId c \<noteq> uid
                then (Inl (ForbiddenException (I18n ''common.error.commentForbidden'')), d1)
                else delete_comment (ci_id c) (sched 2 d1)))"

section \<open>Lemmas\<close>

lemma comments_ok_del: "comments_ok d \<Longrightarrow> comments_ok (d\<lparr>cmts := del_where P (cmts d)\<rparr>)"
  by (auto simp: comments_ok_def article_ids_def user_ids_def)

lemma db_ok_delete_comment [keeps]: "db_ok d \<Longrightarrow> db_ok (snd (delete_comment i d))"
  using db_ok_put(4) [OF _ comments_ok_del] db_okD(3) by (auto simp: delete_comment_def)

lemma comments_ok_add:
  assumes "comments_ok d" and "c_id c = seqs d MComment" and "c_articleId c \<in> article_ids d"
    and "c_authorId c \<in> user_ids d"
  shows "comments_ok ((bump MComment d)\<lparr>cmts := cmts d @ [c]\<rparr>)"
proof -
  have "\<forall>b \<in> set (cmts d). c_id b \<noteq> seqs d MComment" using assms(1) by (auto simp: comments_ok_def)
  then have "c_id c \<notin> c_id ` set (cmts d)" using assms(2) by (metis imageE)
  with assms show ?thesis
    by (simp add: comments_ok_def uniq_append1 article_ids_def user_ids_def less_SucI)
qed

lemma db_ok_create_comment [keeps]:
  assumes ok: "db_ok d"
  shows "db_ok (snd (create_comment now aid uid body d))"
proof -
  let ?c = "\<lparr>c_id = seqs d MComment, c_createdAt = now, c_updatedAt = now, c_body = body,
               c_articleId = aid, c_authorId = uid\<rparr>"
  have "db_ok ((bump MComment d)\<lparr>cmts := cmts d @ [?c]\<rparr>)" if "aid \<in> article_ids d" "uid \<in> user_ids d"
    using db_ok_put(4) [OF db_ok_bump [OF ok, of MComment]] comments_ok_add [OF db_okD(3) [OF ok], of ?c] that
    by simp
  then show ?thesis using db_ok_bump [OF ok, of MComment]
    by (simp add: create_comment_def Let_def split: sum.splits)
qed

lemma comment_author:
  assumes "db_ok d" and "c \<in> set (cmts d)"
  obtains u where "find_user (c_authorId c) d = Some u"
proof -
  have "\<forall>c \<in> set (cmts d). c_authorId c \<in> user_ids d"
    using db_okD(3) [OF assms(1)] by (simp add: comments_ok_def)
  then show ?thesis using find_user_exists assms(2) that by blast
qed

definition shown :: "nat option \<Rightarrow> db \<Rightarrow> cmt \<Rightarrow> comment_record" where
  "shown v d c = (case buildCommentSelect v d c of Inr r \<Rightarrow> r | Inl _ \<Rightarrow> undefined)"

lemma select_shown:
  assumes "db_ok d" and "c \<in> set (cmts d)"
  shows "buildCommentSelect v d c = Inr (shown v d c)"
proof -
  obtain u where "find_user (c_authorId c) d = Some u" by (rule comment_author [OF assms])
  then show ?thesis by (simp add: shown_def buildCommentSelect_def)
qed

lemma comment_order_inj:
  assumes "db_ok d"
  shows "inj_on comment_order (set (filter P (cmts d)))"
proof (rule inj_onI)
  fix b c assume "b \<in> set (filter P (cmts d))" "c \<in> set (filter P (cmts d))" "comment_order b = comment_order c"
  then show "b = c"
    using db_okD(3) [OF assms] uniqD [of c_id "cmts d" b c] by (simp add: comments_ok_def comment_order_def)
qed

lemma listByArticleId_ok:
  assumes ok: "db_ok d" and scan: "permutes scan"
  shows "listByArticleId scan aid v d =
     Inr (map (shown v d) (sort_key comment_order (filter (\<lambda>c. c_articleId c = aid) (cmts d))))"
proof -
  have "sort_key comment_order (scan (filter (\<lambda>c. c_articleId c = aid) (cmts d)))
      = sort_key comment_order (filter (\<lambda>c. c_articleId c = aid) (cmts d))"
    using scan by (intro sort_key_unique comment_order_inj [OF ok]) (simp add: permutes_def)
  then show ?thesis
    unfolding listByArticleId_def by (simp only:) (intro collect_Inr select_shown [OF ok], auto)
qed

lemma listComments_ok:
  assumes "db_ok d" and "permutes scan" and "by_slug slug d = Some a"
  shows "listComments s3 scan (\<lambda>_ d. d) slug v d =
     Inr (map (\<lambda>c. commentToResponse s3 (shown v d c))
       (sort_key comment_order (filter (\<lambda>c. c_articleId c = a_id a) (cmts d))))"
  using assms listByArticleId_ok [OF assms(1,2), of "a_id a" v]
  by (simp add: listComments_def comment_requireArticle_def findIdentityBySlug_def articleIdentitySelect_def
      commentsToResponseList_def o_def)

lemma select_frame:
  "users d' = users d \<Longrightarrow> userFollows d' = userFollows d \<Longrightarrow> buildCommentSelect v d' c = buildCommentSelect v d c"
  by (simp add: buildCommentSelect_def find_user_def followers_def split: option.splits)

lemma shown_body:
  assumes "db_ok d" and "c \<in> set (cmts d)"
  shows "cr_body (shown v d c) = c_body c"
proof -
  obtain u where "find_user (c_authorId c) d = Some u" by (rule comment_author [OF assms])
  then show ?thesis by (simp add: shown_def buildCommentSelect_def)
qed

lemma sort_key_newest:
  assumes "inj_on f (set (xs @ [x]))" and "\<forall>y \<in> set xs. f x \<le> f y"
  shows "sort_key f (xs @ [x]) = x # sort_key f xs"
proof -
  have "sort_key f (xs @ [x]) = sort_key f (x # xs)"
    by (rule sort_key_unique) (use assms(1) in auto)
  also have "\<dots> = x # sort_key f xs"
    using assms(2) by (simp add: insort_is_Cons)
  finally show ?thesis .
qed

lemma create_comment_ok:
  assumes ok: "db_ok d" and "aid \<in> article_ids d" and "uid \<in> user_ids d" and "characters body \<le> 255"
  obtains c d' where "create_comment now aid uid body d = (Inr (shown None d' c), d')"
    "c = \<lparr>c_id = seqs d MComment, c_createdAt = now, c_updatedAt = now, c_body = body,
          c_articleId = aid, c_authorId = uid\<rparr>"
    "d' = (bump MComment d)\<lparr>cmts := cmts d @ [c]\<rparr>" "db_ok d'"
proof -
  define c where "c = \<lparr>c_id = seqs d MComment, c_createdAt = now, c_updatedAt = now, c_body = body,
          c_articleId = aid, c_authorId = uid\<rparr>"
  define d' where "d' = (bump MComment d)\<lparr>cmts := cmts d @ [c]\<rparr>"
  have "db_ok d'"
    using db_ok_put(4) [OF db_ok_bump [OF ok, of MComment]] comments_ok_add [OF db_okD(3) [OF ok], of c] assms
    by (simp add: d'_def c_def)
  moreover have "buildCommentSelect None d' c = Inr (shown None d' c)"
    by (rule select_shown [OF \<open>db_ok d'\<close>]) (simp add: d'_def)
  then have "create_comment now aid uid body d = (Inr (shown None d' c), d')"
    using assms by (simp add: create_comment_def Let_def c_def [symmetric] d'_def [symmetric])
  ultimately show ?thesis using that c_def d'_def by blast
qed

section \<open>Properties\<close>



text \<open>The order of the comments is total: unlike the article listings, the list is the same however the database
  scans its rows.\<close>

theorem comment_list_is_deterministic:
  assumes "db_ok d" and "permutes scan1" and "permutes scan2"
  shows "listComments s3 scan1 (\<lambda>_ d. d) slug v d = listComments s3 scan2 (\<lambda>_ d. d) slug v d"
proof (cases "by_slug slug d")
  case None
  then show ?thesis by (simp add: listComments_def comment_requireArticle_def findIdentityBySlug_def)
next
  case (Some a)
  then show ?thesis using listComments_ok [OF assms(1)] assms(2,3) by simp
qed

theorem comment_list_is_deterministic_witness:
  "listComments demo_s3 rev (\<lambda>_ d. d) (js ''hi'') None demo_article_db
   = listComments demo_s3 (\<lambda>r. r) (\<lambda>_ d. d) (js ''hi'') None demo_article_db"
  by (rule comment_list_is_deterministic [OF demo_article_db_ok]) (simp_all add: permutes_def)

text \<open>A removal request removes exactly the comment it names when it is a comment of that article by the
  requesting user; in every other case it removes nothing and answers 404 or, for another user's comment, 403.\<close>

theorem comment_removal:
  assumes ok: "db_ok d"
  shows "case removeComment (\<lambda>_ d. d) uid slug i d of (r, d') \<Rightarrow>
     if (\<exists>a c. by_slug slug d = Some a \<and> c \<in> set (cmts d) \<and> c_id c = i \<and> c_articleId c = a_id a \<and> c_authorId c = uid)
     then r = Inr () \<and> db_ok d' \<and> d' = d\<lparr>cmts := del_where (\<lambda>c. c_id c = i) (cmts d)\<rparr>
       \<and> length (cmts d') + 1 = length (cmts d)
     else d' = d \<and> (\<exists>e. r = Inl e \<and> status_of e =
       (if \<exists>a c. by_slug slug d = Some a \<and> c \<in> set (cmts d) \<and> c_id c = i \<and> c_articleId c = a_id a then 403 else 404))"
proof (cases "by_slug slug d")
  case None
  then show ?thesis
    by (simp add: removeComment_def comment_requireArticle_def findIdentityBySlug_def status_of_def)
next
  case (Some a)
  have uni: "uniq c_id (cmts d)" using db_okD(3) [OF ok] by (simp add: comments_ok_def)
  show ?thesis
  proof (cases "find (\<lambda>c. c_id c = i \<and> c_articleId c = a_id a) (cmts d)")
    case None
    then have "\<not> (\<exists>c \<in> set (cmts d). c_id c = i \<and> c_articleId c = a_id a)" by (auto simp: find_None_iff)
    then show ?thesis
      using Some None by (auto simp: removeComment_def comment_requireArticle_def findIdentityBySlug_def
          articleIdentitySelect_def findIdentity_def status_of_def Let_def)
  next
    case (Some c)
    then have c: "c \<in> set (cmts d)" "c_id c = i" "c_articleId c = a_id a" using find_SomeD by fast+
    have only: "b = c" if "b \<in> set (cmts d)" "c_id b = i" for b using uniqD [OF uni that(1) c(1)] that(2) c(2) by simp
    have "count_where (\<lambda>b. c_id b = i) (cmts d) = 1"
      using uniq_count_one [OF uni c(1), of "\<lambda>b. c_id b = i"] c(2) by simp
    then have len: "length (del_where (\<lambda>b. c_id b = i) (cmts d)) + 1 = length (cmts d)"
      using length_del_where [of "\<lambda>b. c_id b = i" "cmts d"] by simp
    have del: "delete_comment i d = (Inr (), d\<lparr>cmts := del_where (\<lambda>c. c_id c = i) (cmts d)\<rparr>)"
      using uniq_find [OF uni c(1,2)] by (simp add: delete_comment_def)
    have ok': "db_ok (d\<lparr>cmts := del_where (\<lambda>c. c_id c = i) (cmts d)\<rparr>)"
      using db_ok_delete_comment [OF ok, of i] del by simp
    have run: "removeComment (\<lambda>_ d. d) uid slug i d =
        (if c_authorId c \<noteq> uid then (Inl (ForbiddenException (I18n ''common.error.commentForbidden'')), d)
         else delete_comment i d)"
      using \<open>by_slug slug d = Some a\<close> Some c(2)
      by (simp add: removeComment_def comment_requireArticle_def findIdentityBySlug_def articleIdentitySelect_def
          findIdentity_def Let_def)
    have ex: "(\<exists>a c. by_slug slug d = Some a \<and> c \<in> set (cmts d) \<and> c_id c = i \<and> c_articleId c = a_id a \<and> c_authorId c = uid)
        \<longleftrightarrow> c_authorId c = uid"
      "\<exists>a c. by_slug slug d = Some a \<and> c \<in> set (cmts d) \<and> c_id c = i \<and> c_articleId c = a_id a"
      using \<open>by_slug slug d = Some a\<close> c only by blast+
    show ?thesis
    proof (cases "c_authorId c = uid")
      case True
      then have "removeComment (\<lambda>_ d. d) uid slug i d = (Inr (), d\<lparr>cmts := del_where (\<lambda>c. c_id c = i) (cmts d)\<rparr>)"
        using run del by simp
      then show ?thesis unfolding ex(1) using True ok' len by simp
    next
      case False
      then have "removeComment (\<lambda>_ d. d) uid slug i d = (Inl (ForbiddenException (I18n ''common.error.commentForbidden'')), d)"
        using run by simp
      then show ?thesis unfolding ex(1) using False ex(2) by (simp only: prod.case if_False if_True) (simp add: status_of_def)
    qed
  qed
qed

definition demo_comment_db :: db where
  "demo_comment_db = demo_article_db\<lparr>cmts := [\<lparr>c_id = 3, c_createdAt = 1, c_updatedAt = 1, c_body = js ''b'',
     c_articleId = 1, c_authorId = 2\<rparr>]\<rparr>"

theorem comment_removal_witness:
  "fst (removeComment (\<lambda>_ d. d) 2 (js ''hi'') 3 demo_comment_db) = Inr ()
   \<and> snd (removeComment (\<lambda>_ d. d) 1 (js ''hi'') 3 demo_comment_db) = demo_comment_db"
proof -
  have ok: "db_ok demo_comment_db"
    by (simp add: db_ok_def ok_defs demo_comment_db_def demo_article_db_def demo_article_def demo_db_def
        demo_user_def empty_db_def)
  have "by_slug (js ''hi'') demo_comment_db = Some demo_article" "a_id demo_article = 1"
    by (simp_all add: by_slug_def demo_comment_db_def demo_article_db_def demo_article_def)
  then show ?thesis
    using comment_removal [OF ok, of "js ''hi''" 3 2] comment_removal [OF ok, of "js ''hi''" 3 1]
    by (simp add: demo_comment_db_def case_prod_beta)
qed

end
