(* ===== verification/Validation.thy ===== *)
theory Validation
  imports Comments
begin

text \<open>
  The request DTOs and the validation pipe in front of the controllers: what class-transformer and
  class-validator do with the decorators the DTO classes carry, under the options of
  \<open>common/validation/validation-options.ts\<close> (whitelist, stop at the first error, 422). The e-mail syntax of
  \<open>@IsEmail\<close>, the length \<open>@MaxLength\<close> measures, the number syntax of \<open>Number\<close> beyond plain decimal integers, the text of a message and which of
  several failing constraints of a property is the first are parameters.
\<close>

section \<open>Values\<close>

text \<open>A JSON value; a number that is no integer is \<open>JNum None\<close>. An absent property is undefined.\<close>

datatype json = JNull | JBool bool | JNum "int option" | JStr jstr | JArr "json list" | JObj "(jstr \<times> json) list"

type_synonym payload = "string \<Rightarrow> json option"

section \<open>Decorators\<close>

datatype message_key = DefaultMessage | I18nMessage string string

datatype check =
    IsString | IsNotEmpty | IsEmail | MinLength nat | MaxLength nat | Length_between nat nat
  | NonBlank | Match string | IsArray | EachIsString | IsIn "json list" | IsInt | Min int | Max int

datatype condition = Always | ValidateIfDefined | IsOptional

datatype transform = Keep | NormalizeEmail | TypeNumber

record dto_prop =
  dp_name :: string
  dp_condition :: condition
  dp_transform :: transform
  dp_default :: "json option"
  dp_checks :: "(check \<times> message_key) list"

record validator_env =
  ve_unicode :: unicode
  ve_isEmail :: "jstr \<Rightarrow> bool"
  ve_length :: "jstr \<Rightarrow> nat"
  ve_number :: "jstr \<Rightarrow> int option"
  ve_message :: "message_key \<Rightarrow> check \<Rightarrow> jstr"
  ve_first :: "jstr list \<Rightarrow> jstr"

text \<open>\<open>Number(s)\<close>: blank is 0, a signed run of decimal digits its value, the rest is left to \<open>ve_number\<close>.\<close>

definition js_Number :: "validator_env \<Rightarrow> jstr \<Rightarrow> int option" where
  "js_Number env s =
     (let t = trim s;
          u = (if t \<noteq> [] \<and> (hd t = 45 \<or> hd t = 43) then tl t else t)
      in if t = [] then Some 0
         else if u \<noteq> [] \<and> list_all is_digit u
         then Some (if hd t = 45 then - int (read_nat 0 u) else int (read_nat 0 u))
         else ve_number env t)"

definition normalizeEmailValue :: "unicode \<Rightarrow> json \<Rightarrow> json" where
  "normalizeEmailValue uc v = (case v of JStr s \<Rightarrow> JStr (lower uc (trim s)) | _ \<Rightarrow> v)"

fun toNumber :: "validator_env \<Rightarrow> json \<Rightarrow> json" where
  "toNumber env (JStr s) = JNum (js_Number env s)"
| "toNumber env (JBool b) = JNum (Some (if b then 1 else 0))"
| "toNumber env (JNum n) = JNum n"
| "toNumber env JNull = JNull"
| "toNumber env (JArr xs) = JArr (map (toNumber env) xs)"
| "toNumber env (JObj _) = JNum None"

definition transform_value :: "validator_env \<Rightarrow> transform \<Rightarrow> json \<Rightarrow> json" where
  "transform_value env t v = (case t of
     Keep \<Rightarrow> v | NormalizeEmail \<Rightarrow> normalizeEmailValue (ve_unicode env) v | TypeNumber \<Rightarrow> toNumber env v)"

definition matches_property :: "payload \<Rightarrow> string \<Rightarrow> json option \<Rightarrow> bool" where
  "matches_property obj related v \<longleftrightarrow> (case (v, obj related) of
     (None, None) \<Rightarrow> True
   | (Some JNull, Some JNull) \<Rightarrow> True
   | (Some (JBool a), Some (JBool b)) \<Rightarrow> a = b
   | (Some (JNum (Some a)), Some (JNum (Some b))) \<Rightarrow> a = b
   | (Some (JStr a), Some (JStr b)) \<Rightarrow> a = b
   | _ \<Rightarrow> False)"

fun is_string :: "json \<Rightarrow> bool" where
  "is_string (JStr _) = True"
| "is_string _ = False"

definition check_holds :: "validator_env \<Rightarrow> payload \<Rightarrow> json option \<Rightarrow> check \<Rightarrow> bool" where
  "check_holds env obj v c = (case c of
     IsString \<Rightarrow> (case v of Some x \<Rightarrow> is_string x | None \<Rightarrow> False)
   | IsNotEmpty \<Rightarrow> v \<noteq> None \<and> v \<noteq> Some JNull \<and> v \<noteq> Some (JStr [])
   | IsEmail \<Rightarrow> (case v of Some (JStr s) \<Rightarrow> ve_isEmail env s | _ \<Rightarrow> False)
   | MinLength n \<Rightarrow> (case v of Some (JStr s) \<Rightarrow> n \<le> ve_length env s | _ \<Rightarrow> False)
   | MaxLength n \<Rightarrow> (case v of Some (JStr s) \<Rightarrow> ve_length env s \<le> n | _ \<Rightarrow> False)
   | Length_between m n \<Rightarrow> (case v of Some (JStr s) \<Rightarrow> m \<le> ve_length env s \<and> ve_length env s \<le> n | _ \<Rightarrow> False)
   | NonBlank \<Rightarrow> (case v of Some (JStr s) \<Rightarrow> nonBlank s | _ \<Rightarrow> False)
   | Match p \<Rightarrow> matches_property obj p v
   | IsArray \<Rightarrow> (case v of Some (JArr _) \<Rightarrow> True | _ \<Rightarrow> False)
   | EachIsString \<Rightarrow> (case v of Some (JArr xs) \<Rightarrow> list_all is_string xs | _ \<Rightarrow> False)
   | IsIn vs \<Rightarrow> (case v of Some x \<Rightarrow> x \<in> set vs | None \<Rightarrow> False)
   | IsInt \<Rightarrow> (case v of Some (JNum (Some _)) \<Rightarrow> True | _ \<Rightarrow> False)
   | Min n \<Rightarrow> (case v of Some (JNum (Some i)) \<Rightarrow> n \<le> i | _ \<Rightarrow> False)
   | Max n \<Rightarrow> (case v of Some (JNum (Some i)) \<Rightarrow> i \<le> n | _ \<Rightarrow> False))"

section \<open>The pipe\<close>

type_synonym schema = "dto_prop list"

text \<open>The instance: declared properties only, transformed, with the initial values of the class.\<close>

definition instance_of :: "validator_env \<Rightarrow> schema \<Rightarrow> payload \<Rightarrow> payload" where
  "instance_of env sch p nm = (case find (\<lambda>dp. dp_name dp = nm) sch of
     None \<Rightarrow> None
   | Some dp \<Rightarrow> (case p nm of None \<Rightarrow> dp_default dp | Some v \<Rightarrow> Some (transform_value env (dp_transform dp) v)))"

definition applies :: "condition \<Rightarrow> json option \<Rightarrow> bool" where
  "applies c v = (case c of Always \<Rightarrow> True | ValidateIfDefined \<Rightarrow> v \<noteq> None | IsOptional \<Rightarrow> v \<noteq> None \<and> v \<noteq> Some JNull)"

definition failing :: "validator_env \<Rightarrow> payload \<Rightarrow> dto_prop \<Rightarrow> (check \<times> message_key) list" where
  "failing env obj dp = (if applies (dp_condition dp) (obj (dp_name dp))
     then filter (\<lambda>(c, m). \<not> check_holds env obj (obj (dp_name dp)) c) (dp_checks dp) else [])"

definition validate :: "validator_env \<Rightarrow> schema \<Rightarrow> payload \<Rightarrow> verror list + payload" where
  "validate env sch p =
     (let obj = instance_of env sch p;
          errs = map (\<lambda>dp. VError (js (dp_name dp))
                     [ve_first env (map (\<lambda>(c, m). ve_message env m c) (failing env obj dp))] [])
                   (filter (\<lambda>dp. failing env obj dp \<noteq> []) sch)
      in if errs = [] then Inr obj else Inl errs)"

definition validationPipe :: "validator_env \<Rightarrow> (jstr \<Rightarrow> jstr) \<Rightarrow> schema \<Rightarrow> payload \<Rightarrow> thrown + payload" where
  "validationPipe env fmt sch p = (case validate env sch p of
     Inl errs \<Rightarrow> Inl (exceptionFactory fmt errs) | Inr obj \<Rightarrow> Inr obj)"

section \<open>The DTO classes\<close>

definition field :: "string \<Rightarrow> condition \<Rightarrow> (check \<times> message_key) list \<Rightarrow> dto_prop" where
  "field nm cond checks = \<lparr>dp_name = nm, dp_condition = cond, dp_transform = Keep, dp_default = None, dp_checks = checks\<rparr>"

definition email_field :: dto_prop where
  "email_field = (field ''email'' Always
     [(IsEmail, I18nMessage ''common.validation.email'' ''''),
      (IsNotEmpty, I18nMessage ''common.validation.required'' ''Email'')])\<lparr>dp_transform := NormalizeEmail\<rparr>"

definition PASSWORD_MIN :: nat where "PASSWORD_MIN = 6"
definition PASSWORD_MAX :: nat where "PASSWORD_MAX = 30"

definition RegisterDto :: schema where
  "RegisterDto =
     [email_field,
      field ''username'' Always
        [(IsString, DefaultMessage), (IsNotEmpty, I18nMessage ''common.validation.required'' ''Username''),
         (MinLength USERNAME_MIN, I18nMessage ''common.validation.minLength'' ''Username''),
         (MaxLength USERNAME_MAX, I18nMessage ''common.validation.maxLength'' ''Username'')],
      field ''password'' Always
        [(IsString, DefaultMessage), (IsNotEmpty, I18nMessage ''common.validation.required'' ''Password''),
         (MinLength PASSWORD_MIN, I18nMessage ''common.validation.minLength'' ''Password''),
         (MaxLength PASSWORD_MAX, I18nMessage ''common.validation.maxLength'' ''Password'')],
      field ''password_confirmation'' Always
        [(IsString, DefaultMessage),
         (IsNotEmpty, I18nMessage ''common.validation.required'' ''Password confirmation''),
         (Match ''password'', I18nMessage ''common.validation.match'' ''Password confirmation'')]]"

definition LoginDto :: schema where
  "LoginDto =
     [email_field,
      field ''password'' Always
        [(IsString, DefaultMessage), (IsNotEmpty, I18nMessage ''common.validation.required'' ''Password'')]]"

definition RefreshTokenDto :: schema where
  "RefreshTokenDto =
     [field ''refreshToken'' Always
        [(IsString, DefaultMessage), (IsNotEmpty, I18nMessage ''common.validation.required'' ''Refresh token'')]]"

definition ConfirmProviderLinkDto :: schema where
  "ConfirmProviderLinkDto =
     [field ''token'' Always
        [(IsString, I18nMessage ''common.validation.invalid'' ''Token''),
         (Length_between 43 43, I18nMessage ''common.validation.invalid'' ''Token'')]]"

definition UpdateUserDto :: schema where
  "UpdateUserDto =
     [field ''username'' ValidateIfDefined
        [(MinLength USERNAME_MIN, I18nMessage ''common.validation.minLength'' ''Username''),
         (MaxLength USERNAME_MAX, I18nMessage ''common.validation.maxLength'' ''Username''),
         (IsString, I18nMessage ''common.validation.invalid'' ''Username'')],
      field ''bio'' IsOptional [(IsString, I18nMessage ''common.validation.invalid'' ''Bio'')],
      field ''image'' ValidateIfDefined [(IsIn [JNull], I18nMessage ''common.validation.invalid'' ''Image'')]]"

definition text_checks :: "string \<Rightarrow> (check \<times> message_key) list" where
  "text_checks nm = [(IsString, I18nMessage ''common.validation.invalid'' nm),
     (NonBlank, I18nMessage ''common.validation.nonBlank'' nm)]"

definition tag_list_field :: dto_prop where
  "tag_list_field = field ''tagList'' ValidateIfDefined
     [(IsArray, I18nMessage ''common.validation.invalid'' ''Tag list''),
      (EachIsString, I18nMessage ''common.validation.invalid'' ''Tag'')]"

definition CreateArticleDto :: schema where
  "CreateArticleDto =
     [field ''title'' Always (text_checks ''Title''), field ''description'' Always (text_checks ''Description''),
      field ''body'' Always (text_checks ''Body''), tag_list_field]"

definition UpdateArticleDto :: schema where
  "UpdateArticleDto =
     [field ''title'' ValidateIfDefined (text_checks ''Title''),
      field ''description'' ValidateIfDefined (text_checks ''Description''),
      field ''body'' ValidateIfDefined (text_checks ''Body''), tag_list_field]"

definition PreviewArticleDto :: schema where
  "PreviewArticleDto = [field ''body'' Always (text_checks ''Body'')]"

definition CreateCommentDto :: schema where
  "CreateCommentDto = [field ''body'' Always
     (text_checks ''Body'' @ [(MaxLength MAX_COMMENT_BODY_LENGTH, I18nMessage ''common.validation.maxLength'' ''Body'')])]"

definition PaginationDto :: schema where
  "PaginationDto =
     [\<lparr>dp_name = ''page'', dp_condition = IsOptional, dp_transform = TypeNumber, dp_default = Some (JNum (Some 1)),
       dp_checks = [(IsInt, DefaultMessage), (Min 1, DefaultMessage)]\<rparr>,
      \<lparr>dp_name = ''limit'', dp_condition = IsOptional, dp_transform = TypeNumber, dp_default = Some (JNum (Some 10)),
       dp_checks = [(IsInt, DefaultMessage), (Min 1, DefaultMessage), (Max 100, DefaultMessage)]\<rparr>]"

definition ListArticlesQueryDto :: schema where
  "ListArticlesQueryDto = PaginationDto @
     [field ''tag'' ValidateIfDefined [(IsString, I18nMessage ''common.validation.invalid'' ''Tag'')],
      field ''author'' ValidateIfDefined [(IsString, I18nMessage ''common.validation.invalid'' ''Author'')],
      field ''favorited'' ValidateIfDefined [(IsString, I18nMessage ''common.validation.invalid'' ''Favorited'')]]"

section \<open>Lemmas\<close>

definition names_distinct :: "schema \<Rightarrow> bool" where
  "names_distinct sch = distinct (map dp_name sch)"

lemma validate_Inr:
  "validate env sch p = Inr obj \<longleftrightarrow>
     obj = instance_of env sch p \<and> (\<forall>dp \<in> set sch. failing env (instance_of env sch p) dp = [])"
  by (auto simp: validate_def Let_def filter_empty_conv)

lemma instance_field:
  "names_distinct sch \<Longrightarrow> dp \<in> set sch \<Longrightarrow> instance_of env sch p (dp_name dp) =
     (case p (dp_name dp) of None \<Rightarrow> dp_default dp | Some v \<Rightarrow> Some (transform_value env (dp_transform dp) v))"
  using uniq_find [of dp_name sch dp "dp_name dp"] by (simp add: instance_of_def names_distinct_def uniq_def)

lemma failing_Nil:
  "failing env obj dp = [] \<longleftrightarrow> (applies (dp_condition dp) (obj (dp_name dp)) \<longrightarrow>
     (\<forall>(c, m) \<in> set (dp_checks dp). check_holds env obj (obj (dp_name dp)) c))"
  by (auto simp: failing_def filter_empty_conv)

lemmas schema_defs =
  RegisterDto_def LoginDto_def RefreshTokenDto_def ConfirmProviderLinkDto_def UpdateUserDto_def
  CreateArticleDto_def UpdateArticleDto_def PreviewArticleDto_def CreateCommentDto_def PaginationDto_def
  ListArticlesQueryDto_def field_def email_field_def tag_list_field_def text_checks_def

lemma schemas_distinct:
  "names_distinct RegisterDto" "names_distinct LoginDto" "names_distinct CreateCommentDto"
  "names_distinct PaginationDto" "names_distinct ListArticlesQueryDto" "names_distinct CreateArticleDto"
  by (simp_all add: names_distinct_def schema_defs)

section \<open>Properties\<close>

text \<open>C31: What the pipe lets through of any DTO has only declared properties, and each of them passed all its checks
  unless its condition exempted it; what it stops is a 422 that names exactly the properties that failed, each
  once.\<close>

theorem pipe_accepts_or_names_the_faults:
  "case validationPipe env fmt sch p of
     Inr obj \<Rightarrow> obj = instance_of env sch p \<and> {nm. obj nm \<noteq> None} \<subseteq> dp_name ` set sch
       \<and> {dp \<in> set sch. failing env obj dp \<noteq> []} = {}
   | Inl e \<Rightarrow> statusCode (fst (handleException e)) = 422 \<and>
       (\<exists>es. errors (fst (handleException e)) = Some es \<and> distinct (map fst es) \<and> es \<noteq> [] \<and>
          fst ` set es = js ` dp_name ` {dp \<in> set sch. failing env (instance_of env sch p) dp \<noteq> []})"
proof (cases "validate env sch p")
  case (Inr obj)
  then have obj: "obj = instance_of env sch p" "\<forall>dp \<in> set sch. failing env obj dp = []"
    by (auto simp: validate_Inr)
  have "{nm. obj nm \<noteq> None} \<subseteq> dp_name ` set sch"
    using find_SomeD by (force simp: obj(1) instance_of_def split: option.splits)
  with Inr obj show ?thesis by (auto simp: validationPipe_def)
next
  case (Inl errs)
  let ?bad = "filter (\<lambda>dp. failing env (instance_of env sch p) dp \<noteq> []) sch"
  have errs: "errs = map (\<lambda>dp. VError (js (dp_name dp))
      [ve_first env (map (\<lambda>(c, m). ve_message env m c) (failing env (instance_of env sch p) dp))] []) ?bad" "errs \<noteq> []"
    using Inl by (auto simp: validate_def Let_def split: if_splits)
  have "fst ` set (generateErrors fmt errs) = js ` dp_name ` set ?bad"
    using validation_response [of fmt errs] by (simp add: errs(1) image_image)
  moreover from this have "generateErrors fmt errs \<noteq> []" using errs by auto
  ultimately show ?thesis
    using Inl validation_response [of fmt errs] by (simp add: validationPipe_def)
qed

lemma register_instance:
  "instance_of env RegisterDto p ''email'' = map_option (normalizeEmailValue (ve_unicode env)) (p ''email'')"
  "instance_of env RegisterDto p ''username'' = p ''username''"
  "instance_of env RegisterDto p ''password'' = p ''password''"
  "instance_of env RegisterDto p ''password_confirmation'' = p ''password_confirmation''"
  by (auto simp: instance_of_def schema_defs transform_value_def split: option.splits)

lemma pipe_Inr:
  "validationPipe env fmt sch p = Inr obj \<longleftrightarrow>
     obj = instance_of env sch p \<and> (\<forall>dp \<in> set sch. failing env (instance_of env sch p) dp = [])"
  by (auto simp: validationPipe_def validate_Inr [symmetric] split: sum.splits)

text \<open>C30: A registration passes exactly when the e-mail (trimmed and lower-cased) is a valid address, the username is
  a string of 3 to 30 characters, the password one of 6 to 30, and the confirmation is the same string; and what
  the service receives is the normalised e-mail with the other values untouched.\<close>

theorem registration_accepted_exactly:
  "(\<exists>obj. validationPipe env fmt RegisterDto p = Inr obj \<and> obj ''email'' = Some (JStr em) \<and> obj ''username'' = Some (JStr un)
       \<and> obj ''password'' = Some (JStr pw))
   \<longleftrightarrow> (\<exists>raw. p ''email'' = Some (JStr raw) \<and> em = lower (ve_unicode env) (trim raw)) \<and> ve_isEmail env em \<and> em \<noteq> []
     \<and> p ''username'' = Some (JStr un) \<and> un \<noteq> [] \<and> ve_length env un \<in> {3..30}
     \<and> p ''password'' = Some (JStr pw) \<and> pw \<noteq> [] \<and> ve_length env pw \<in> {6..30}
     \<and> p ''password_confirmation'' = Some (JStr pw)"
proof -
  let ?obj = "instance_of env RegisterDto p"
  have "(\<exists>obj. validationPipe env fmt RegisterDto p = Inr obj \<and> obj ''email'' = Some (JStr em)
        \<and> obj ''username'' = Some (JStr un) \<and> obj ''password'' = Some (JStr pw))
      \<longleftrightarrow> ?obj ''email'' = Some (JStr em) \<and> ?obj ''username'' = Some (JStr un) \<and> ?obj ''password'' = Some (JStr pw)
        \<and> (\<forall>dp \<in> set RegisterDto. failing env ?obj dp = [])"
    by (auto simp: pipe_Inr)
  also have "\<dots> \<longleftrightarrow> ?obj ''email'' = Some (JStr em) \<and> ve_isEmail env em \<and> em \<noteq> []
        \<and> ?obj ''username'' = Some (JStr un) \<and> un \<noteq> [] \<and> ve_length env un \<in> {3..30}
        \<and> ?obj ''password'' = Some (JStr pw) \<and> pw \<noteq> [] \<and> ve_length env pw \<in> {6..30}
        \<and> ?obj ''password_confirmation'' = Some (JStr pw)"
    by (auto simp: RegisterDto_def field_def email_field_def failing_Nil applies_def check_holds_def
        matches_property_def USERNAME_MIN_def USERNAME_MAX_def PASSWORD_MIN_def PASSWORD_MAX_def
        split: option.splits json.splits)
  also have "?obj ''email'' = Some (JStr em) \<longleftrightarrow> (\<exists>raw. p ''email'' = Some (JStr raw) \<and> em = lower (ve_unicode env) (trim raw))"
  proof (cases "p ''email''")
    case None
    then show ?thesis by (simp add: register_instance)
  next
    case (Some v)
    then show ?thesis by (cases v) (auto simp: register_instance normalizeEmailValue_def)
  qed
  finally show ?thesis unfolding register_instance by blast
qed

text \<open>Page and limit of a listing that passes are in range, absent ones are the defaults, so that the metadata and
  the pages are what the pagination promises for a page and a limit of at least one.\<close>

theorem accepted_pages_are_in_range:
  assumes "validationPipe env fmt ListArticlesQueryDto p = Inr obj" and "p ''page'' \<noteq> Some JNull" and "p ''limit'' \<noteq> Some JNull"
  shows "\<exists>page limit. obj ''page'' = Some (JNum (Some page)) \<and> 1 \<le> page
     \<and> obj ''limit'' = Some (JNum (Some limit)) \<and> 1 \<le> limit \<and> limit \<le> 100
     \<and> (if p ''page'' = None then page = int DEFAULT_PAGE else True)
     \<and> (if p ''limit'' = None then limit = int DEFAULT_LIMIT else True)"
proof -
  have inst: "obj = instance_of env ListArticlesQueryDto p"
    and ok: "\<forall>dp \<in> set ListArticlesQueryDto. failing env obj dp = []" using assms(1) by (auto simp: pipe_Inr)
  have vals: "obj ''page'' = (case p ''page'' of None \<Rightarrow> Some (JNum (Some 1)) | Some v \<Rightarrow> Some (toNumber env v))"
      "obj ''limit'' = (case p ''limit'' of None \<Rightarrow> Some (JNum (Some 10)) | Some v \<Rightarrow> Some (toNumber env v))"
    by (auto simp: inst instance_of_def ListArticlesQueryDto_def PaginationDto_def transform_value_def split: option.splits)
  have nn: "toNumber env v = JNull \<longleftrightarrow> v = JNull" for v by (cases v) auto
  have "obj ''page'' \<noteq> Some JNull" "obj ''page'' \<noteq> None" "obj ''limit'' \<noteq> Some JNull" "obj ''limit'' \<noteq> None"
    using assms(2,3) by (auto simp: vals nn split: option.splits)
  then have "\<exists>page. obj ''page'' = Some (JNum (Some page)) \<and> 1 \<le> page"
      "\<exists>limit. obj ''limit'' = Some (JNum (Some limit)) \<and> 1 \<le> limit \<and> limit \<le> 100"
    using ok by (auto simp: ListArticlesQueryDto_def PaginationDto_def failing_Nil applies_def check_holds_def
        split: json.splits option.splits)
  then show ?thesis by (auto simp: vals DEFAULT_PAGE_def DEFAULT_LIMIT_def split: option.splits)
qed

definition demo_validator :: validator_env where
  "demo_validator = \<lparr>ve_unicode = ascii_unicode, ve_isEmail = (\<lambda>s. 64 \<in> set s), ve_length = length,
     ve_number = (\<lambda>_. None), ve_message = (\<lambda>_ _. js ''invalid''), ve_first = hd\<rparr>"

theorem accepted_pages_are_in_range_witness:
  "\<exists>obj. validationPipe demo_validator (\<lambda>s. s) ListArticlesQueryDto ((\<lambda>_. None)(''page'' := Some (JStr (js '' 3 '')))) = Inr obj
     \<and> (\<exists>page. obj ''page'' = Some (JNum (Some page)) \<and> 1 \<le> page)"
proof -
  let ?p = "(\<lambda>_. None)(''page'' := Some (JStr (js '' 3 '')))"
  have "js_Number demo_validator (js '' 3 '') = Some 3"
    by (simp add: js_Number_def trim_def strip_both_def is_ws_def js_def is_digit_def Let_def)
  then have "validationPipe demo_validator (\<lambda>s. s) ListArticlesQueryDto ?p = Inr (instance_of demo_validator ListArticlesQueryDto ?p)"
    by (simp add: pipe_Inr instance_of_def ListArticlesQueryDto_def PaginationDto_def field_def failing_def applies_def
        check_holds_def transform_value_def)
  from accepted_pages_are_in_range [OF this] this show ?thesis by auto
qed

text \<open>Across the boundary: a comment the pipe lets through, on an existing article by an existing user, is never
  refused by the column it goes into, provided the length the validator measures is no smaller than the number
  of characters.\<close>

theorem accepted_comment_is_stored:
  assumes "validationPipe env fmt CreateCommentDto p = Inr obj" and "\<forall>s. characters s \<le> ve_length env s"
    and "db_ok d" and "by_slug slug d = Some a" and "uid \<in> user_ids d"
  shows "\<exists>body resp d'. obj ''body'' = Some (JStr body) \<and> nonBlank body
     \<and> createComment s3 now (\<lambda>_ d. d) uid slug body d = (Inr resp, d') \<and> db_ok d'"
proof -
  have "obj = instance_of env CreateCommentDto p" and ok: "\<forall>dp \<in> set CreateCommentDto. failing env obj dp = []"
    using assms(1) by (auto simp: pipe_Inr)
  then obtain body where body: "obj ''body'' = Some (JStr body)" "nonBlank body" "ve_length env body \<le> 255"
    by (auto simp: CreateCommentDto_def field_def text_checks_def failing_Nil applies_def check_holds_def
        MAX_COMMENT_BODY_LENGTH_def split: option.splits json.splits)
  have "characters body \<le> 255" using assms(2) body(3) le_trans by blast
  moreover have "a_id a \<in> article_ids d" using by_slug_iff [OF assms(3)] assms(4) by (simp add: article_ids_def)
  ultimately obtain c d' where "create_comment now (a_id a) uid body d = (Inr (shown None d' c), d')" "db_ok d'"
    using create_comment_ok [OF assms(3) _ assms(5)] by metis
  then have "createComment s3 now (\<lambda>_ d. d) uid slug body d = (Inr (commentToResponse s3 (shown None d' c)), d')"
    using assms(4) by (simp add: createComment_def comment_requireArticle_def findIdentityBySlug_def articleIdentitySelect_def)
  then show ?thesis using body \<open>db_ok d'\<close> by blast
qed

theorem accepted_comment_is_stored_witness:
  "\<exists>obj body resp d'. validationPipe demo_validator (\<lambda>s. s) CreateCommentDto ((\<lambda>_. None)(''body'' := Some (JStr (js ''first!'')))) = Inr obj
     \<and> obj ''body'' = Some (JStr body) \<and> createComment demo_s3 3 (\<lambda>_ d. d) 2 (js ''hi'') body demo_article_db = (Inr resp, d')"
proof -
  let ?p = "(\<lambda>_. None)(''body'' := Some (JStr (js ''first!'')))"
  have run: "validationPipe demo_validator (\<lambda>s. s) CreateCommentDto ?p = Inr (instance_of demo_validator CreateCommentDto ?p)"
    by (simp add: pipe_Inr instance_of_def CreateCommentDto_def field_def text_checks_def failing_def applies_def
        check_holds_def transform_value_def nonBlank_def is_ws_def js_def demo_validator_def MAX_COMMENT_BODY_LENGTH_def)
  have "characters s \<le> length s" for s by (induction s rule: characters.induct) auto
  then have "\<forall>s. characters s \<le> ve_length demo_validator s" by (simp add: demo_validator_def)
  moreover have "by_slug (js ''hi'') demo_article_db = Some demo_article" "2 \<in> user_ids demo_article_db"
    by (simp_all add: by_slug_def demo_article_db_def demo_article_def demo_db_def demo_user_def user_ids_def)
  ultimately show ?thesis using accepted_comment_is_stored [OF run _ demo_article_db_ok] run by blast
qed

end
