(* ===== verification/Endpoints.thy ===== *)
theory Endpoints
  imports Validation
begin

text \<open>
  The HTTP surface: the routes the controller classes declare with their decorators, the two guards in front
  of them and the lookup that picks the route of a request. Paths are split into decoded segments; a literal
  segment is compared as Express does by default, without regard to ASCII case, and the first route declared
  wins. Controllers are tried in the order in which the modules are registered (\<open>app.module.ts\<close>), the routes
  of a controller in the order of its methods.
\<close>

section \<open>Routes\<close>

datatype http_method = GET | POST | PUT | DELETE

datatype segment = Lit string | Par string

datatype guard = JwtAuthGuard | OptionalJwtAuthGuard | GoogleRedirectGuard | GoogleAuthGuard

datatype user_param = NoUser | CurrentUser | OptionalCurrentUser

datatype dto_param = NoDto | BodyDto schema | QueryDto schema

text \<open>The method of the controller a route calls.\<close>

datatype action =
    App_getHello | Health_getHealth
  | Auth_register | Auth_login | Auth_confirmGoogleLink | Auth_refresh | Auth_logout
  | Google_start | Google_callback
  | Users_getCurrentUser | Users_updateUser
  | Articles_create | Articles_list | Articles_feed | Articles_preview | Articles_getBySlug
  | Articles_update | Articles_remove
  | Comments_list | Comments_create | Comments_remove
  | Profiles_getProfile | Profiles_followUser | Profiles_unfollowUser
  | Favorites_favorite | Favorites_unfavorite

text \<open>
  \<open>ro_status\<close> is the \<open>@HttpCode\<close>, or the default of the method; \<open>ro_message\<close> the \<open>@ResponseMessage\<close>;
  \<open>ro_documented\<close> the statuses of the \<open>@ApiResponse\<close> decorators and \<open>ro_bearer\<close> says whether
  \<open>@ApiBearerAuth\<close> announces a token.
\<close>

record route =
  ro_method :: http_method
  ro_versioned :: bool
  ro_path :: "segment list"
  ro_guard :: "guard option"
  ro_status :: nat
  ro_message :: "string option"
  ro_user :: user_param
  ro_dto :: dto_param
  ro_action :: action
  ro_documented :: "nat list"
  ro_bearer :: bool

definition route ::
    "http_method \<Rightarrow> segment list \<Rightarrow> guard option \<Rightarrow> nat \<Rightarrow> string \<Rightarrow> user_param \<Rightarrow> dto_param \<Rightarrow> action \<Rightarrow> nat list \<Rightarrow> route" where
  "route m p g status msg usr dto act docs =
     \<lparr>ro_method = m, ro_versioned = True, ro_path = p, ro_guard = g, ro_status = status, ro_message = Some msg,
      ro_user = usr, ro_dto = dto, ro_action = act, ro_documented = docs, ro_bearer = (g = Some JwtAuthGuard)\<rparr>"

text \<open>\<open>@Controller(prefix)\<close>.\<close>

definition controller :: "segment list \<Rightarrow> route list \<Rightarrow> route list" where
  "controller prefix rs = map (\<lambda>r. r\<lparr>ro_path := prefix @ ro_path r\<rparr>) rs"

section \<open>The controllers\<close>

definition AppController :: "route list" where
  "AppController = controller []
     [\<lparr>ro_method = GET, ro_versioned = True, ro_path = [], ro_guard = None, ro_status = 200, ro_message = None,
       ro_user = NoUser, ro_dto = NoDto, ro_action = App_getHello, ro_documented = [], ro_bearer = False\<rparr>]"

definition HealthController :: "route list" where
  "HealthController = controller [Lit ''health'']
     [\<lparr>ro_method = GET, ro_versioned = False, ro_path = [], ro_guard = None, ro_status = 200, ro_message = None,
       ro_user = NoUser, ro_dto = NoDto, ro_action = Health_getHealth, ro_documented = [200, 503],
       ro_bearer = False\<rparr>]"

definition AuthController :: "route list" where
  "AuthController = controller [Lit ''auth'']
     [route POST [Lit ''register''] None 201 ''User registered successfully'' NoUser (BodyDto RegisterDto)
        Auth_register [201, 409, 422],
      route POST [Lit ''login''] None 200 ''Login successful'' NoUser (BodyDto LoginDto)
        Auth_login [200, 401, 422],
      route POST [Lit ''google'', Lit ''link'', Lit ''confirm''] None 200 ''Google account link confirmed'' NoUser
        (BodyDto ConfirmProviderLinkDto) Auth_confirmGoogleLink [200, 400, 409, 422],
      route POST [Lit ''refresh''] None 200 ''Token refreshed successfully'' NoUser (BodyDto RefreshTokenDto)
        Auth_refresh [200, 401],
      (route POST [Lit ''logout''] None 204 '''' NoUser (BodyDto RefreshTokenDto) Auth_logout [204])
        \<lparr>ro_message := None\<rparr>]"

definition GoogleAuthController :: "route list" where
  "GoogleAuthController = controller [Lit ''auth'', Lit ''google'']
     [(route GET [] (Some GoogleRedirectGuard) 200 '''' NoUser NoDto Google_start [302])\<lparr>ro_message := None\<rparr>,
      route GET [Lit ''callback''] (Some GoogleAuthGuard) 200 ''Google sign-in processed'' NoUser NoDto
        Google_callback [200, 202, 409]]"

definition UsersController :: "route list" where
  "UsersController = controller [Lit ''user'']
     [route GET [] (Some JwtAuthGuard) 200 ''User retrieved successfully'' CurrentUser NoDto
        Users_getCurrentUser [200, 401],
      route PUT [] (Some JwtAuthGuard) 200 ''User updated successfully'' CurrentUser (BodyDto UpdateUserDto)
        Users_updateUser [200, 401, 400, 409, 422, 413, 502, 503]]"

definition ArticlesController :: "route list" where
  "ArticlesController = controller [Lit ''articles'']
     [route POST [] (Some JwtAuthGuard) 201 ''Article created successfully'' CurrentUser
        (BodyDto CreateArticleDto) Articles_create [201, 401, 409, 422],
      route GET [] (Some OptionalJwtAuthGuard) 200 ''Articles retrieved successfully'' OptionalCurrentUser
        (QueryDto ListArticlesQueryDto) Articles_list [200, 422],
      route GET [Lit ''feed''] (Some JwtAuthGuard) 200 ''Feed retrieved successfully'' CurrentUser
        (QueryDto PaginationDto) Articles_feed [200, 401, 422],
      route POST [Lit ''preview''] (Some JwtAuthGuard) 200 ''Article preview generated successfully'' NoUser
        (BodyDto PreviewArticleDto) Articles_preview [200, 401, 422],
      route GET [Par ''slug''] (Some OptionalJwtAuthGuard) 200 ''Article retrieved successfully''
        OptionalCurrentUser NoDto Articles_getBySlug [200, 404],
      route PUT [Par ''slug''] (Some JwtAuthGuard) 200 ''Article updated successfully'' CurrentUser
        (BodyDto UpdateArticleDto) Articles_update [200, 401, 403, 404, 409, 422],
      route DELETE [Par ''slug''] (Some JwtAuthGuard) 200 ''Article deleted successfully'' CurrentUser NoDto
        Articles_remove [200, 401, 403, 404]]"

definition CommentsController :: "route list" where
  "CommentsController = controller [Lit ''articles'', Par ''slug'', Lit ''comments'']
     [route GET [] (Some OptionalJwtAuthGuard) 200 ''Comments retrieved successfully'' OptionalCurrentUser NoDto
        Comments_list [200, 404],
      route POST [] (Some JwtAuthGuard) 201 ''Comment created successfully'' CurrentUser
        (BodyDto CreateCommentDto) Comments_create [201, 401, 404, 422],
      route DELETE [Par ''id''] (Some JwtAuthGuard) 200 ''Comment deleted successfully'' CurrentUser NoDto
        Comments_remove [200, 401, 403, 404]]"

definition ProfilesController :: "route list" where
  "ProfilesController = controller [Lit ''profiles'']
     [route GET [Par ''username''] (Some OptionalJwtAuthGuard) 200 ''Profile retrieved successfully''
        OptionalCurrentUser NoDto Profiles_getProfile [200, 404],
      route POST [Par ''username'', Lit ''follow''] (Some JwtAuthGuard) 200 ''Followed successfully'' CurrentUser
        NoDto Profiles_followUser [200, 401, 404, 422],
      route DELETE [Par ''username'', Lit ''follow''] (Some JwtAuthGuard) 200 ''Unfollowed successfully''
        CurrentUser NoDto Profiles_unfollowUser [200, 401, 404]]"

definition FavoritesController :: "route list" where
  "FavoritesController = controller [Lit ''articles'', Par ''slug'', Lit ''favorite'']
     [route POST [] (Some JwtAuthGuard) 200 ''Article favorited successfully'' CurrentUser NoDto
        Favorites_favorite [200, 401, 404],
      route DELETE [] (Some JwtAuthGuard) 200 ''Article unfavorited successfully'' CurrentUser NoDto
        Favorites_unfavorite [200, 401, 404]]"

text \<open>The Google controller is there only when the module is configured.\<close>

definition GoogleAuthModule_register :: "bool \<Rightarrow> route list" where
  "GoogleAuthModule_register configured = (if configured then GoogleAuthController else [])"

definition AppModule_routes :: "bool \<Rightarrow> route list" where
  "AppModule_routes google = AppController @ AuthController @ GoogleAuthModule_register google @ UsersController
     @ ArticlesController @ CommentsController @ ProfilesController @ FavoritesController @ HealthController"

section \<open>The router\<close>

text \<open>\<open>enableVersioning\<close> (\<open>configure-app.ts\<close>): \<open>/v1\<close> in front of every route that is not version neutral.\<close>

definition full_path :: "route \<Rightarrow> segment list" where
  "full_path r = (if ro_versioned r then [Lit ''v1''] else []) @ ro_path r"

definition fold_case :: "jstr \<Rightarrow> jstr" where
  "fold_case s = map (\<lambda>c. if 65 \<le> c \<and> c \<le> 90 then c + 32 else c) s"

fun match_segments :: "segment list \<Rightarrow> jstr list \<Rightarrow> (string \<times> jstr) list option" where
  "match_segments [] [] = Some []"
| "match_segments (Lit l # ps) (s # ss) =
     (if fold_case (js l) = fold_case s then match_segments ps ss else None)"
| "match_segments (Par n # ps) (s # ss) =
     (if s = [] then None else map_option (\<lambda>ps'. (n, s) # ps') (match_segments ps ss))"
| "match_segments _ _ = None"

definition route_matches :: "http_method \<Rightarrow> jstr list \<Rightarrow> route \<Rightarrow> bool" where
  "route_matches m segs r \<longleftrightarrow> ro_method r = m \<and> match_segments (full_path r) segs \<noteq> None"

definition find_route :: "bool \<Rightarrow> http_method \<Rightarrow> jstr list \<Rightarrow> route option" where
  "find_route google m segs = find (route_matches m segs) (AppModule_routes google)"

definition param :: "route \<Rightarrow> jstr list \<Rightarrow> string \<Rightarrow> jstr" where
  "param r segs n = (case match_segments (full_path r) segs of
     Some ps \<Rightarrow> (case map_of ps n of Some v \<Rightarrow> v | None \<Rightarrow> []) | None \<Rightarrow> [])"

section \<open>The guards\<close>

text \<open>
  \<open>JwtStrategy\<close>: the bearer token, checked and decoded by \<open>passport-jwt\<close> (the parameter), and \<open>validate\<close>, which
  keeps its subject. A guard answers with the user it puts on the request.
\<close>

definition jwt_validate :: "nat \<Rightarrow> nat" where
  "jwt_validate sub = sub"

definition JwtStrategy :: "(jstr \<Rightarrow> nat option) \<Rightarrow> jstr option \<Rightarrow> nat option" where
  "JwtStrategy verify bearer = (case bearer of
     None \<Rightarrow> None | Some token \<Rightarrow> map_option jwt_validate (verify token))"

definition unauthorized :: thrown where
  "unauthorized = UnauthorizedException (Text (js ''Unauthorized''))"

definition optional_handleRequest :: "nat option \<Rightarrow> nat option" where
  "optional_handleRequest user = user"

text \<open>\<open>@CurrentUser()\<close> throws when there is no user, \<open>@OptionalCurrentUser()\<close> passes its absence on.\<close>

definition current_user :: "nat option \<Rightarrow> thrown + nat" where
  "current_user user = (case user of
     None \<Rightarrow> Inl (UnauthorizedException (Text (js ''User not authenticated''))) | Some u \<Rightarrow> Inr u)"

definition optional_current_user :: "nat option \<Rightarrow> nat option" where
  "optional_current_user user = user"

text \<open>\<open>GoogleAuthGuard.handleRequest\<close>: whatever went wrong with the exchange is a 401.\<close>

definition google_handleRequest :: "(thrown + 'u option) \<Rightarrow> thrown + 'u" where
  "google_handleRequest outcome = (case outcome of
     Inr (Some user) \<Rightarrow> Inr user
   | _ \<Rightarrow> Inl (UnauthorizedException (Text (js ''Google sign-in could not be completed''))))"

section \<open>Which routes overlap\<close>

fun overlap :: "segment list \<Rightarrow> segment list \<Rightarrow> bool" where
  "overlap [] [] = True"
| "overlap (Lit a # ps) (Lit b # qs) = (a = b \<and> overlap ps qs)"
| "overlap (_ # ps) (_ # qs) = overlap ps qs"
| "overlap _ _ = False"

definition lowercase :: "segment list \<Rightarrow> bool" where
  "lowercase ps \<longleftrightarrow> (\<forall>l. Lit l \<in> set ps \<longrightarrow> fold_case (js l) = js l)"

lemma lowercase_Cons [simp]:
  "lowercase []" "lowercase (Par n # ps) = lowercase ps"
  "lowercase (Lit l # ps) \<longleftrightarrow> fold_case (js l) = js l \<and> lowercase ps"
  by (auto simp: lowercase_def)

lemma match_Nil: "match_segments p [] \<noteq> None \<Longrightarrow> p = []"
  by (cases "(p, [] :: jstr list)" rule: match_segments.cases) auto

lemma match_Cons:
  assumes "match_segments p (x # xs) \<noteq> None"
  obtains a ps where "p = a # ps" "match_segments ps xs \<noteq> None" "\<And>l. a = Lit l \<Longrightarrow> fold_case (js l) = fold_case x"
  using assms
  by (cases p; cases "hd p") (auto split: if_splits)

lemma match_overlap:
  "match_segments p segs \<noteq> None \<Longrightarrow> match_segments q segs \<noteq> None \<Longrightarrow> lowercase p \<Longrightarrow> lowercase q \<Longrightarrow> overlap p q"
proof (induction segs arbitrary: p q)
  case Nil
  show ?case using match_Nil [OF Nil.prems(1)] match_Nil [OF Nil.prems(2)] by simp
next
  case (Cons x xs)
  obtain a ps where p: "p = a # ps" "match_segments ps xs \<noteq> None" "\<And>l. a = Lit l \<Longrightarrow> fold_case (js l) = fold_case x"
    by (rule match_Cons [OF Cons.prems(1)]) (rule that)
  obtain b qs where q: "q = b # qs" "match_segments qs xs \<noteq> None" "\<And>l. b = Lit l \<Longrightarrow> fold_case (js l) = fold_case x"
    by (rule match_Cons [OF Cons.prems(2)]) (rule that)
  have rest: "overlap ps qs"
    by (rule Cons.IH [OF p(2) q(2)]) (use Cons.prems(3,4) p(1) q(1) in \<open>auto simp: lowercase_def\<close>)
  show ?case
  proof (cases "\<exists>k l. a = Lit k \<and> b = Lit l")
    case True
    then obtain k l where kl: "a = Lit k" "b = Lit l" by blast
    then have "js k = js l" using Cons.prems(3,4) p(1,3) q(1,3) by simp
    then show ?thesis using rest p(1) q(1) kl by simp
  next
    case False
    then show ?thesis using rest p(1) q(1) by (cases a; cases b) simp_all
  qed
qed

type_synonym route_key = "http_method \<times> segment list \<times> action"

definition route_key :: "route \<Rightarrow> route_key" where
  "route_key r = (ro_method r, full_path r, ro_action r)"

text \<open>An earlier and a later route: no request matches both, but for the feed and the article by slug.\<close>

definition apart :: "route_key \<Rightarrow> route_key \<Rightarrow> bool" where
  "apart = (\<lambda>(m, p, a) (n, q, b). m \<noteq> n \<or> \<not> overlap p q \<or> a = Articles_feed \<and> b = Articles_getBySlug)"

definition lowercase_key :: "route_key \<Rightarrow> bool" where
  "lowercase_key = (\<lambda>(m, p, a). list_all (\<lambda>s. case s of Lit l \<Rightarrow> fold_case (js l) = js l | Par _ \<Rightarrow> True) p)"

lemma routes_checked:
  "sorted_wrt apart (map route_key (AppModule_routes True))"
  "sorted_wrt apart (map route_key (AppModule_routes False))"
  "list_all lowercase_key (map route_key (AppModule_routes True))"
  "list_all lowercase_key (map route_key (AppModule_routes False))"
  by code_simp+

lemma routes_apart: "sorted_wrt apart (map route_key (AppModule_routes g))"
  by (cases g) (simp_all only: routes_checked)

lemma routes_lowercase: "list_all lowercase_key (map route_key (AppModule_routes g))"
  by (cases g) (simp_all only: routes_checked)

lemma full_path_lowercase: "r \<in> set (AppModule_routes g) \<Longrightarrow> lowercase (full_path r)"
  using routes_lowercase [of g]
  by (fastforce simp: list_all_iff lowercase_key_def route_key_def lowercase_def)

lemma find_first:
  "sorted_wrt R xs \<Longrightarrow> x \<in> set xs \<Longrightarrow> P x \<Longrightarrow> find P xs = Some x \<or> (\<exists>y \<in> set xs. find P xs = Some y \<and> P y \<and> R y x)"
  by (induction xs) auto

lemmas controllers =
  AppModule_routes_def AppController_def AuthController_def GoogleAuthModule_register_def
  GoogleAuthController_def UsersController_def ArticlesController_def CommentsController_def
  ProfilesController_def FavoritesController_def HealthController_def controller_def route_def

lemma fold_case_js [simp]:
  "fold_case (js ''articles'') = js ''articles''" "fold_case (js ''v1'') = js ''v1''"
  "fold_case (js ''feed'') = js ''feed''" "fold_case (js ''auth'') = js ''auth''"
  by (simp_all add: fold_case_def js_def)

lemma find_route_article:
  assumes "slug \<noteq> []" and "fold_case slug \<noteq> js ''feed''"
  shows "find_route google GET [js ''v1'', js ''articles'', slug] = Some (ArticlesController ! 4)"
  using assms by (simp add: find_route_def controllers route_matches_def full_path_def)

lemma find_route_feed:
  "fold_case slug = js ''feed'' \<Longrightarrow>
   find_route google GET [js ''v1'', js ''articles'', slug] = Some (ArticlesController ! 2)"
  by (simp add: find_route_def controllers route_matches_def full_path_def)

lemma find_route_create:
  "find_route google POST [js ''v1'', js ''articles''] = Some (hd ArticlesController)"
  by (simp add: find_route_def controllers route_matches_def full_path_def)

definition account_actions :: "action set" where
  "account_actions = {Auth_register, Auth_login, Auth_confirmGoogleLink, Auth_refresh, Auth_logout}"

lemma write_guards:
  assumes "r \<in> set (AppModule_routes google)" and "ro_method r \<noteq> GET" and "ro_action r \<notin> account_actions"
  shows "ro_guard r = Some JwtAuthGuard"
proof -
  have "list_all (\<lambda>r. ro_method r = GET \<or> ro_action r \<in> account_actions \<or> ro_guard r = Some JwtAuthGuard)
      (AppModule_routes google)"
    by (simp add: controllers account_actions_def)
  then show ?thesis using assms by (auto simp: list_all_iff)
qed

text \<open>C36: The order of the routes does not matter: a route that matches a request is the one that answers it,
  with one exception, the route of an article by its slug, which the feed may take the request from.\<close>

theorem routes_are_unambiguous:
  assumes "r \<in> set (AppModule_routes google)" and "route_matches m segs r"
  shows "find_route google m segs = Some r \<or>
     ro_action r = Articles_getBySlug \<and> (\<exists>f. find_route google m segs = Some f \<and> ro_action f = Articles_feed)"
proof -
  have "sorted_wrt (\<lambda>x y. apart (route_key x) (route_key y)) (AppModule_routes google)"
    using routes_apart [of google] by (simp add: sorted_wrt_map)
  from find_first [OF this assms(1), of "route_matches m segs", OF assms(2)]
  consider "find_route google m segs = Some r"
    | f where "f \<in> set (AppModule_routes google)" "find_route google m segs = Some f" "route_matches m segs f"
        "apart (route_key f) (route_key r)"
    unfolding find_route_def by blast
  then show ?thesis
  proof cases
    case 2
    then have "overlap (full_path f) (full_path r)"
      using assms full_path_lowercase unfolding route_matches_def by (blast intro: match_overlap)
    then show ?thesis using 2 assms(2) by (auto simp: apart_def route_key_def route_matches_def)
  qed simp
qed

theorem routes_are_unambiguous_witness:
  "\<exists>r. find_route False GET [js ''health''] = Some r \<and> ro_action r = Health_getHealth"
proof -
  let ?r = "hd HealthController"
  have "?r \<in> set (AppModule_routes False)"
    by (simp add: AppModule_routes_def HealthController_def controller_def)
  moreover have "route_matches GET [js ''health''] ?r"
    by (simp add: HealthController_def controller_def route_matches_def full_path_def)
  ultimately show ?thesis
    using routes_are_unambiguous [of ?r False GET "[js ''health'']"]
    by (auto simp: HealthController_def controller_def)
qed

end
