(* ===== verification/Email.thy ===== *)
theory Email
  imports HttpErrors EmailHtml
begin

text \<open>
  The e-mail queue (\<open>src/email\<close>): the producer that adds jobs to BullMQ, the worker's processor, the
  registry of job handlers, the two handlers, the SMTP sender and the confirmation template.

  Parameters: whether \<open>Queue.add\<close> accepts a job and whether the SMTP transport accepts a mail (both
  may depend on everything accepted before), the clock, and \<open>withToken\<close>, which stands for the \<open>URL\<close>
  object with its \<open>token\<close> search parameter set. A queue is the list of accepted \<open>add\<close> calls, an
  outbox the list of accepted mails. A \<open>Date\<close> that travels as an ISO string is its time value.
\<close>

section \<open>Jobs\<close>

record link_job =
  lj_pendingId :: nat
  lj_recipient :: jstr
  lj_rawToken :: jstr
  lj_expiresAt :: int

record notification_job =
  nj_to :: jstr
  nj_recipientUsername :: jstr
  nj_subject :: jstr
  nj_body :: jstr
  nj_eventType :: jstr
  nj_articleId :: nat
  nj_recipientId :: nat

datatype job_data = LinkJob link_job | NotificationJob notification_job

record queued_job =
  q_name :: jstr
  q_data :: job_data
  q_attempts :: nat
  q_backoff :: "string \<times> nat"
  q_jobId :: jstr
  q_removeOnComplete :: bool
  q_removeOnFail :: "nat \<times> nat"

type_synonym queue_env = "queued_job list \<Rightarrow> queued_job \<Rightarrow> thrown option"

definition AUTH_PROVIDER_LINK_CONFIRMATION_JOB :: jstr where
  "AUTH_PROVIDER_LINK_CONFIRMATION_JOB = js ''auth-provider-link-confirmation''"

definition ARTICLE_NOTIFICATION_JOB :: jstr where
  "ARTICLE_NOTIFICATION_JOB = js ''article-notification''"

definition EMAIL_JOB_ID_PREFIX :: jstr where
  "EMAIL_JOB_ID_PREFIX = js ''google-link-''"

definition ARTICLE_NOTIFICATION_JOB_ID_PREFIX :: jstr where
  "ARTICLE_NOTIFICATION_JOB_ID_PREFIX = js ''article-notification-''"

definition EMAIL_QUEUE_ATTEMPTS :: nat where
  "EMAIL_QUEUE_ATTEMPTS = 3"

definition queue_add :: "queue_env \<Rightarrow> queued_job \<Rightarrow> (thrown, unit, queued_job list) comp" where
  "queue_add env j q = (case env q j of Some e \<Rightarrow> (Inl e, q) | None \<Rightarrow> (Inr (), q @ [j]))"

definition linkJobId :: "link_job \<Rightarrow> jstr \<Rightarrow> jstr" where
  "linkJobId j prefix = EMAIL_JOB_ID_PREFIX @ show_nat (lj_pendingId j) @ js ''-'' @ prefix"

definition notificationJobId :: "notification_job \<Rightarrow> jstr" where
  "notificationJobId j = ARTICLE_NOTIFICATION_JOB_ID_PREFIX @ nj_eventType j @ js ''-'' @
     show_nat (nj_articleId j) @ js ''-'' @ show_nat (nj_recipientId j)"

definition email_job :: "jstr \<Rightarrow> job_data \<Rightarrow> jstr \<Rightarrow> queued_job" where
  "email_job nm data jid = \<lparr>q_name = nm, q_data = data, q_attempts = EMAIL_QUEUE_ATTEMPTS,
     q_backoff = (''exponential'', 5000), q_jobId = jid, q_removeOnComplete = True,
     q_removeOnFail = (86400, 1000)\<rparr>"

definition enqueueProviderLinkConfirmation ::
    "queue_env \<Rightarrow> link_job \<Rightarrow> jstr \<Rightarrow> (thrown, unit, queued_job list) comp" where
  "enqueueProviderLinkConfirmation env j prefix q =
     queue_add env (email_job AUTH_PROVIDER_LINK_CONFIRMATION_JOB (LinkJob j) (linkJobId j prefix)) q"

definition enqueueArticleNotification ::
    "queue_env \<Rightarrow> notification_job \<Rightarrow> (thrown, unit, queued_job list) comp" where
  "enqueueArticleNotification env j q =
     queue_add env (email_job ARTICLE_NOTIFICATION_JOB (NotificationJob j) (notificationJobId j)) q"

section \<open>The confirmation template\<close>

definition escapeHtml :: "jstr \<Rightarrow> jstr" where
  "escapeHtml s =
     replace_char 39 (js ''&#39;'')
       (replace_char 34 (js ''&quot;'')
         (replace_char 62 (js ''&gt;'')
           (replace_char 60 (js ''&lt;'')
             (replace_char 38 (js ''&amp;'') s))))"

record template_config =
  confirmUrl :: "jstr option"
  withToken :: "jstr \<Rightarrow> jstr \<Rightarrow> jstr"

record email_content =
  ec_subject :: jstr
  ec_text :: jstr
  ec_html :: jstr

definition template_confirmUrl :: "template_config \<Rightarrow> jstr" where
  "template_confirmUrl cfg = (case confirmUrl cfg of
     Some u \<Rightarrow> if u \<noteq> [] then u else js ''http://localhost:3000/auth/google/link/confirm''
   | None \<Rightarrow> js ''http://localhost:3000/auth/google/link/confirm'')"

definition render :: "template_config \<Rightarrow> jstr \<Rightarrow> email_content" where
  "render cfg rawToken =
     (let urlString = withToken cfg (template_confirmUrl cfg) rawToken
      in \<lparr>ec_subject = js ''Confirm your Google account link'',
          ec_text = join_with [10]
            [js ''Conduit - Confirm your Google account link'',
             [],
             js ''We received a request to sign in with Google using this email address for your Conduit account.'',
             js ''Your existing password has not been changed and remains secure.'',
             [],
             js ''Confirm the link within 15 minutes:'',
             urlString,
             [],
             js ''If you did not make this request, you can safely ignore this email.'',
             js ''Your Conduit account and password remain completely secure.''],
          ec_html = buildProviderLinkEmailHtml (escapeHtml urlString)\<rparr>)"

section \<open>Sending\<close>

record mail =
  m_from :: jstr
  m_to :: jstr
  m_subject :: jstr
  m_text :: jstr
  m_html :: "jstr option"

record mail_env =
  mailFrom :: jstr
  transport :: "mail list \<Rightarrow> mail \<Rightarrow> thrown option"
  mailClock :: "mail list \<Rightarrow> int"
  template :: template_config

text \<open>\<open>SmtpMailSender.send\<close> logs a failure of the transport and throws it on.\<close>

definition send :: "mail_env \<Rightarrow> jstr \<Rightarrow> jstr \<Rightarrow> jstr \<Rightarrow> jstr option \<Rightarrow> (thrown, unit, mail list) comp" where
  "send env to subject txt html out =
     (let m = \<lparr>m_from = mailFrom env, m_to = to, m_subject = subject, m_text = txt, m_html = html\<rparr>
      in case transport env out m of Some e \<Rightarrow> (Inl e, out) | None \<Rightarrow> (Inr (), out @ [m]))"

text \<open>
  The handlers. A job arrives with the data its producer gave it; a handler that is given the data
  of another job would read undefined properties, which the type of its argument excludes.
\<close>

definition handleLinkConfirmation :: "mail_env \<Rightarrow> link_job \<Rightarrow> (thrown, unit, mail list) comp" where
  "handleLinkConfirmation env j out =
     (if mailClock env out \<ge> lj_expiresAt j then (Inr (), out)
      else let t = render (template env) (lj_rawToken j)
           in send env (lj_recipient j) (ec_subject t) (ec_text t) (Some (ec_html t)) out)"

definition handleNotification :: "mail_env \<Rightarrow> notification_job \<Rightarrow> (thrown, unit, mail list) comp" where
  "handleNotification env j out = send env (nj_to j) (nj_subject j) (nj_body j) None out"

datatype handler = LinkConfirmationHandler | NotificationHandler

type_synonym registry = "jstr \<rightharpoonup> handler"

definition jobName :: "handler \<Rightarrow> jstr" where
  "jobName h = (case h of LinkConfirmationHandler \<Rightarrow> AUTH_PROVIDER_LINK_CONFIRMATION_JOB
                        | NotificationHandler \<Rightarrow> ARTICLE_NOTIFICATION_JOB)"

definition register_handler :: "handler \<Rightarrow> registry \<Rightarrow> registry" where
  "register_handler h reg = reg(jobName h \<mapsto> h)"

definition handle :: "mail_env \<Rightarrow> handler \<Rightarrow> job_data \<Rightarrow> (thrown, unit, mail list) comp" where
  "handle env h data out = (case (h, data) of
     (LinkConfirmationHandler, LinkJob j) \<Rightarrow> handleLinkConfirmation env j out
   | (NotificationHandler, NotificationJob j) \<Rightarrow> handleNotification env j out
   | _ \<Rightarrow> (Inl (JsError (js ''TypeError'')), out))"

definition process :: "mail_env \<Rightarrow> registry \<Rightarrow> jstr \<Rightarrow> job_data \<Rightarrow> (thrown, unit, mail list) comp" where
  "process env reg nm data out = (case reg nm of
     None \<Rightarrow> (Inl (JsError (js ''Unknown job name: '' @ nm)), out)
   | Some h \<Rightarrow> handle env h data out)"

text \<open>Both handlers register themselves in \<open>onModuleInit\<close>.\<close>

definition booted_registry :: registry where
  "booted_registry =
     register_handler NotificationHandler (register_handler LinkConfirmationHandler Map.empty)"

text \<open>\<open>onFailed\<close>: \<open>True\<close> for the error log of an exhausted job, \<open>False\<close> for the warning.\<close>

definition onFailed :: "nat option \<Rightarrow> nat \<Rightarrow> bool" where
  "onFailed attempts attemptsMade \<longleftrightarrow>
     attemptsMade \<ge> (case attempts of Some n \<Rightarrow> n | None \<Rightarrow> 1)"

section \<open>Jobs that are retried\<close>

text \<open>
  What the queue needs of a job handler, whatever the job: an attempt that throws has sent nothing,
  one that returns has sent at most one mail. \<open>retried n\<close> is \<open>n\<close> attempts at the same job, each after
  the first made only because the one before threw.
\<close>

fun retried :: "('j \<Rightarrow> (thrown, unit, mail list) comp) \<Rightarrow> nat \<Rightarrow> 'j \<Rightarrow> mail list \<Rightarrow> bool \<times> mail list" where
  "retried run 0 j out = (False, out)"
| "retried run (Suc n) j out = (case run j out of
     (Inr _, out') \<Rightarrow> (True, out')
   | (Inl _, out') \<Rightarrow> retried run n j out')"

locale mail_job =
  fixes run :: "'j \<Rightarrow> (thrown, unit, mail list) comp"
  assumes throws_clean: "run j out = (Inl e, out') \<Longrightarrow> out' = out"
    and sends_at_most_one: "run j out = (Inr u, out') \<Longrightarrow> out' = out \<or> (\<exists>m. out' = out @ [m])"
begin

lemma retried_at_most_one:
  "retried run n j out = (done, out') \<Longrightarrow> out' = out \<or> (done \<and> (\<exists>m. out' = out @ [m]))"
proof (induction n arbitrary: out)
  case (Suc n)
  obtain r o1 where run: "run j out = (r, o1)" by fastforce
  show ?case
  proof (cases r)
    case (Inl e)
    then show ?thesis using Suc run throws_clean by force
  next
    case (Inr u)
    then show ?thesis using Suc.prems run sends_at_most_one [of j out u o1] by auto
  qed
qed simp

end

lemma send_cases:
  "send env to s t h out = (r, out') \<Longrightarrow>
     (\<exists>e. r = Inl e \<and> out' = out) \<or>
     (r = Inr () \<and> out' = out @ [\<lparr>m_from = mailFrom env, m_to = to, m_subject = s, m_text = t, m_html = h\<rparr>])"
  by (auto simp: send_def Let_def split: option.splits)

interpretation link_mail: mail_job "handleLinkConfirmation env" for env
proof
  fix j out out' and e :: thrown and u :: unit
  show "handleLinkConfirmation env j out = (Inl e, out') \<Longrightarrow> out' = out"
    "handleLinkConfirmation env j out = (Inr u, out') \<Longrightarrow> out' = out \<or> (\<exists>m. out' = out @ [m])"
    by (auto simp: handleLinkConfirmation_def Let_def dest!: send_cases split: if_splits)
qed

interpretation notification_mail: mail_job "handleNotification env" for env
proof
  fix j out out' and e :: thrown and u :: unit
  show "handleNotification env j out = (Inl e, out') \<Longrightarrow> out' = out"
    "handleNotification env j out = (Inr u, out') \<Longrightarrow> out' = out \<or> (\<exists>m. out' = out @ [m])"
    by (auto simp: handleNotification_def dest!: send_cases)
qed

interpretation queued_mail: mail_job "\<lambda>(nm, data). process env reg nm data" for env reg
proof
  fix j :: "jstr \<times> job_data" and out out' and e :: thrown and u :: unit
  obtain nm data where j: "j = (nm, data)" by fastforce
  show "(\<lambda>(nm, data). process env reg nm data) j out = (Inl e, out') \<Longrightarrow> out' = out"
    "(\<lambda>(nm, data). process env reg nm data) j out = (Inr u, out') \<Longrightarrow>
       out' = out \<or> (\<exists>m. out' = out @ [m])"
    using j link_mail.throws_clean link_mail.sends_at_most_one notification_mail.throws_clean
      notification_mail.sends_at_most_one
    by (auto simp: process_def handle_def split: option.splits handler.splits job_data.splits)
qed

section \<open>Properties\<close>

text \<open>However often the queue retries a job, and whatever name and data it carries, at most one
  mail leaves for it, and only in the attempt that is reported as done.\<close>

theorem retried_job_mails_once:
  "case retried (\<lambda>(nm, data). process env reg nm data) n (nm, data) out of
     (finished, out') \<Rightarrow> out' = out \<or> finished \<and> (\<exists>m. out' = out @ [m])"
  using queued_mail.retried_at_most_one [of env reg n "(nm, data)" out] by (auto split: prod.split)

text \<open>A confirmation job the producer accepted is handled by the confirmation handler: before it
  expires one mail with the raw token's link goes to its recipient, at the expiry or later nothing
  is sent and the job is done.\<close>

theorem produced_link_job_is_delivered:
  assumes "env_q q (email_job AUTH_PROVIDER_LINK_CONFIRMATION_JOB (LinkJob j) (linkJobId j prefix)) = None"
    and "\<forall>m. transport env out m = None"
  shows "\<exists>job. enqueueProviderLinkConfirmation env_q j prefix q = (Inr (), q @ [job])
     \<and> process env booted_registry (q_name job) (q_data job) out =
        (Inr (),
         if mailClock env out < lj_expiresAt j
         then out @ [\<lparr>m_from = mailFrom env, m_to = lj_recipient j,
                      m_subject = js ''Confirm your Google account link'',
                      m_text = ec_text (render (template env) (lj_rawToken j)),
                      m_html = Some (ec_html (render (template env) (lj_rawToken j)))\<rparr>]
         else out)"
  using assms
  by (auto simp: enqueueProviderLinkConfirmation_def queue_add_def email_job_def process_def
      booted_registry_def register_handler_def jobName_def handle_def handleLinkConfirmation_def
      send_def Let_def render_def AUTH_PROVIDER_LINK_CONFIRMATION_JOB_def ARTICLE_NOTIFICATION_JOB_def)

definition demo_mail_env :: mail_env where
  "demo_mail_env = \<lparr>mailFrom = js ''no-reply'', transport = (\<lambda>_ _. None), mailClock = (\<lambda>_. 10),
     template = \<lparr>confirmUrl = None, withToken = (\<lambda>u t. u @ js ''?token='' @ t)\<rparr>\<rparr>"

definition demo_link_job :: link_job where
  "demo_link_job = \<lparr>lj_pendingId = 7, lj_recipient = js ''a@x.io'', lj_rawToken = js ''raw'', lj_expiresAt = 20\<rparr>"

theorem produced_link_job_is_delivered_witness:
  "\<exists>job. enqueueProviderLinkConfirmation (\<lambda>_ _. None) demo_link_job (js ''abcd'') [] = (Inr (), [job])
     \<and> (\<exists>m. process demo_mail_env booted_registry (q_name job) (q_data job) [] = (Inr (), [m])
           \<and> m_to m = js ''a@x.io'')"
  using produced_link_job_is_delivered [of "\<lambda>_ _. None" "[]" demo_link_job "js ''abcd''" demo_mail_env "[]"]
  by (auto simp: demo_mail_env_def demo_link_job_def)

text \<open>Two jobs share an id only if they are the same kind of job about the same thing: the
  notification ids determine event, article and recipient, the link ids the pending row and the hash
  prefix, and the two families do not meet. BullMQ, which ignores a job whose id it already holds,
  therefore drops only repetitions.\<close>

theorem job_ids_identify_jobs:
  "(notificationJobId j = notificationJobId j' \<longleftrightarrow>
      nj_eventType j = nj_eventType j' \<and> nj_articleId j = nj_articleId j'
      \<and> nj_recipientId j = nj_recipientId j')
   \<and> (linkJobId l p = linkJobId l' p' \<longleftrightarrow> lj_pendingId l = lj_pendingId l' \<and> p = p')
   \<and> linkJobId l p \<noteq> notificationJobId j"
proof (intro conjI)
  have "notificationJobId x = ARTICLE_NOTIFICATION_JOB_ID_PREFIX @
      (nj_eventType x @ 45 # show_nat (nj_articleId x)) @ 45 # show_nat (nj_recipientId x)" for x
    by (simp add: notificationJobId_def)
  then show "notificationJobId j = notificationJobId j' \<longleftrightarrow>
      nj_eventType j = nj_eventType j' \<and> nj_articleId j = nj_articleId j'
      \<and> nj_recipientId j = nj_recipientId j'"
    by (simp only: same_append_eq sep_back [OF dash_not_digit dash_not_digit] show_nat_inj) blast
  show "linkJobId l p = linkJobId l' p' \<longleftrightarrow> lj_pendingId l = lj_pendingId l' \<and> p = p'"
    by (simp add: linkJobId_def sep_front)
  show "linkJobId l p \<noteq> notificationJobId j"
    by (simp add: linkJobId_def notificationJobId_def EMAIL_JOB_ID_PREFIX_def
        ARTICLE_NOTIFICATION_JOB_ID_PREFIX_def js_def)
qed

text \<open>
  The specification of \<open>escapeHtml\<close>: each of the five characters becomes its entity, in one pass, and
  a browser reading the entities gets the text back.
\<close>

definition entity :: "nat \<Rightarrow> jstr" where
  "entity c = (if c = 38 then js ''&amp;'' else if c = 60 then js ''&lt;''
     else if c = 62 then js ''&gt;'' else if c = 34 then js ''&quot;''
     else if c = 39 then js ''&#39;'' else [c])"

definition entities :: "(jstr \<times> nat) list" where
  "entities = [(js ''&amp;'', 38), (js ''&lt;'', 60), (js ''&gt;'', 62), (js ''&quot;'', 34), (js ''&#39;'', 39)]"

function unescapeHtml :: "jstr \<Rightarrow> jstr" where
  "unescapeHtml [] = []"
| "unescapeHtml (c # s) = (case find (\<lambda>(e, _). startsWith (c # s) e) entities of
     Some (e, d) \<Rightarrow> d # unescapeHtml (drop (length e - 1) s)
   | None \<Rightarrow> c # unescapeHtml s)"
  by pat_completeness auto
termination
  by (relation "measure length") auto

lemma replace_char_append [simp]: "replace_char c r (a @ b) = replace_char c r a @ replace_char c r b"
  by (simp add: replace_char_def)

lemma replace_char_Cons: "replace_char c r (d # s) = (if d = c then r else [d]) @ replace_char c r s"
  by (simp add: replace_char_def)

lemma replace_char_Nil [simp]: "replace_char c r [] = []"
  by (simp add: replace_char_def)

lemma escapeHtml_one_pass: "escapeHtml s = concat (map entity s)"
proof (induction s)
  case (Cons c s)
  have "escapeHtml (c # s) = escapeHtml [c] @ escapeHtml s"
    using replace_char_append [of 38 _ "[c]" s] by (simp add: escapeHtml_def)
  moreover have "escapeHtml [c] = entity c"
    by (simp add: escapeHtml_def entity_def replace_char_Cons js_def)
  ultimately show ?case using Cons by simp
qed (simp add: escapeHtml_def)

text \<open>C34: The escaped link can stand in an attribute or in text: it has no quote and no angle bracket,
  and reading its entities gives the link back, so no two links are confused.\<close>

theorem escapeHtml_safe_and_faithful:
  "set (escapeHtml s) \<inter> {34, 39, 60, 62} = {} \<and> unescapeHtml (escapeHtml s) = s"
proof
  show "set (escapeHtml s) \<inter> {34, 39, 60, 62} = {}"
    by (auto simp: escapeHtml_one_pass entity_def js_def split: if_splits)
  show "unescapeHtml (escapeHtml s) = s"
    unfolding escapeHtml_one_pass
  proof (induction s)
    case (Cons c s)
    then show ?case
      by (auto simp: entity_def js_def entities_def startsWith_def)
  qed simp
qed

end
