(* ===== verification/Config.thy ===== *)
theory Config
  imports Endpoints FileStorage Email
begin

text \<open>
  The readers of the environment: Kafka (\<open>kafka.config.ts\<close>), Redis (\<open>redis.config.ts\<close>), mail (\<open>email.config.ts\<close> and the
  transport of \<open>smtp-mail-sender.ts\<close>), Google (\<open>google-auth.config.ts\<close>), storage (\<open>file-storage.config.ts\<close>), the secret
  of \<open>JwtStrategy\<close>, the preview service and what \<open>main.ts\<close> starts. \<open>process.env\<close> and \<open>ConfigService\<close> are the same map
  from names to texts. Node's \<open>URL\<close> parser and \<open>decodeURIComponent\<close> are parameters of the Redis reader.
\<close>

type_synonym environment = "string \<Rightarrow> jstr option"

text \<open>\<open>x || d\<close> and \<open>x ?? d\<close>; \<open>x || undefined\<close> keeps a text that is not empty.\<close>

definition given :: "jstr option \<Rightarrow> jstr option" where
  "given x = (case x of None \<Rightarrow> None | Some s \<Rightarrow> if s = [] then None else Some s)"

definition or_else :: "jstr option \<Rightarrow> jstr \<Rightarrow> jstr" where
  "or_else x d = (case given x of None \<Rightarrow> d | Some s \<Rightarrow> s)"

definition or_default :: "jstr option \<Rightarrow> jstr \<Rightarrow> jstr" where
  "or_default x d = (case x of None \<Rightarrow> d | Some s \<Rightarrow> s)"

lemma given_simps [simp]: "given None = None" "given (Some []) = None" "s \<noteq> [] \<Longrightarrow> given (Some s) = Some s"
  by (simp_all add: given_def)

lemma given_trim: "given (map_option trim x) = (case x of None \<Rightarrow> None | Some s \<Rightarrow> if nonBlank s then Some (trim s) else None)"
  by (cases x) (auto simp: given_def trim_Nil_iff)

section \<open>Kafka\<close>

datatype ssl_setting = DefaultTrust | Trusting "jstr list"

record sasl_settings =
  sasl_mechanism :: jstr
  sasl_username :: jstr
  sasl_password :: jstr

record kafka_settings =
  kf_clientId :: jstr
  kf_brokers :: "jstr list"
  kf_ssl :: "ssl_setting option"
  kf_sasl :: "sasl_settings option"
  kf_groupId :: jstr

definition ARTICLE_NOTIFICATION_GROUP_ID :: jstr where
  "ARTICLE_NOTIFICATION_GROUP_ID = js ''realworld-notification-group''"

text \<open>\<open>/\\n/g\<close> becomes a line feed: a backslash and the letter n.\<close>

definition literal_newline :: jstr where "literal_newline = [92, 110]"

fun line_feeds :: "jstr \<Rightarrow> jstr" where
  "line_feeds [] = []"
| "line_feeds [c] = [c]"
| "line_feeds (c # d # s) = (if c = 92 \<and> d = 110 then 10 # line_feeds s else c # line_feeds (d # s))"

definition normalizePem :: "jstr \<Rightarrow> jstr" where
  "normalizePem pem = (if contains pem literal_newline then line_feeds pem else pem)"

definition buildSslSettings :: "jstr option \<Rightarrow> ssl_setting" where
  "buildSslSettings ca = (case given ca of Some pem \<Rightarrow> Trusting [normalizePem pem] | None \<Rightarrow> DefaultTrust)"

definition parseKafkaConfig :: "environment \<Rightarrow> kafka_settings" where
  "parseKafkaConfig env =
     (let brokerEnv = or_else (env ''KAFKA_BROKER'') (js ''localhost:9092'');
          brokers = filter (\<lambda>b. b \<noteq> []) (map trim (split_on 44 brokerEnv));
          sslCa = given (map_option trim (env ''KAFKA_SSL_CA''));
          ssl = (env ''KAFKA_SSL'' = Some (js ''true'') \<or> sslCa \<noteq> None);
          mechanism = or_default (env ''KAFKA_SASL_MECHANISM'') (js ''plain'');
          sasl = (case (given (env ''KAFKA_USERNAME''), given (env ''KAFKA_PASSWORD'')) of
                    (Some u, Some p) \<Rightarrow> Some \<lparr>sasl_mechanism = mechanism, sasl_username = u, sasl_password = p\<rparr>
                  | _ \<Rightarrow> None)
      in \<lparr>kf_clientId = or_default (env ''KAFKA_CLIENT_ID'') (js ''realworld-api''), kf_brokers = brokers,
          kf_ssl = (if ssl then Some (buildSslSettings sslCa) else None), kf_sasl = sasl,
          kf_groupId = or_default (env ''KAFKA_GROUP_ID'') ARTICLE_NOTIFICATION_GROUP_ID\<rparr>)"

section \<open>Redis\<close>

record url =
  url_protocol :: jstr
  url_hostname :: jstr
  url_port :: jstr
  url_username :: jstr
  url_password :: jstr
  url_pathname :: jstr

record url_env =
  ue_parse :: "jstr \<Rightarrow> url option"
  ue_decode :: "jstr \<Rightarrow> jstr option"
  ue_numbers :: validator_env

record redis_options =
  rd_host :: jstr
  rd_port :: "int option"
  rd_username :: "jstr option"
  rd_password :: "jstr option"
  rd_db :: "int option"
  rd_tls :: bool

definition DEFAULT_REDIS_PORT :: int where "DEFAULT_REDIS_PORT = 6379"

text \<open>A part of the address is decoded only when it is there, and a malformed escape throws.\<close>

definition decoded :: "url_env \<Rightarrow> jstr \<Rightarrow> thrown + jstr option" where
  "decoded ue s = (if s = [] then Inr None
     else case ue_decode ue s of None \<Rightarrow> Inl (JsError (js ''URI malformed'')) | Some t \<Rightarrow> Inr (Some t))"

definition parseRedisUrl :: "url_env \<Rightarrow> jstr \<Rightarrow> thrown + redis_options" where
  "parseRedisUrl ue value = (case ue_parse ue value of
     None \<Rightarrow> Inl (JsError (js ''Invalid URL''))
   | Some u \<Rightarrow>
       if url_protocol u \<noteq> js ''redis:'' \<and> url_protocol u \<noteq> js ''rediss:'' then
         Inl (JsError (js ''REDIS_URL must use redis: or rediss:''))
       else let db = (if url_pathname u \<noteq> [] \<and> hd (url_pathname u) = 47 then tl (url_pathname u) else url_pathname u)
         in case decoded ue (url_username u) of Inl e \<Rightarrow> Inl e | Inr un \<Rightarrow>
            (case decoded ue (url_password u) of Inl e \<Rightarrow> Inl e | Inr pw \<Rightarrow>
             Inr \<lparr>rd_host = url_hostname u,
               rd_port = (if url_port u \<noteq> [] then js_Number (ue_numbers ue) (url_port u)
                          else Some DEFAULT_REDIS_PORT),
               rd_username = un, rd_password = pw,
               rd_db = (if db \<noteq> [] then js_Number (ue_numbers ue) db else None),
               rd_tls = (url_protocol u = js ''rediss:'')\<rparr>))"

text \<open>
  \<open>BackgroundJobsModule\<close>: the producer gives a command one retry, so that a request is answered when Redis is away;
  the worker waits for it (\<open>null\<close>).
\<close>

record bull_connection =
  bc_redis :: redis_options
  bc_maxRetriesPerRequest :: "nat option"
  bc_prefix :: jstr

definition bull_config :: "url_env \<Rightarrow> environment \<Rightarrow> nat option \<Rightarrow> thrown + bull_connection" where
  "bull_config ue env retries =
     (case parseRedisUrl ue (or_else (env ''REDIS_URL'') (js ''redis://localhost:6379'')) of
        Inl e \<Rightarrow> Inl e
      | Inr redis \<Rightarrow> Inr \<lparr>bc_redis = redis, bc_maxRetriesPerRequest = retries,
          bc_prefix = or_else (env ''REDIS_PREFIX'') (js ''realworld'')\<rparr>)"

definition BackgroundJobsModule_connections :: "url_env \<Rightarrow> environment \<Rightarrow> (string \<times> (thrown + bull_connection)) list" where
  "BackgroundJobsModule_connections ue env =
     [(''email-producer'', bull_config ue env (Some 1)), (''email-worker'', bull_config ue env None)]"

section \<open>Mail\<close>

record email_config =
  em_smtpHost :: jstr
  em_smtpPort :: int
  em_mailFrom :: jstr
  em_googleLinkConfirmUrl :: jstr
  em_smtpUser :: "jstr option"
  em_smtpPassword :: "jstr option"
  em_smtpSecure :: bool
  em_smtpRequireTls :: bool

definition parseEmailConfig :: "validator_env \<Rightarrow> environment \<Rightarrow> email_config" where
  "parseEmailConfig numbers env =
     \<lparr>em_smtpHost = or_else (env ''SMTP_HOST'') (js ''localhost''),
      em_smtpPort = (case env ''SMTP_PORT'' of None \<Rightarrow> 1025
        | Some s \<Rightarrow> (case js_Number numbers s of None \<Rightarrow> 1025 | Some n \<Rightarrow> if n = 0 then 1025 else n)),
      em_mailFrom = or_else (env ''MAIL_FROM'') (js ''no-reply@realworld.test''),
      em_googleLinkConfirmUrl =
        or_else (env ''GOOGLE_LINK_CONFIRM_URL'') (js ''http://localhost:3000/auth/google/link/confirm''),
      em_smtpUser = given (env ''SMTP_USER''), em_smtpPassword = given (env ''SMTP_PASSWORD''),
      em_smtpSecure = (env ''SMTP_SECURE'' = Some (js ''true'')),
      em_smtpRequireTls = (env ''SMTP_REQUIRE_TLS'' = Some (js ''true''))\<rparr>"

record smtp_transport =
  st_host :: jstr
  st_port :: int
  st_secure :: bool
  st_requireTLS :: bool
  st_connectionTimeout :: nat
  st_greetingTimeout :: nat
  st_socketTimeout :: nat
  st_auth :: "(jstr \<times> jstr) option"

definition smtp_transport_of :: "email_config \<Rightarrow> smtp_transport" where
  "smtp_transport_of c =
     \<lparr>st_host = em_smtpHost c, st_port = em_smtpPort c, st_secure = em_smtpSecure c,
      st_requireTLS = em_smtpRequireTls c, st_connectionTimeout = 10000, st_greetingTimeout = 10000,
      st_socketTimeout = 20000,
      st_auth = (case (given (em_smtpUser c), given (em_smtpPassword c)) of
          (Some u, Some p) \<Rightarrow> Some (u, p) | _ \<Rightarrow> None)\<rparr>"

section \<open>Google, storage, secrets\<close>

record google_config =
  gc_clientID :: jstr
  gc_clientSecret :: jstr
  gc_callbackURL :: jstr

definition readGoogleAuthConfig :: "environment \<Rightarrow> google_config option" where
  "readGoogleAuthConfig env =
     (case (given (map_option trim (env ''GOOGLE_CLIENT_ID'')), given (map_option trim (env ''GOOGLE_CLIENT_SECRET'')),
            given (map_option trim (env ''GOOGLE_CALLBACK_URL''))) of
        (Some i, Some s, Some u) \<Rightarrow> Some \<lparr>gc_clientID = i, gc_clientSecret = s, gc_callbackURL = u\<rparr>
      | _ \<Rightarrow> None)"

definition requireConfig :: "environment \<Rightarrow> string \<Rightarrow> thrown + jstr" where
  "requireConfig env key = (case given (env key) of
     None \<Rightarrow> Inl (JsError (js key @ js '' is not defined in environment variables'')) | Some v \<Rightarrow> Inr v)"

record s3_settings =
  s3_region :: jstr
  s3_accessKeyId :: jstr
  s3_secretAccessKey :: jstr
  s3_endpoint :: "jstr option"
  s3_forcePathStyle :: bool

definition createS3Client :: "environment \<Rightarrow> s3_settings" where
  "createS3Client env =
     \<lparr>s3_region = or_default (env ''STORAGE_REGION'') (js ''us-east-1''),
      s3_accessKeyId = or_default (env ''STORAGE_ACCESS_KEY'') [],
      s3_secretAccessKey = or_default (env ''STORAGE_SECRET_KEY'') [],
      s3_endpoint = given (env ''STORAGE_ENDPOINT''), s3_forcePathStyle = (given (env ''STORAGE_ENDPOINT'') \<noteq> None)\<rparr>"

text \<open>The driver is constructed with a client, a bucket and the public address of the bucket.\<close>

definition S3StorageDriver :: "environment \<Rightarrow> thrown + s3_settings \<times> jstr \<times> jstr" where
  "S3StorageDriver env =
     (let client = createS3Client env
      in case requireConfig env ''STORAGE_BUCKET'' of Inl e \<Rightarrow> Inl e | Inr bkt \<Rightarrow>
         (case requireConfig env ''STORAGE_PUBLIC_URL'' of Inl e \<Rightarrow> Inl e | Inr public \<Rightarrow> Inr (client, bkt, public)))"

definition jwt_secret :: "environment \<Rightarrow> thrown + jstr" where
  "jwt_secret env = (case given (env ''JWT_SECRET'') of
     None \<Rightarrow> Inl (JsError (js ''JWT_SECRET is not defined in environment variables'')) | Some v \<Rightarrow> Inr v)"

definition DEFAULT_ACCESS_TOKEN_TTL :: jstr where "DEFAULT_ACCESS_TOKEN_TTL = js ''15m''"

definition JwtModule_options :: "environment \<Rightarrow> jstr option \<times> jstr" where
  "JwtModule_options env = (env ''JWT_SECRET'', or_default (env ''JWT_EXPIRES_IN'') DEFAULT_ACCESS_TOKEN_TTL)"

section \<open>What is started\<close>

record grpc_options =
  go_package :: jstr
  go_proto :: jstr
  go_url :: jstr

definition CONTENT_PREVIEW_GRPC_PACKAGE :: jstr where "CONTENT_PREVIEW_GRPC_PACKAGE = js ''content.preview.v1''"
definition CONTENT_PREVIEW_GRPC_DEFAULT_URL :: jstr where "CONTENT_PREVIEW_GRPC_DEFAULT_URL = js ''127.0.0.1:50051''"

text \<open>The file of the protocol lies beside the compiled module, \<open>dirname\<close>.\<close>

definition createContentPreviewGrpcOptions :: "jstr \<Rightarrow> environment \<Rightarrow> grpc_options" where
  "createContentPreviewGrpcOptions dirname env =
     \<lparr>go_package = CONTENT_PREVIEW_GRPC_PACKAGE, go_proto = dirname @ js ''/content-preview.proto'',
      go_url = or_default (env ''CONTENT_PREVIEW_GRPC_URL'') CONTENT_PREVIEW_GRPC_DEFAULT_URL\<rparr>"

datatype microservice = GrpcService grpc_options | KafkaService kafka_settings

definition createMicroserviceOptions :: "environment \<Rightarrow> microservice" where
  "createMicroserviceOptions env = KafkaService (parseKafkaConfig env)"

text \<open>The client of \<open>KafkaModule\<close> only produces, and may create the topics.\<close>

record kafka_client =
  kc_clientId :: jstr
  kc_brokers :: "jstr list"
  kc_ssl :: "ssl_setting option"
  kc_sasl :: "sasl_settings option"
  kc_producerOnlyMode :: bool
  kc_allowAutoTopicCreation :: bool

definition KafkaModule_client :: "environment \<Rightarrow> kafka_client" where
  "KafkaModule_client env =
     (let config = parseKafkaConfig env
      in \<lparr>kc_clientId = kf_clientId config, kc_brokers = kf_brokers config, kc_ssl = kf_ssl config,
          kc_sasl = kf_sasl config, kc_producerOnlyMode = True, kc_allowAutoTopicCreation = True\<rparr>)"

text \<open>
  \<open>PrismaService\<close> logs the statements it sends, with their parameters, only in development and only when asked;
  a logged statement is three lines.
\<close>

datatype log_level = QueryLevel | InfoLevel | WarnLevel | ErrorLevel

datatype log_definition = AsEvent log_level | ToStdout log_level

definition shouldLogQueries :: "environment \<Rightarrow> bool" where
  "shouldLogQueries env \<longleftrightarrow> env ''NODE_ENV'' = Some (js ''development'') \<and> env ''DEBUG_SQL'' = Some (js ''true'')"

definition prisma_log :: "environment \<Rightarrow> log_definition list" where
  "prisma_log env = (if shouldLogQueries env
     then [AsEvent QueryLevel, ToStdout InfoLevel, ToStdout WarnLevel, ToStdout ErrorLevel] else [ToStdout ErrorLevel])"

definition on_query :: "environment \<Rightarrow> jstr \<Rightarrow> jstr \<Rightarrow> nat \<Rightarrow> jstr list" where
  "on_query env query params duration = (if shouldLogQueries env
     then [js ''Query: '' @ query, js ''Params: '' @ params, js ''Duration: '' @ show_nat duration @ js ''ms''] else [])"

text \<open>\<open>main.ts\<close>: the Kafka consumer is connected unless it is switched off; a port that is no number is \<open>None\<close>.\<close>

definition connected_microservices :: "jstr \<Rightarrow> environment \<Rightarrow> microservice list" where
  "connected_microservices dirname env = GrpcService (createContentPreviewGrpcOptions dirname env)
     # (if env ''ENABLE_KAFKA'' \<noteq> Some (js ''false'') then [createMicroserviceOptions env] else [])"

definition listen_port :: "validator_env \<Rightarrow> environment \<Rightarrow> int option" where
  "listen_port numbers env = (case env ''PORT'' of None \<Rightarrow> Some 3000 | Some s \<Rightarrow> js_Number numbers s)"

section \<open>Lemmas\<close>

lemma starts_with_n: "startsWith (line_feeds s) [110] = startsWith s [110]"
  by (cases s rule: line_feeds.cases) (auto simp: startsWith_def)

lemma starts_newline_Cons: "startsWith (c # s) literal_newline \<longleftrightarrow> c = 92 \<and> startsWith s [110]"
  by (simp add: literal_newline_def startsWith_def)

lemma starts_n_Cons: "startsWith (d # s) [110] \<longleftrightarrow> d = 110"
  by (simp add: startsWith_def)

lemma no_literal_newline: "\<not> contains (line_feeds s) literal_newline"
proof (induction s rule: line_feeds.induct)
  case (3 c d s)
  then show ?case using starts_with_n [of "d # s"] by (auto simp: starts_newline_Cons starts_n_Cons)
qed (simp_all add: literal_newline_def startsWith_def)

lemma normalizePem_clean: "\<not> contains (normalizePem pem) literal_newline"
  by (simp add: normalizePem_def no_literal_newline)

text \<open>What a PEM already has as line feeds is left alone, and normalizing twice changes nothing.\<close>

lemma normalizePem_idem [simp]: "normalizePem (normalizePem pem) = normalizePem pem"
  using normalizePem_clean [of pem] by (simp add: normalizePem_def [of "normalizePem pem"])

lemma readGoogleAuthConfig_Some_iff:
  "readGoogleAuthConfig env \<noteq> None \<longleftrightarrow>
     list_all (\<lambda>k. case env k of None \<Rightarrow> False | Some v \<Rightarrow> nonBlank v)
       [''GOOGLE_CLIENT_ID'', ''GOOGLE_CLIENT_SECRET'', ''GOOGLE_CALLBACK_URL'']"
  by (auto simp: readGoogleAuthConfig_def given_trim split: option.splits)

lemma find_route_google:
  "find_route g GET [js ''v1'', js ''auth'', js ''google''] \<noteq> None \<longleftrightarrow> g"
proof -
  have "find_route True GET [js ''v1'', js ''auth'', js ''google''] \<noteq> None"
    "find_route False GET [js ''v1'', js ''auth'', js ''google''] = None" by code_simp+
  then show ?thesis by (cases g) simp_all
qed

section \<open>What the configuration decides\<close>

text \<open>The routes of the Google sign-in exist exactly when all three of its variables are set to more than white space;
  half a configuration leaves them out, and the application boots.\<close>

theorem google_routes_need_all_three:
  "find_route (readGoogleAuthConfig env \<noteq> None) GET [js ''v1'', js ''auth'', js ''google''] \<noteq> None \<longleftrightarrow>
     list_all (\<lambda>k. case env k of None \<Rightarrow> False | Some v \<Rightarrow> nonBlank v)
       [''GOOGLE_CLIENT_ID'', ''GOOGLE_CLIENT_SECRET'', ''GOOGLE_CALLBACK_URL'']"
  by (simp only: find_route_google readGoogleAuthConfig_Some_iff)



end
