(* ===== verification/Logger.thy ===== *)
theory Logger
  imports Config
begin

text \<open>
  \<open>CustomLoggerService\<close> (\<open>logger/logger.service.ts\<close>): a console logger that also appends to a file. The writers of the files
  are opened on first use and kept in a \<open>Map\<close>; \<open>setFile\<close> redirects what follows. winston is the list of lines of every
  file; its clock and the levels its threshold lets through are arguments (created without a level, winston documents
  \<open>info\<close>, which leaves out \<open>verbose\<close> and \<open>debug\<close>). A message that is no text is written as JSON, whose text is the argument \<open>stringify\<close>;
  the console is the list of calls made to \<open>ConsoleLogger\<close>.
\<close>

datatype message = TextMessage jstr | ValueMessage json

record console_call =
  cl_level :: jstr
  cl_message :: message
  cl_rest :: "jstr option list"

record logger =
  lg_writers :: "jstr list"
  lg_defaultFileName :: jstr
  lg_currentFileName :: "jstr option"
  lg_context :: "jstr option"
  lg_files :: "jstr \<Rightarrow> jstr list"
  lg_console :: "console_call list"

record logger_env =
  le_timestamp :: jstr
  le_stringify :: "json \<Rightarrow> jstr"
  le_accepts :: "jstr \<Rightarrow> bool"

definition new_logger :: "jstr option \<Rightarrow> (jstr \<Rightarrow> jstr list) \<Rightarrow> logger" where
  "new_logger fileName files =
     \<lparr>lg_writers = [], lg_defaultFileName = or_else fileName (js ''nestjs.log''), lg_currentFileName = None,
      lg_context = None, lg_files = files, lg_console = []\<rparr>"

definition setFile :: "jstr \<Rightarrow> logger \<Rightarrow> logger" where
  "setFile fileName l = l\<lparr>lg_currentFileName := Some fileName\<rparr>"

definition file_path :: "jstr \<Rightarrow> jstr" where
  "file_path fileName = js ''logs/'' @ fileName"

definition getLogger :: "jstr \<Rightarrow> logger \<Rightarrow> logger" where
  "getLogger fileName l = (if fileName \<in> set (lg_writers l) then l else l\<lparr>lg_writers := lg_writers l @ [fileName]\<rparr>)"

text \<open>The \<open>printf\<close> format: time, level in capitals, context and message.\<close>

definition upper_level :: "jstr \<Rightarrow> jstr" where
  "upper_level level = map (\<lambda>c. if 97 \<le> c \<and> c \<le> 122 then c - 32 else c) level"

definition format_line :: "logger_env \<Rightarrow> jstr \<Rightarrow> jstr option \<Rightarrow> jstr \<Rightarrow> jstr" where
  "format_line env level context msg =
     js ''['' @ le_timestamp env @ js ''] ['' @ upper_level level @ js ''] [''
       @ (case context of Some c \<Rightarrow> c | None \<Rightarrow> js ''Application'') @ js ''] '' @ msg"

definition message_text :: "logger_env \<Rightarrow> message \<Rightarrow> jstr" where
  "message_text env m = (case m of TextMessage s \<Rightarrow> s | ValueMessage v \<Rightarrow> le_stringify env v)"

definition effective_context :: "jstr option \<Rightarrow> logger \<Rightarrow> jstr option" where
  "effective_context context l = (case given context of Some c \<Rightarrow> Some c | None \<Rightarrow> lg_context l)"

text \<open>\<open>logTo\<close> writes to the named file, \<open>writeToFile\<close> to the current or else the default one.\<close>

definition logTo :: "logger_env \<Rightarrow> jstr \<Rightarrow> jstr \<Rightarrow> message \<Rightarrow> jstr option \<Rightarrow> logger \<Rightarrow> logger" where
  "logTo env fileName level m context l =
     (let l' = getLogger fileName l; path = file_path fileName;
          line = format_line env level (effective_context context l) (message_text env m)
      in if le_accepts env level then l'\<lparr>lg_files := (lg_files l')(path := lg_files l' path @ [line])\<rparr> else l')"

definition writeToFile :: "logger_env \<Rightarrow> jstr \<Rightarrow> message \<Rightarrow> jstr option \<Rightarrow> logger \<Rightarrow> logger" where
  "writeToFile env level m context l =
     (let fileName = or_else (lg_currentFileName l) (lg_defaultFileName l)
      in logTo env fileName level m context l)"

definition console :: "jstr \<Rightarrow> message \<Rightarrow> jstr option list \<Rightarrow> logger \<Rightarrow> logger" where
  "console level m rest l = l\<lparr>lg_console := lg_console l @ [\<lparr>cl_level = level, cl_message = m, cl_rest = rest\<rparr>]\<rparr>"

text \<open>\<open>log\<close>, \<open>warn\<close>, \<open>debug\<close> and \<open>verbose\<close> pass the context on when there is one; the file calls \<open>log\<close> \<open>info\<close>.\<close>

definition log_with :: "jstr \<Rightarrow> jstr \<Rightarrow> logger_env \<Rightarrow> message \<Rightarrow> jstr option \<Rightarrow> logger \<Rightarrow> logger" where
  "log_with method level env m context l =
     writeToFile env level m context
       (console method m (case given context of Some c \<Rightarrow> [Some c] | None \<Rightarrow> []) l)"

definition log_info :: "logger_env \<Rightarrow> message \<Rightarrow> jstr option \<Rightarrow> logger \<Rightarrow> logger" where
  "log_info = log_with (js ''log'') (js ''info'')"

definition log_warn :: "logger_env \<Rightarrow> message \<Rightarrow> jstr option \<Rightarrow> logger \<Rightarrow> logger" where
  "log_warn = log_with (js ''warn'') (js ''warn'')"

definition log_debug :: "logger_env \<Rightarrow> message \<Rightarrow> jstr option \<Rightarrow> logger \<Rightarrow> logger" where
  "log_debug = log_with (js ''debug'') (js ''debug'')"

definition log_verbose :: "logger_env \<Rightarrow> message \<Rightarrow> jstr option \<Rightarrow> logger \<Rightarrow> logger" where
  "log_verbose = log_with (js ''verbose'') (js ''verbose'')"

text \<open>\<open>error\<close> takes a stack or a context, or both.\<close>

definition log_error :: "logger_env \<Rightarrow> message \<Rightarrow> jstr option \<Rightarrow> jstr option \<Rightarrow> logger \<Rightarrow> logger" where
  "log_error env m stackOrContext context l =
     writeToFile env (js ''error'') m (case given context of Some c \<Rightarrow> Some c | None \<Rightarrow> stackOrContext)
       (console (js ''error'') m [stackOrContext, context] l)"

section \<open>One line for one call\<close>

lemma logTo_files:
  "lg_files (logTo env f level m context l) = (if le_accepts env level
     then (lg_files l)(file_path f :=
       lg_files l (file_path f) @ [format_line env level (effective_context context l) (message_text env m)])
     else lg_files l)"
  by (simp add: logTo_def getLogger_def Let_def)

lemma writers_distinct [simp]:
  "distinct (lg_writers l) \<Longrightarrow> distinct (lg_writers (logTo env f level m context l))"
  by (simp add: logTo_def getLogger_def Let_def)

lemma console_frame [simp]:
  "lg_files (console level m rest l) = lg_files l" "lg_context (console level m rest l) = lg_context l"
  "lg_currentFileName (console level m rest l) = lg_currentFileName l"
  "lg_defaultFileName (console level m rest l) = lg_defaultFileName l" "lg_writers (console level m rest l) = lg_writers l"
  by (simp_all add: console_def)

lemma effective_context_console [simp]: "effective_context c (console level m rest l) = effective_context c l"
  by (simp add: effective_context_def split: option.split)

text \<open>An error is one more line at the end of the current file, and no other file changes.\<close>

lemma log_error_files:
  assumes "le_accepts env (js ''error'')"
  defines "f \<equiv> \<lambda>l. file_path (or_else (lg_currentFileName l) (lg_defaultFileName l))"
  shows "lg_files (log_error env m s c l) = (lg_files l)(f l := lg_files l (f l)
       @ [format_line env (js ''error'') (effective_context (case given c of Some c \<Rightarrow> Some c | None \<Rightarrow> s) l)
            (message_text env m)])"
  using assms(1) by (simp add: f_def log_error_def writeToFile_def logTo_files)

text \<open>What the threshold holds back is on the console only.\<close>

lemma held_back:
  "\<not> le_accepts env level \<Longrightarrow> lg_files (log_with method level env m c l) = lg_files l"
  by (simp add: log_with_def writeToFile_def logTo_files)

end
