(* ===== verification/Tokens.thy ===== *)
theory Tokens
  imports Database
begin

text \<open>
  Refresh tokens: the repository (\<open>src/auth/token/refresh-token.repository.ts\<close>), issue, rotation and
  revocation (\<open>src/auth/token/token.service.ts\<close>) and the nightly cleanup
  (\<open>src/auth/token/expired-token-cleanup.service.ts\<close>).

  Parameters: the digest, the JWT signer, the random bytes and the readings of the clock. A method
  with several database calls takes a \<open>sched\<close>: \<open>sched k\<close> is whatever other requests do to the
  database before its \<open>k\<close>-th call, so that \<open>\<lambda>_ d. d\<close> is the undisturbed run.
\<close>

record token_config =
  sha256 :: "jstr \<Rightarrow> jstr"
  signJwt :: "nat \<Rightarrow> int \<Rightarrow> jstr"
  ttlDays :: int

record token_pair =
  accessToken :: jstr
  refreshToken :: jstr

type_synonym sched = "nat \<Rightarrow> db \<Rightarrow> db"

abbreviation quiet :: sched where
  "quiet \<equiv> \<lambda>_ d. d"

definition DEFAULT_REFRESH_TOKEN_TTL_DAYS :: int where
  "DEFAULT_REFRESH_TOKEN_TTL_DAYS = 30"

definition MS_PER_DAY :: int where
  "MS_PER_DAY = 24 * 60 * 60 * 1000"

definition resolveRefreshTtlDays :: "jstr option \<Rightarrow> int" where
  "resolveRefreshTtlDays configured =
     (case parseInt10 (case configured of Some s \<Rightarrow> s | None \<Rightarrow> []) of
        Some n \<Rightarrow> if n > 0 then n else DEFAULT_REFRESH_TOKEN_TTL_DAYS
      | None \<Rightarrow> DEFAULT_REFRESH_TOKEN_TTL_DAYS)"

definition hashRefreshToken :: "token_config \<Rightarrow> jstr \<Rightarrow> jstr" where
  "hashRefreshToken cfg raw = sha256 cfg raw"

section \<open>RefreshTokenRepository\<close>

definition findByHash :: "jstr \<Rightarrow> db \<Rightarrow> refresh_token option" where
  "findByHash h d = find (\<lambda>t. rt_tokenHash t = h) (refreshTokens d)"

definition unspent :: "nat \<Rightarrow> refresh_token \<Rightarrow> bool" where
  "unspent i t \<longleftrightarrow> rt_id t = i \<and> rt_replacedById t = None"

text \<open>
  \<open>updateMany\<close> reports how many rows it wrote; writing a \<open>replacedById\<close> that another row holds
  violates its unique index.
\<close>

definition markAsUsed :: "nat \<Rightarrow> nat \<Rightarrow> (thrown, bool, db) comp" where
  "markAsUsed i rep d =
     (let n = count_where (unspent i) (refreshTokens d)
      in if n > 0 \<and> Some rep \<in> rt_replacedById ` set (refreshTokens d)
         then (Inl (unique_violation [''replacedById'']), d)
         else (Inr (n > 0),
               d\<lparr>refreshTokens :=
                   upd_where (unspent i) (\<lambda>t. t\<lparr>rt_replacedById := Some rep\<rparr>) (refreshTokens d)\<rparr>))"

definition revokeById :: "nat \<Rightarrow> int \<Rightarrow> (thrown, unit, db) comp" where
  "revokeById i now d =
     (if i \<in> rt_id ` set (refreshTokens d)
      then (Inr (), d\<lparr>refreshTokens :=
              upd_where (\<lambda>t. rt_id t = i) (\<lambda>t. t\<lparr>rt_revokedAt := Some now\<rparr>) (refreshTokens d)\<rparr>)
      else (Inl record_not_found, d))"

definition revokeAllForUser :: "nat \<Rightarrow> int \<Rightarrow> db \<Rightarrow> db" where
  "revokeAllForUser uid now d =
     d\<lparr>refreshTokens :=
         upd_where (\<lambda>t. rt_userId t = uid \<and> rt_revokedAt t = None)
           (\<lambda>t. t\<lparr>rt_revokedAt := Some now\<rparr>) (refreshTokens d)\<rparr>"

definition deleteExpiredTokens :: "int \<Rightarrow> db \<Rightarrow> nat \<times> db" where
  "deleteExpiredTokens now d =
     (count_where (\<lambda>t. rt_expiresAt t < now) (refreshTokens d),
      d\<lparr>refreshTokens := del_where (\<lambda>t. rt_expiresAt t < now) (refreshTokens d)\<rparr>)"

section \<open>TokenService\<close>

definition expiry :: "token_config \<Rightarrow> int \<Rightarrow> int" where
  "expiry cfg now = now + ttlDays cfg * MS_PER_DAY"

definition createTokenPair ::
    "token_config \<Rightarrow> nat \<Rightarrow> int \<Rightarrow> jstr \<Rightarrow> (thrown, token_pair \<times> nat, db) comp" where
  "createTokenPair cfg uid now fresh d =
     andThen (create_refresh_token uid (hashRefreshToken cfg fresh) (expiry cfg now) now d)
       (\<lambda>row d'. (Inr (\<lparr>accessToken = signJwt cfg uid now, refreshToken = fresh\<rparr>, rt_id row), d'))"

definition issueTokens :: "token_config \<Rightarrow> int \<Rightarrow> jstr \<Rightarrow> nat \<Rightarrow> (thrown, token_pair, db) comp" where
  "issueTokens cfg now fresh uid d =
     andThen (createTokenPair cfg uid now fresh d) (\<lambda>(pair, _) d'. (Inr pair, d'))"

definition invalid_refresh_token :: thrown where
  "invalid_refresh_token = UnauthorizedException (Text (js ''Invalid refresh token''))"

text \<open>\<open>rotate\<close> first reads the presented token and decides \<dots>\<close>

datatype rotate_decision = Reject | Replayed nat | Proceed refresh_token

definition rotateRead :: "token_config \<Rightarrow> int \<Rightarrow> jstr \<Rightarrow> db \<Rightarrow> rotate_decision" where
  "rotateRead cfg now raw d = (case findByHash (hashRefreshToken cfg raw) d of
     None \<Rightarrow> Reject
   | Some stored \<Rightarrow>
       if rt_replacedById stored \<noteq> None then Replayed (rt_userId stored)
       else if rt_revokedAt stored \<noteq> None \<or> rt_expiresAt stored \<le> now then Reject
       else Proceed stored)"

text \<open>
  \<open>\<dots>\<close> and then runs one transaction: create the successor, mark the row as used. An exception rolls
  it back; the flag of the error is the closure's \<open>userIdToRevoke\<close>, set when another request spent
  the row first.
\<close>

definition rotateCommit ::
    "token_config \<Rightarrow> int \<Rightarrow> jstr \<Rightarrow> refresh_token \<Rightarrow> (bool \<times> thrown, token_pair, db) comp" where
  "rotateCommit cfg now fresh stored d =
     (case createTokenPair cfg (rt_userId stored) now fresh d of
        (Inl e, d1) \<Rightarrow> (Inl (False, e), rollback d d1)
      | (Inr (pair, rowId), d1) \<Rightarrow>
          (case markAsUsed (rt_id stored) rowId d1 of
             (Inl e, d2) \<Rightarrow> (Inl (False, e), rollback d d2)
           | (Inr marked, d2) \<Rightarrow>
               if marked then (Inr pair, d2)
               else (Inl (True, invalid_refresh_token), rollback d d2)))"

definition rotate ::
    "token_config \<Rightarrow> (nat \<Rightarrow> int) \<Rightarrow> jstr \<Rightarrow> sched \<Rightarrow> jstr \<Rightarrow> (thrown, token_pair, db) comp" where
  "rotate cfg clock fresh sched raw d =
     (let d0 = sched 0 d
      in case rotateRead cfg (clock 0) raw d0 of
           Reject \<Rightarrow> (Inl invalid_refresh_token, d0)
         | Replayed uid \<Rightarrow> (Inl invalid_refresh_token, revokeAllForUser uid (clock 1) (sched 1 d0))
         | Proceed stored \<Rightarrow>
             (case rotateCommit cfg (clock 1) fresh stored (sched 1 d0) of
                (Inr pair, d2) \<Rightarrow> (Inr pair, d2)
              | (Inl (compromised, e), d2) \<Rightarrow>
                  (Inl e, if compromised
                          then revokeAllForUser (rt_userId stored) (clock 2) (sched 2 d2) else d2)))"

definition revoke ::
    "token_config \<Rightarrow> int \<Rightarrow> sched \<Rightarrow> jstr \<Rightarrow> (thrown, unit, db) comp" where
  "revoke cfg now sched raw d =
     (let d0 = sched 0 d
      in case findByHash (hashRefreshToken cfg raw) d0 of
           Some stored \<Rightarrow>
             if rt_revokedAt stored = None then revokeById (rt_id stored) now (sched 1 d0)
             else (Inr (), d0)
         | None \<Rightarrow> (Inr (), d0))"

text \<open>The cron job swallows every error; what it returns here is what it logs.\<close>

definition removeExpiredTokens :: "int \<Rightarrow> db \<Rightarrow> nat \<times> db" where
  "removeExpiredTokens now d = deleteExpiredTokens now d"

section \<open>Invariants\<close>

lemma tokens_ok_upd:
  assumes "tokens_ok d"
    and "\<And>t. t \<in> set (refreshTokens d) \<Longrightarrow> P t \<Longrightarrow>
           rt_id (f t) = rt_id t \<and> rt_tokenHash (f t) = rt_tokenHash t \<and> rt_userId (f t) = rt_userId t
           \<and> rt_replacedById (f t) = rt_replacedById t"
  shows "tokens_ok (d\<lparr>refreshTokens := upd_where P f (refreshTokens d)\<rparr>)"
proof -
  let ?ts = "refreshTokens d" and ?us = "upd_where P f (refreshTokens d)"
  have m: "map key ?us = map key ?ts"
    if "\<And>t. t \<in> set ?ts \<Longrightarrow> P t \<Longrightarrow> key (f t) = key t" for key :: "refresh_token \<Rightarrow> 'k"
    using that by (simp add: upd_where_def)
  have o: "uniq_opt rt_replacedById rows = distinct (filter (\<lambda>x. x \<noteq> None) (map rt_replacedById rows))"
    for rows by (simp add: uniq_opt_def filter_map o_def)
  have "uniq rt_id ?us" "uniq rt_tokenHash ?us" "uniq_opt rt_replacedById ?us"
    using assms m [of rt_id] m [of rt_tokenHash] m [of rt_replacedById]
    by (simp_all add: tokens_ok_def uniq_def o)
  moreover have "\<forall>u \<in> set ?us. \<exists>t \<in> set ?ts. rt_id u = rt_id t \<and> rt_userId u = rt_userId t
      \<and> rt_replacedById u = rt_replacedById t"
    using assms(2) by (auto simp: set_upd_where)
  ultimately show ?thesis
    using assms(1) unfolding tokens_ok_def user_ids_def by fastforce
qed

lemma tokens_ok_del:
  "tokens_ok d \<Longrightarrow> tokens_ok (d\<lparr>refreshTokens := del_where P (refreshTokens d)\<rparr>)"
  by (auto simp: tokens_ok_def user_ids_def)

lemma db_ok_revokeAll [keeps]: "db_ok d \<Longrightarrow> db_ok (revokeAllForUser uid now d)"
  unfolding revokeAllForUser_def by (rule db_ok_put(2)) (auto intro: tokens_ok_upd dest: db_okD)

lemma db_ok_revokeById [keeps]: "db_ok d \<Longrightarrow> db_ok (snd (revokeById i now d))"
  unfolding revokeById_def by (auto intro!: db_ok_put(2) tokens_ok_upd dest: db_okD)

lemma db_ok_deleteExpiredTokens [keeps]: "db_ok d \<Longrightarrow> db_ok (snd (deleteExpiredTokens now d))"
  unfolding deleteExpiredTokens_def by (auto intro!: db_ok_put(2) tokens_ok_del dest: db_okD)

lemma unspent_only:
  "uniq rt_id (t # rows) \<Longrightarrow> unspent i t \<Longrightarrow> u \<in> set rows \<Longrightarrow> \<not> unspent i u"
  by (metis imageI uniq_Cons unspent_def)

lemma markAsUsed_True:
  assumes "markAsUsed i rep d = (Inr True, d')"
  shows "\<exists>t \<in> set (refreshTokens d). unspent i t"
    and "Some rep \<notin> rt_replacedById ` set (refreshTokens d)"
    and "d' = d\<lparr>refreshTokens :=
           upd_where (unspent i) (\<lambda>t. t\<lparr>rt_replacedById := Some rep\<rparr>) (refreshTokens d)\<rparr>"
  using assms by (auto simp: markAsUsed_def Let_def count_where_pos split: if_splits)

lemma tokens_ok_mark:
  assumes ok: "tokens_ok d" and fresh: "\<And>t. t \<in> set (refreshTokens d) \<Longrightarrow> rt_replacedById t \<noteq> Some rep"
    and "i < rep" "rep < seqs d MRefreshToken"
  shows "tokens_ok (d\<lparr>refreshTokens :=
           upd_where (unspent i) (\<lambda>t. t\<lparr>rt_replacedById := Some rep\<rparr>) (refreshTokens d)\<rparr>)"
proof -
  have "uniq_opt rt_replacedById rows \<and> uniq rt_id rows \<and> (\<forall>t \<in> set rows. rt_replacedById t \<noteq> Some rep)
      \<Longrightarrow> uniq_opt rt_replacedById
            (upd_where (unspent i) (\<lambda>t. t\<lparr>rt_replacedById := Some rep\<rparr>) rows)" for rows
  proof (induction rows)
    case (Cons t rows)
    show ?case
    proof (cases "unspent i t")
      case True
      then have "\<forall>u \<in> set rows. \<not> unspent i u"
        using unspent_only [of t rows i] Cons.prems by blast
      then have "upd_where (unspent i) (\<lambda>t. t\<lparr>rt_replacedById := Some rep\<rparr>) rows = rows"
        by (rule upd_where_none)
      with True Cons.prems show ?thesis by auto
    next
      case False
      with Cons show ?thesis by (auto simp: set_upd_where)
    qed
  qed simp
  then have "uniq_opt rt_replacedById
      (upd_where (unspent i) (\<lambda>t. t\<lparr>rt_replacedById := Some rep\<rparr>) (refreshTokens d))"
    using ok fresh by (simp add: tokens_ok_def)
  then show ?thesis
    using ok assms(3,4) unfolding tokens_ok_def user_ids_def
    by (auto simp: uniq_upd set_upd_where unspent_def)
qed

lemma createTokenPair_ok:
  assumes "createTokenPair cfg uid now fresh d = (Inr (pair, rowId), d1)"
  shows "pair = \<lparr>accessToken = signJwt cfg uid now, refreshToken = fresh\<rparr>"
    and "rowId = seqs d MRefreshToken"
    and "hashRefreshToken cfg fresh \<notin> rt_tokenHash ` set (refreshTokens d)"
    and "uid \<in> user_ids d"
    and "d1 = (bump MRefreshToken d)\<lparr>refreshTokens := refreshTokens d @
           [\<lparr>rt_id = seqs d MRefreshToken, rt_tokenHash = hashRefreshToken cfg fresh,
             rt_userId = uid, rt_expiresAt = expiry cfg now, rt_revokedAt = None,
             rt_replacedById = None, rt_createdAt = now\<rparr>]\<rparr>"
  using assms
  by (auto simp: createTokenPair_def create_refresh_token_def Let_def split: if_splits)

lemma db_ok_createTokenPair [keeps]:
  assumes "createTokenPair cfg uid now fresh d = (r, d1)" and "db_ok d"
  shows "db_ok d1 \<and> seqs_le d d1"
proof -
  obtain r' where "create_refresh_token uid (hashRefreshToken cfg fresh) (expiry cfg now) now d = (r', d1)"
    using assms(1) by (auto simp: createTokenPair_def andThen_def split: prod.splits sum.splits)
  then show ?thesis using assms(2) by (rule db_ok_create_refresh_token)
qed

lemma markAsUsed_seqs: "markAsUsed i rep d = (r, d') \<Longrightarrow> seqs d' = seqs d"
  by (auto simp: markAsUsed_def Let_def split: if_splits)

lemma db_ok_rotateCommit:
  assumes ok: "db_ok d" and id: "rt_id stored < seqs d MRefreshToken"
    and run: "rotateCommit cfg now fresh stored d = (r, d')"
  shows "db_ok d' \<and> seqs_le d d'"
proof -
  obtain r1 d1 where c: "createTokenPair cfg (rt_userId stored) now fresh d = (r1, d1)"
    by fastforce
  have d1: "db_ok d1" "seqs_le d d1"
    using db_ok_createTokenPair [OF c ok] by auto
  show ?thesis
  proof (cases r1)
    case (Inl e)
    then show ?thesis using run c d1 ok
      by (auto simp: rotateCommit_def db_ok_rollback) (simp add: seqs_le_def)
  next
    case (Inr x)
    obtain pair rowId where x: "x = (pair, rowId)" by fastforce
    obtain r2 d2 where m: "markAsUsed (rt_id stored) rowId d1 = (r2, d2)" by fastforce
    have s2: "seqs_le d d2" using markAsUsed_seqs [OF m] d1(2) by (simp add: seqs_le_def)
    show ?thesis
    proof (cases "r2 = Inr True")
      case True
      note new = createTokenPair_ok [OF c [unfolded Inr x]]
      note mark = markAsUsed_True [OF m [unfolded True]]
      have "tokens_ok d2"
        unfolding mark(3)
      proof (rule tokens_ok_mark)
        show "tokens_ok d1" using d1(1) by (rule db_okD)
        show "rt_replacedById t \<noteq> Some rowId" if "t \<in> set (refreshTokens d1)" for t
          using mark(2) that by (metis imageI)
        show "rt_id stored < rowId" using id new(2) by simp
        show "rowId < seqs d1 MRefreshToken" using new(2,5) by simp
      qed
      then have "db_ok d2" using d1(1) db_ok_put(2) mark(3) by metis
      moreover have "d' = d2" using run c m Inr x True by (simp add: rotateCommit_def)
      ultimately show ?thesis using s2 by simp
    next
      case False
      then have "d' = rollback d d2"
        using run c m Inr x by (auto simp: rotateCommit_def split: sum.splits if_splits)
      then show ?thesis using ok s2 db_ok_rollback by (simp add: seqs_le_def)
    qed
  qed
qed

section \<open>Rotation is a one-time claim\<close>

definition rotation_claim ::
    "token_config \<Rightarrow> refresh_token \<times> jstr \<times> int \<Rightarrow> db \<Rightarrow> bool \<times> db" where
  "rotation_claim cfg q d =
     (case q of (stored, fresh, now) \<Rightarrow>
        (case rotateCommit cfg now fresh stored d of
           (Inr _, d') \<Rightarrow> (True, d')
         | (Inl _, d') \<Rightarrow> (False, d')))"

definition rotation_key :: "refresh_token \<times> jstr \<times> int \<Rightarrow> nat" where
  "rotation_key q = rt_id (fst q)"

definition token_live :: "nat \<Rightarrow> db \<Rightarrow> bool" where
  "token_live i d \<longleftrightarrow> (\<exists>t \<in> set (refreshTokens d). unspent i t)"

definition token_known :: "nat \<Rightarrow> db \<Rightarrow> bool" where
  "token_known i d \<longleftrightarrow> i < seqs d MRefreshToken"

text \<open>
  The other requests: whatever keeps the constraints, never turns a sequence back and never makes a
  spent or deleted row spendable again.
\<close>

definition token_others :: "(db \<Rightarrow> db) set" where
  "token_others = {f. \<forall>d. db_ok d \<longrightarrow> db_ok (f d) \<and> seqs_le d (f d)
     \<and> (\<forall>i. token_known i d \<longrightarrow> token_live i (f d) \<longrightarrow> token_live i d)}"

lemma rotateCommit_Inr:
  assumes "rotateCommit cfg now fresh stored d = (Inr pair, d')"
  obtains d1 where "createTokenPair cfg (rt_userId stored) now fresh d =
      (Inr (pair, seqs d MRefreshToken), d1)"
    and "markAsUsed (rt_id stored) (seqs d MRefreshToken) d1 = (Inr True, d')"
  using assms
  by (auto simp: rotateCommit_def dest: createTokenPair_ok(2) split: prod.splits sum.splits if_splits)

lemma rotateCommit_Inl_tokens:
  "rotateCommit cfg now fresh stored d = (Inl x, d') \<Longrightarrow> refreshTokens d' = refreshTokens d"
  by (auto simp: rotateCommit_def split: prod.splits sum.splits if_splits)

lemma rotateCommit_tokens:
  assumes run: "rotateCommit cfg now fresh stored d = (Inr pair, d')"
    and "rt_id stored < seqs d MRefreshToken"
  shows "pair = \<lparr>accessToken = signJwt cfg (rt_userId stored) now, refreshToken = fresh\<rparr>"
    and "token_live (rt_id stored) d"
    and "d' = d\<lparr>seqs := (seqs d)(MRefreshToken := Suc (seqs d MRefreshToken)),
      refreshTokens := upd_where (unspent (rt_id stored))
          (\<lambda>t. t\<lparr>rt_replacedById := Some (seqs d MRefreshToken)\<rparr>) (refreshTokens d) @
        [\<lparr>rt_id = seqs d MRefreshToken, rt_tokenHash = hashRefreshToken cfg fresh,
          rt_userId = rt_userId stored, rt_expiresAt = expiry cfg now, rt_revokedAt = None,
          rt_replacedById = None, rt_createdAt = now\<rparr>]\<rparr>"
proof -
  obtain d1 where c: "createTokenPair cfg (rt_userId stored) now fresh d =
      (Inr (pair, seqs d MRefreshToken), d1)"
    and m: "markAsUsed (rt_id stored) (seqs d MRefreshToken) d1 = (Inr True, d')"
    using run by (rule rotateCommit_Inr)
  note new = createTokenPair_ok [OF c] and mark = markAsUsed_True [OF m]
  show "pair = \<lparr>accessToken = signJwt cfg (rt_userId stored) now, refreshToken = fresh\<rparr>"
    by (rule new)
  show "token_live (rt_id stored) d"
    using mark(1) new(5) assms(2) by (auto simp: token_live_def unspent_def)
  show "d' = d\<lparr>seqs := (seqs d)(MRefreshToken := Suc (seqs d MRefreshToken)),
      refreshTokens := upd_where (unspent (rt_id stored))
          (\<lambda>t. t\<lparr>rt_replacedById := Some (seqs d MRefreshToken)\<rparr>) (refreshTokens d) @
        [\<lparr>rt_id = seqs d MRefreshToken, rt_tokenHash = hashRefreshToken cfg fresh,
          rt_userId = rt_userId stored, rt_expiresAt = expiry cfg now, rt_revokedAt = None,
          rt_replacedById = None, rt_createdAt = now\<rparr>]\<rparr>"
    using mark(3) new(5) assms(2) by (simp add: upd_where_def unspent_def bump_def)
qed

lemma rotation_claim_cases:
  assumes "rotation_claim cfg q d = (won, d')" and "token_known (rotation_key q) d" and "db_ok d"
  obtains (lost) "\<not> won" "refreshTokens d' = refreshTokens d" "db_ok d'" "seqs_le d d'"
  | (won) t where "won" "token_live (rotation_key q) d" "db_ok d'" "seqs_le d d'"
      "rt_id t = seqs d MRefreshToken"
      "refreshTokens d' = upd_where (unspent (rotation_key q))
         (\<lambda>t. t\<lparr>rt_replacedById := Some (seqs d MRefreshToken)\<rparr>) (refreshTokens d) @ [t]"
proof -
  obtain t fresh now where q: "q = (t, fresh, now)" by (cases q) auto
  obtain r e where run: "rotateCommit cfg now fresh t d = (r, e)" by fastforce
  have known: "rt_id t < seqs d MRefreshToken"
    using assms(2) q by (simp add: token_known_def rotation_key_def)
  have keeps: "db_ok e" "seqs_le d e"
    using db_ok_rotateCommit [OF assms(3) known run] by auto
  show ?thesis
  proof (cases r)
    case (Inl x)
    then show ?thesis
      using lost keeps assms(1) q run rotateCommit_Inl_tokens by (simp add: rotation_claim_def)
  next
    case (Inr pair)
    note c = rotateCommit_tokens [OF run [unfolded Inr] known]
    have "won" "d' = e"
      using assms(1) q run Inr by (simp_all add: rotation_claim_def)
    then show ?thesis
      using q keeps c(2) arg_cong [OF c(3), of refreshTokens]
      by (intro won [rotated 5]) (simp_all add: rotation_key_def, simp)
  qed
qed

lemma token_live_won:
  assumes "rt_id t = seqs d MRefreshToken" and "token_known k d"
    and "refreshTokens d' = upd_where (unspent i) (\<lambda>t. t\<lparr>rt_replacedById := Some n\<rparr>) (refreshTokens d) @ [t]"
  shows "token_live k d' \<longleftrightarrow> token_live k d \<and> k \<noteq> i"
  using assms by (auto simp: token_live_def token_known_def unspent_def set_upd_where)

interpretation refresh: single_use "rotation_claim cfg" rotation_key token_live token_known db_ok
    token_others for cfg
proof unfold_locales
  fix d :: db and q :: "refresh_token \<times> jstr \<times> int" and k
  assume inv: "db_ok d"
  obtain w d' where c: "rotation_claim cfg q d = (w, d')" by fastforce
  show "token_live (rotation_key q) d"
    if "token_known (rotation_key q) d" "fst (rotation_claim cfg q d)"
    using rotation_claim_cases [OF c that(1) inv] that(2) c by auto
  show "\<not> token_live (rotation_key q) (snd (rotation_claim cfg q d))"
    if "token_known (rotation_key q) d" "fst (rotation_claim cfg q d)"
    using rotation_claim_cases [OF c that(1) inv] that c token_live_won by (metis fst_conv snd_conv)
  show "db_ok (snd (rotation_claim cfg q d))" if "token_known (rotation_key q) d"
    using rotation_claim_cases [OF c that inv] c by (metis snd_conv)
  show "\<not> token_live k (snd (rotation_claim cfg q d))"
    if "token_known (rotation_key q) d" "token_known k d" "\<not> token_live k d"
    using rotation_claim_cases [OF c that(1) inv] that(2,3) c token_live_won
    by (metis snd_conv token_live_def)
  show "token_known k (snd (rotation_claim cfg q d))"
    if "token_known (rotation_key q) d" "token_known k d"
    using rotation_claim_cases [OF c that(1) inv] that(2) c
    by (metis snd_conv token_known_def seqs_le_def order.strict_trans2)
next
  fix f d k
  assume f: "f \<in> token_others" and inv: "db_ok (d :: db)"
  show "db_ok (f d)" using f inv by (simp add: token_others_def)
  show "token_known k (f d)" if "token_known k d"
    using f inv that unfolding token_others_def token_known_def seqs_le_def
    by (auto intro: order.strict_trans2)
  show "\<not> token_live k (f d)" if "token_known k d" "\<not> token_live k d"
    using f inv that by (auto simp: token_others_def)
qed

section \<open>Reading a token back\<close>

lemma findByHash_Some:
  "tokens_ok d \<Longrightarrow> findByHash h d = Some t \<longleftrightarrow> t \<in> set (refreshTokens d) \<and> rt_tokenHash t = h"
  unfolding findByHash_def tokens_ok_def
  by (auto simp: uniq_find dest: find_SomeD)

lemma rotateRead_Proceed:
  "rotateRead cfg now raw d = Proceed t \<longleftrightarrow>
     findByHash (hashRefreshToken cfg raw) d = Some t \<and> rt_replacedById t = None
     \<and> rt_revokedAt t = None \<and> now < rt_expiresAt t"
  by (auto simp: rotateRead_def split: option.splits if_splits)

lemma rotateRead_Replayed:
  "rotateRead cfg now raw d = Replayed uid \<longleftrightarrow>
     (\<exists>t. findByHash (hashRefreshToken cfg raw) d = Some t \<and> rt_replacedById t \<noteq> None
        \<and> rt_userId t = uid)"
  by (auto simp: rotateRead_def split: option.splits if_splits)

lemma findByHash_upd:
  assumes "\<And>t. rt_tokenHash (f t) = rt_tokenHash t"
  shows "find (\<lambda>t. rt_tokenHash t = h) (upd_where P f rows) =
     map_option (\<lambda>t. if P t then f t else t) (find (\<lambda>t. rt_tokenHash t = h) rows)"
  using assms by (induction rows) auto

lemma find_append:
  "find P (xs @ ys) = (case find P xs of None \<Rightarrow> find P ys | Some x \<Rightarrow> Some x)"
  by (induction xs) auto

lemma findByHash_unused: "h \<notin> rt_tokenHash ` set (refreshTokens d) \<Longrightarrow> findByHash h d = None"
  unfolding findByHash_def find_None_iff by blast

definition revoked :: "nat \<Rightarrow> db \<Rightarrow> bool" where
  "revoked uid d \<longleftrightarrow> (\<forall>t \<in> set (refreshTokens d). rt_userId t = uid \<longrightarrow> rt_revokedAt t \<noteq> None)"

lemma revoked_revokeAllForUser: "revoked uid (revokeAllForUser uid now d)"
  by (simp add: revoked_def revokeAllForUser_def set_upd_where ball_Un)

lemma revoked_never_Proceed:
  assumes "revoked uid d" and "rotateRead cfg now raw d = Proceed t"
  shows "rt_userId t \<noteq> uid"
  using assms find_SomeD by (fastforce simp: revoked_def rotateRead_Proceed findByHash_def)

text \<open>What a commit does when the presented row is unspent, and when another request spent it.\<close>

lemma rotateCommit_unspent:
  assumes ok: "db_ok d" and row: "s \<in> set (refreshTokens d)" "rt_id s = rt_id stored"
      "rt_replacedById s = None"
    and user: "rt_userId stored \<in> user_ids d"
    and fresh: "hashRefreshToken cfg fresh \<notin> rt_tokenHash ` set (refreshTokens d)"
  shows "\<exists>d'. rotateCommit cfg now fresh stored d =
    (Inr \<lparr>accessToken = signJwt cfg (rt_userId stored) now, refreshToken = fresh\<rparr>, d')"
proof -
  let ?n = "seqs d MRefreshToken"
  obtain d1 where c: "createTokenPair cfg (rt_userId stored) now fresh d =
      (Inr (\<lparr>accessToken = signJwt cfg (rt_userId stored) now, refreshToken = fresh\<rparr>, ?n), d1)"
    using user fresh by (simp add: createTokenPair_def create_refresh_token_def Let_def)
  note new = createTokenPair_ok [OF c]
  have "\<forall>t \<in> set (refreshTokens d). Some ?n \<noteq> rt_replacedById t"
  proof
    fix t
    assume "t \<in> set (refreshTokens d)"
    then show "Some ?n \<noteq> rt_replacedById t"
      using db_okD(6) [OF ok] unfolding tokens_ok_def by (metis less_irrefl)
  qed
  then have "Some ?n \<notin> rt_replacedById ` set (refreshTokens d1)"
    unfolding new(5) by (simp add: image_iff)
  moreover have "count_where (unspent (rt_id stored)) (refreshTokens d1) > 0"
    using row unfolding new(5) by (auto simp: count_where_pos unspent_def)
  ultimately show ?thesis
    using c by (auto simp: rotateCommit_def markAsUsed_def Let_def)
qed

lemma rotateCommit_spent:
  assumes "\<not> token_live (rt_id stored) d" and "rt_id stored < seqs d MRefreshToken"
    and "rt_userId stored \<in> user_ids d"
    and "hashRefreshToken cfg fresh \<notin> rt_tokenHash ` set (refreshTokens d)"
  shows "\<exists>d'. rotateCommit cfg now fresh stored d = (Inl (True, invalid_refresh_token), d')"
proof -
  obtain d1 where c: "createTokenPair cfg (rt_userId stored) now fresh d =
      (Inr (\<lparr>accessToken = signJwt cfg (rt_userId stored) now, refreshToken = fresh\<rparr>,
        seqs d MRefreshToken), d1)"
    using assms by (simp add: createTokenPair_def create_refresh_token_def Let_def)
  have "\<not> 0 < count_where (unspent (rt_id stored)) (refreshTokens d1)"
    using assms(1,2) createTokenPair_ok(5) [OF c]
    unfolding count_where_pos by (auto simp: token_live_def unspent_def)
  then show ?thesis using c by (auto simp: rotateCommit_def markAsUsed_def Let_def)
qed

section \<open>A small token table for concrete runs\<close>

definition demo_tokens :: token_config where
  "demo_tokens = \<lparr>sha256 = (\<lambda>s. js ''s:'' @ s), signJwt = (\<lambda>_ _. js ''jwt''), ttlDays = 30\<rparr>"

definition demo_token :: "nat \<Rightarrow> string \<Rightarrow> nat \<Rightarrow> nat option \<Rightarrow> refresh_token" where
  "demo_token i raw uid rep = \<lparr>rt_id = i, rt_tokenHash = js ''s:'' @ js raw, rt_userId = uid,
     rt_expiresAt = 1000, rt_revokedAt = None, rt_replacedById = rep, rt_createdAt = 0\<rparr>"

definition demo_token_db :: db where
  "demo_token_db = demo_db\<lparr>refreshTokens :=
     [demo_token 1 ''r1'' 1 (Some 2), demo_token 2 ''r2'' 1 None, demo_token 3 ''r3'' 2 None]\<rparr>"

lemmas demo_token_defs =
  demo_tokens_def demo_token_def demo_token_db_def demo_db_def demo_user_def empty_db_def

lemma demo_token_db_ok: "db_ok demo_token_db"
  unfolding demo_token_db_def
  by (rule db_ok_put(2) [OF demo_db_ok])
    (simp add: tokens_ok_def user_ids_def demo_token_defs uniq_def uniq_opt_def)

section \<open>Properties\<close>

text \<open>An undisturbed rotation of a valid refresh token succeeds, returns the new pair, leaves a
  session for the same user under the new token, and turns every later use of the old token into a
  replay of that user.\<close>

theorem rotate_success:
  assumes "db_ok d" and "rotateRead cfg (clock 0) raw d = Proceed stored"
    and "hashRefreshToken cfg fresh \<notin> rt_tokenHash ` set (refreshTokens d)"
  shows "\<exists>d' new. rotate cfg clock fresh quiet raw d =
       (Inr \<lparr>accessToken = signJwt cfg (rt_userId stored) (clock 1), refreshToken = fresh\<rparr>, d')
     \<and> rt_userId new = rt_userId stored
     \<and> (\<forall>t. rotateRead cfg t fresh d' = (if t < expiry cfg (clock 1) then Proceed new else Reject))
     \<and> (\<forall>t. rotateRead cfg t raw d' = Replayed (rt_userId stored))"
proof -
  have st: "findByHash (hashRefreshToken cfg raw) d = Some stored" "rt_replacedById stored = None"
    using assms(2) by (auto simp: rotateRead_Proceed)
  have row: "stored \<in> set (refreshTokens d)" "rt_tokenHash stored = hashRefreshToken cfg raw"
    using st findByHash_Some [OF db_okD(6) [OF assms(1)]] by auto
  then have known: "rt_id stored < seqs d MRefreshToken" "rt_userId stored \<in> user_ids d"
    using db_okD(6) [OF assms(1)] by (auto simp: tokens_ok_def)
  obtain d' where run: "rotateCommit cfg (clock 1) fresh stored d =
      (Inr \<lparr>accessToken = signJwt cfg (rt_userId stored) (clock 1), refreshToken = fresh\<rparr>, d')"
    using rotateCommit_unspent [OF assms(1) row(1) refl st(2) known(2) assms(3)] by blast
  note d' = rotateCommit_tokens(3) [OF run known(1)]
  have "findByHash (hashRefreshToken cfg raw) d' =
      Some (stored\<lparr>rt_replacedById := Some (seqs d MRefreshToken)\<rparr>)"
    using st unfolding d' by (simp add: findByHash_def find_append findByHash_upd unspent_def)
  then have old: "\<forall>t. rotateRead cfg t raw d' = Replayed (rt_userId stored)"
    by (simp add: rotateRead_Replayed)
  let ?new = "last (refreshTokens d')"
  have "findByHash (hashRefreshToken cfg fresh) d' = Some ?new"
    using findByHash_unused [OF assms(3)] unfolding d'
    by (simp add: findByHash_def find_append findByHash_upd)
  then have "\<forall>t. rotateRead cfg t fresh d' =
      (if t < expiry cfg (clock 1) then Proceed ?new else Reject)"
    unfolding d' by (simp add: rotateRead_def)
  moreover have "rt_userId ?new = rt_userId stored" unfolding d' by simp
  ultimately show ?thesis using old assms(2) run by (simp add: rotate_def Let_def) blast
qed

theorem rotate_success_witness:
  "\<exists>d' new. rotate demo_tokens int (js ''r9'') quiet (js ''r2'') demo_token_db =
       (Inr \<lparr>accessToken = js ''jwt'', refreshToken = js ''r9''\<rparr>, d') \<and> rt_userId new = 1
     \<and> rotateRead demo_tokens 7 (js ''r9'') d' = Proceed new
     \<and> rotateRead demo_tokens 7 (js ''r2'') d' = Replayed 1"
proof -
  let ?stored = "demo_token 2 ''r2'' 1 None"
  have read: "rotateRead demo_tokens (int 0) (js ''r2'') demo_token_db = Proceed ?stored"
    by (simp add: rotateRead_Proceed findByHash_def hashRefreshToken_def demo_token_defs)
  have fresh: "hashRefreshToken demo_tokens (js ''r9'') \<notin> rt_tokenHash ` set (refreshTokens demo_token_db)"
    by (simp add: hashRefreshToken_def demo_token_defs)
  have now: "7 < expiry demo_tokens (int 1)"
    by (simp add: expiry_def MS_PER_DAY_def demo_tokens_def)
  show ?thesis
    using rotate_success [of _ _ int, OF demo_token_db_ok read fresh] now
    by (fastforce simp: demo_token_def demo_tokens_def)
qed



text \<open>A rotation that loses the race for its token (another request spends it between the read and
  the commit) is refused, its own successor token is not stored, and every session of the user is
  revoked.\<close>

theorem lost_rotation_revokes_all_sessions:
  assumes "rotateRead cfg (clock 0) raw (sched 0 d) = Proceed stored"
    and "\<not> token_live (rt_id stored) (sched 1 (sched 0 d))"
    and "token_known (rt_id stored) (sched 1 (sched 0 d))"
    and "rt_userId stored \<in> user_ids (sched 1 (sched 0 d))"
    and "hashRefreshToken cfg fresh \<notin> rt_tokenHash ` set (refreshTokens (sched 1 (sched 0 d)))"
    and "sched 2 = (\<lambda>d. d)"
  shows "\<exists>d'. rotate cfg clock fresh sched raw d = (Inl invalid_refresh_token, d')
     \<and> findByHash (hashRefreshToken cfg fresh) d' = None
     \<and> (\<forall>now raw' t. rotateRead cfg now raw' d' = Proceed t \<longrightarrow> rt_userId t \<noteq> rt_userId stored)"
proof -
  let ?d1 = "sched 1 (sched 0 d)"
  obtain d2 where run: "rotateCommit cfg (clock 1) fresh stored ?d1 =
      (Inl (True, invalid_refresh_token), d2)"
    using rotateCommit_spent assms(2-5) unfolding token_known_def by blast
  let ?d' = "revokeAllForUser (rt_userId stored) (clock 2) d2"
  have "rotate cfg clock fresh sched raw d = (Inl invalid_refresh_token, ?d')"
    using assms(1,6) run by (simp add: rotate_def Let_def)
  moreover have "findByHash (hashRefreshToken cfg fresh) ?d' = None"
    using findByHash_unused [OF assms(5)] rotateCommit_Inl_tokens [OF run]
    by (simp add: findByHash_def revokeAllForUser_def findByHash_upd)
  ultimately show ?thesis
    using revoked_never_Proceed [OF revoked_revokeAllForUser] by blast
qed

definition demo_spend :: sched where
  "demo_spend k d = (if k = 1 then snd (markAsUsed 2 4 d) else d)"

theorem lost_rotation_revokes_all_sessions_witness:
  "\<exists>d'. rotate demo_tokens int (js ''r9'') demo_spend (js ''r2'') demo_token_db =
       (Inl invalid_refresh_token, d')
     \<and> findByHash (hashRefreshToken demo_tokens (js ''r9'')) d' = None
     \<and> (\<forall>now raw' t. rotateRead demo_tokens now raw' d' = Proceed t \<longrightarrow>
          rt_userId t \<noteq> rt_userId (demo_token 2 ''r2'' 1 None))"
proof (rule lost_rotation_revokes_all_sessions)
  let ?d = "demo_spend 1 (demo_spend 0 demo_token_db)"
  have d: "?d = demo_token_db\<lparr>refreshTokens :=
      [demo_token 1 ''r1'' 1 (Some 2), demo_token 2 ''r2'' 1 (Some 4), demo_token 3 ''r3'' 2 None]\<rparr>"
    by (simp add: demo_spend_def markAsUsed_def demo_token_defs unspent_def)
  show "rotateRead demo_tokens (int 0) (js ''r2'') (demo_spend 0 demo_token_db) =
      Proceed (demo_token 2 ''r2'' 1 None)"
    by (simp add: demo_spend_def rotateRead_Proceed findByHash_def hashRefreshToken_def demo_token_defs)
  show "\<not> token_live (rt_id (demo_token 2 ''r2'' 1 None)) ?d"
    "token_known (rt_id (demo_token 2 ''r2'' 1 None)) ?d"
    "rt_userId (demo_token 2 ''r2'' 1 None) \<in> user_ids ?d"
    "hashRefreshToken demo_tokens (js ''r9'') \<notin> rt_tokenHash ` set (refreshTokens ?d)"
    unfolding d
    by (simp_all add: token_live_def token_known_def unspent_def user_ids_def hashRefreshToken_def
        demo_token_defs)
  show "demo_spend 2 = (\<lambda>d. d)" by (simp add: demo_spend_def fun_eq_iff)
qed

text \<open>C6: However rotations of a refresh token interleave with each other and with other requests, at
  most one of them commits.\<close>

theorem refresh_token_rotated_at_most_once:
  assumes "db_ok d" and "token_known k d"
    and "history_ok (rotation_claim cfg) rotation_key token_known token_others os d"
  shows "wins (rotation_claim cfg) rotation_key k os d \<le> 1"
  using assms by (rule refresh.wins_at_most_once)

definition demo_rotations :: "(refresh_token \<times> jstr \<times> int, db) occurrence list" where
  "demo_rotations =
     [Claim (demo_token 2 ''r2'' 1 None, js ''r8'', 1), Other (\<lambda>d. d),
      Claim (demo_token 2 ''r2'' 1 None, js ''r9'', 1)]"

lemma token_others_id: "(\<lambda>d. d) \<in> token_others"
  by (simp add: token_others_def)

theorem refresh_token_rotated_at_most_once_witness:
  "wins (rotation_claim demo_tokens) rotation_key 2 demo_rotations demo_token_db \<le> 1
   \<and> fst (rotation_claim demo_tokens (demo_token 2 ''r2'' 1 None, js ''r8'', 1) demo_token_db)"
proof
  let ?q = "\<lambda>raw. (demo_token 2 ''r2'' 1 None, js raw, 1 :: int)"
  let ?d1 = "snd (rotation_claim demo_tokens (?q ''r8'') demo_token_db)"
  have "token_known 2 demo_token_db" by (simp add: token_known_def demo_token_defs)
  moreover have "history_ok (rotation_claim demo_tokens) rotation_key token_known token_others
      demo_rotations demo_token_db"
    using refresh.claim_known [OF demo_token_db_ok, of "?q ''r8''" 2 demo_tokens] calculation
      token_others_id
    by (simp add: demo_rotations_def rotation_key_def demo_token_def)
  ultimately show "wins (rotation_claim demo_tokens) rotation_key 2 demo_rotations demo_token_db \<le> 1"
    by (rule refresh_token_rotated_at_most_once [OF demo_token_db_ok])
  show "fst (rotation_claim demo_tokens (?q ''r8'') demo_token_db)"
    by (simp add: rotation_claim_def rotateCommit_def createTokenPair_def create_refresh_token_def
        hashRefreshToken_def markAsUsed_def unspent_def user_ids_def demo_token_defs Let_def)
qed

text \<open>An undisturbed logout succeeds whatever token it is given; afterwards that token can never
  be rotated, every other token is as it was, and a second logout changes nothing.\<close>

theorem revoke_ends_the_session:
  assumes "db_ok d"
  shows "\<exists>d'. revoke cfg now quiet raw d = (Inr (), d')
     \<and> (\<forall>t s. rotateRead cfg t raw d' \<noteq> Proceed s)
     \<and> (\<forall>raw'. hashRefreshToken cfg raw' \<noteq> hashRefreshToken cfg raw \<longrightarrow>
           findByHash (hashRefreshToken cfg raw') d' = findByHash (hashRefreshToken cfg raw') d)
     \<and> revoke cfg later quiet raw d' = (Inr (), d')"
proof (cases "findByHash (hashRefreshToken cfg raw) d")
  case None
  then show ?thesis by (simp add: revoke_def rotateRead_Proceed)
next
  case (Some s)
  then have s: "s \<in> set (refreshTokens d)" "rt_tokenHash s = hashRefreshToken cfg raw"
    using findByHash_Some [OF db_okD(6) [OF assms]] by auto
  show ?thesis
  proof (cases "rt_revokedAt s")
    case None
    let ?d' = "d\<lparr>refreshTokens := upd_where (\<lambda>t. rt_id t = rt_id s)
        (\<lambda>t. t\<lparr>rt_revokedAt := Some now\<rparr>) (refreshTokens d)\<rparr>"
    have run: "revoke cfg now quiet raw d = (Inr (), ?d')"
      using Some s None by (simp add: revoke_def revokeById_def)
    have here: "findByHash (hashRefreshToken cfg raw) ?d' = Some (s\<lparr>rt_revokedAt := Some now\<rparr>)"
      using Some by (simp add: findByHash_def findByHash_upd)
    have "findByHash h ?d' = findByHash h d" if "h \<noteq> hashRefreshToken cfg raw" for h
    proof -
      have "t \<in> set (refreshTokens d) \<Longrightarrow> rt_tokenHash t = h \<Longrightarrow> rt_id t \<noteq> rt_id s" for t
        using that s db_okD(6) [OF assms] uniqD [of rt_id "refreshTokens d" t s]
        by (auto simp: tokens_ok_def)
      then show ?thesis
        by (cases "findByHash h d")
          (auto simp: findByHash_def findByHash_upd dest: find_SomeD)
    qed
    with run here show ?thesis by (simp add: rotateRead_Proceed) (simp add: revoke_def)
  next
    case (Some r)
    with \<open>findByHash (hashRefreshToken cfg raw) d = Some s\<close> show ?thesis
      by (simp add: revoke_def rotateRead_Proceed)
  qed
qed

theorem revoke_ends_the_session_witness:
  "\<exists>d'. revoke demo_tokens 5 quiet (js ''r2'') demo_token_db = (Inr (), d')
     \<and> (\<forall>t s. rotateRead demo_tokens t (js ''r2'') d' \<noteq> Proceed s)
     \<and> findByHash (js ''s:r3'') d' = findByHash (js ''s:r3'') demo_token_db"
proof -
  have h: "hashRefreshToken demo_tokens (js ''r3'') = js ''s:r3''"
      "hashRefreshToken demo_tokens (js ''r3'') \<noteq> hashRefreshToken demo_tokens (js ''r2'')"
    by (simp_all add: hashRefreshToken_def demo_tokens_def) (simp add: js_def)
  show ?thesis
    using revoke_ends_the_session [OF demo_token_db_ok, of demo_tokens 5 "js ''r2''"] h by metis
qed

lemma findByHash_cleanup:
  assumes "tokens_ok d"
  shows "findByHash h (snd (deleteExpiredTokens now d)) =
     (case findByHash h d of None \<Rightarrow> None | Some t \<Rightarrow> if rt_expiresAt t < now then None else Some t)"
proof -
  have ok: "tokens_ok (snd (deleteExpiredTokens now d))"
    unfolding deleteExpiredTokens_def using assms tokens_ok_del by simp
  have "findByHash h (snd (deleteExpiredTokens now d)) = Some t \<longleftrightarrow>
      findByHash h d = Some t \<and> \<not> rt_expiresAt t < now" for t
    unfolding findByHash_Some [OF ok] findByHash_Some [OF assms]
    by (auto simp: deleteExpiredTokens_def)
  then show ?thesis by (intro option_by_Some) (auto split: option.split)
qed

text \<open>The cleanup removes exactly the expired rows and says how many; a token can be rotated at any
  later moment after it exactly when it could have been rotated without it.\<close>

theorem cleanup_keeps_usable_tokens:
  assumes "db_ok d" and "now \<le> t"
  shows "let (n, d') = removeExpiredTokens now d in
     length (refreshTokens d') + n = length (refreshTokens d)
     \<and> (\<forall>r. r \<in> set (refreshTokens d') \<longleftrightarrow> r \<in> set (refreshTokens d) \<and> now \<le> rt_expiresAt r)
     \<and> (\<forall>raw s. rotateRead cfg t raw d' = Proceed s \<longleftrightarrow> rotateRead cfg t raw d = Proceed s)"
proof -
  let ?d' = "snd (deleteExpiredTokens now d)"
  have "rotateRead cfg t raw ?d' = Proceed s \<longleftrightarrow> rotateRead cfg t raw d = Proceed s" for raw s
    using findByHash_cleanup [OF db_okD(6) [OF assms(1)]] assms(2)
    by (auto simp: rotateRead_Proceed split: option.splits if_splits)
  then show ?thesis
    using length_del_where [of "\<lambda>t. rt_expiresAt t < now" "refreshTokens d"]
    by (auto simp: removeExpiredTokens_def deleteExpiredTokens_def not_less)
qed

theorem cleanup_keeps_usable_tokens_witness:
  "\<forall>raw s. rotateRead demo_tokens 900 raw (snd (removeExpiredTokens 800 demo_token_db)) = Proceed s
     \<longleftrightarrow> rotateRead demo_tokens 900 raw demo_token_db = Proceed s"
  using cleanup_keeps_usable_tokens [OF demo_token_db_ok, of 800 900 demo_tokens]
  by (simp add: Let_def split_beta)


definition demo_logout_all :: sched where
  "demo_logout_all k d = (if k = 1 then revokeAllForUser 1 1 d else d)"


end
