(* ===== verification/ProviderLink.thy ===== *)
theory ProviderLink
  imports Tokens Account Email
begin

text \<open>
  Linking a provider to an existing account (\<open>src/auth/account-linking\<close>): the pending links, the
  request that mails a token, the confirmation that spends it, the nightly cleanup. The token is
  hashed by the same digest as refresh tokens; the random token and the clock are arguments.

  A transaction that other requests may run beside keeps its own deletions apart: they are what its
  later statements see, and what a rollback undoes.
\<close>

section \<open>PendingProviderLinkRepository\<close>

definition PENDING_LINK_RESEND_COOLDOWN_MS :: int where
  "PENDING_LINK_RESEND_COOLDOWN_MS = 60 * 1000"

definition LINK_TTL_MS :: int where
  "LINK_TTL_MS = 15 * 60 * 1000"

definition TOKEN_HASH_PREFIX_LENGTH :: nat where
  "TOKEN_HASH_PREFIX_LENGTH = 8"

record link_input =
  li_userId :: nat
  li_provider :: jstr
  li_providerAccountId :: jstr
  li_tokenHash :: jstr
  li_expiresAt :: int
  li_now :: int

datatype issue_result = Issued nat jstr int | Cooldown nat

definition same_slot :: "link_input \<Rightarrow> pending_link \<Rightarrow> bool" where
  "same_slot inp l \<longleftrightarrow>
     (pl_provider l = li_provider inp \<and> pl_providerAccountId l = li_providerAccountId inp)
     \<or> (pl_userId l = li_userId inp \<and> pl_provider l = li_provider inp)"

definition findExisting :: "link_input \<Rightarrow> db \<Rightarrow> pending_link option" where
  "findExisting inp d =
     (case sort_key (\<lambda>l. Desc (pl_createdAt l)) (filter (same_slot inp) (pendingLinks d)) of
        [] \<Rightarrow> None | l # _ \<Rightarrow> Some l)"

definition issueTx :: "sched \<Rightarrow> link_input \<Rightarrow> (thrown, issue_result, db) comp" where
  "issueTx sched inp d =
     (let d1 = sched 1 d;
          gone = map pl_id (filter (same_slot inp) (pendingLinks d1));
          d2 = sched 2 d1;
          view = d2\<lparr>pendingLinks := del_where (\<lambda>l. pl_id l \<in> set gone) (pendingLinks d2)\<rparr>
      in case create_pending_link (li_userId inp) (li_provider inp) (li_providerAccountId inp)
                (li_tokenHash inp) (li_expiresAt inp) (li_now inp) view of
           (Inl e, d3) \<Rightarrow> (Inl e, rollback d2 d3)
         | (Inr row, d3) \<Rightarrow> (Inr (Issued (pl_id row) (pl_tokenHash row) (pl_expiresAt row)), d3))"

definition issue :: "sched \<Rightarrow> link_input \<Rightarrow> (thrown, issue_result, db) comp" where
  "issue sched inp d =
     (let d0 = sched 0 d; existing = findExisting inp d0
      in if (case existing of None \<Rightarrow> False
             | Some l \<Rightarrow> li_now inp - pl_createdAt l < PENDING_LINK_RESEND_COOLDOWN_MS)
         then (Inr (Cooldown (pl_id (the existing))), d0)
         else (case issueTx sched inp d0 of
                 (Inr res, d3) \<Rightarrow> (Inr res, d3)
               | (Inl e, d3) \<Rightarrow>
                   if isUniqueConstraintViolation e then
                     (let d4 = sched 3 d3
                      in case findExisting inp d4 of
                           Some l \<Rightarrow> (Inr (Cooldown (pl_id l)), d4)
                         | None \<Rightarrow> (Inl e, d4))
                   else (Inl e, d3)))"

definition usable_link :: "jstr \<Rightarrow> int \<Rightarrow> pending_link \<Rightarrow> bool" where
  "usable_link h now l \<longleftrightarrow> pl_tokenHash l = h \<and> pl_expiresAt l > now"

definition findValid :: "jstr \<Rightarrow> int \<Rightarrow> db \<Rightarrow> pending_link option" where
  "findValid h now d = find (usable_link h now) (pendingLinks d)"

definition deleteIfCurrent :: "nat \<Rightarrow> jstr \<Rightarrow> db \<Rightarrow> bool \<times> db" where
  "deleteIfCurrent i h d =
     (let P = (\<lambda>l. pl_id l = i \<and> pl_tokenHash l = h)
      in (count_where P (pendingLinks d) = 1, d\<lparr>pendingLinks := del_where P (pendingLinks d)\<rparr>))"

definition claim :: "nat \<Rightarrow> jstr \<Rightarrow> int \<Rightarrow> db \<Rightarrow> bool \<times> db" where
  "claim i h now d =
     (let P = (\<lambda>l. pl_id l = i \<and> usable_link h now l)
      in (count_where P (pendingLinks d) = 1, d\<lparr>pendingLinks := del_where P (pendingLinks d)\<rparr>))"

definition deleteExpiredLinks :: "int \<Rightarrow> db \<Rightarrow> nat \<times> db" where
  "deleteExpiredLinks now d =
     (count_where (\<lambda>l. pl_expiresAt l \<le> now) (pendingLinks d),
      d\<lparr>pendingLinks := del_where (\<lambda>l. pl_expiresAt l \<le> now) (pendingLinks d)\<rparr>)"

definition removeExpiredLinks :: "int \<Rightarrow> db \<Rightarrow> nat \<times> db" where
  "removeExpiredLinks now d = deleteExpiredLinks now d"

section \<open>ProviderLinkService\<close>

definition hashProviderLinkToken :: "token_config \<Rightarrow> jstr \<Rightarrow> jstr" where
  "hashProviderLinkToken cfg raw = sha256 cfg raw"

definition service_unavailable :: thrown where
  "service_unavailable =
     ServiceUnavailableException (Text (js ''Service unavailable, please try again later''))"

record link_request =
  lr_userId :: nat
  lr_recipient :: jstr
  lr_provider :: jstr
  lr_providerAccountId :: jstr

datatype request_result = RequestIssued nat | RequestCooldown nat

type_synonym world = "db \<times> queued_job list"

definition requestLink ::
    "token_config \<Rightarrow> queue_env \<Rightarrow> int \<Rightarrow> jstr \<Rightarrow> sched \<Rightarrow> link_request \<Rightarrow>
     (thrown, request_result, world) comp" where
  "requestLink cfg env now rawToken sched req w =
     (let h = hashProviderLinkToken cfg rawToken;
          expiresAt = now + LINK_TTL_MS
      in case issue sched \<lparr>li_userId = lr_userId req, li_provider = lr_provider req,
                li_providerAccountId = lr_providerAccountId req, li_tokenHash = h,
                li_expiresAt = expiresAt, li_now = now\<rparr> (fst w) of
           (Inl e, d1) \<Rightarrow> (Inl e, (d1, snd w))
         | (Inr (Cooldown i), d1) \<Rightarrow> (Inr (RequestCooldown i), (d1, snd w))
         | (Inr (Issued i _ _), d1) \<Rightarrow>
             (case enqueueProviderLinkConfirmation env
                     \<lparr>lj_pendingId = i, lj_recipient = lr_recipient req, lj_rawToken = rawToken,
                      lj_expiresAt = expiresAt\<rparr> (take TOKEN_HASH_PREFIX_LENGTH h) (snd w) of
                (Inr _, q) \<Rightarrow> (Inr (RequestIssued i), (d1, q))
              | (Inl _, q) \<Rightarrow>
                  (Inl service_unavailable, (snd (deleteIfCurrent i h (sched 4 d1)), q))))"

definition invalid_link_token :: thrown where
  "invalid_link_token = BadRequestException (I18n ''common.error.invalidOrExpiredLinkToken'')"

definition link_conflict :: thrown where
  "link_conflict = ConflictException (I18n ''common.error.providerLinkConflict'')"

datatype confirmation = Confirmed | AlreadyConfirmed

text \<open>
  The transaction of \<open>confirm\<close>; the flag of an error says that \<open>racedIdentity\<close> was set, with its value.
\<close>

definition confirmTx ::
    "int \<Rightarrow> sched \<Rightarrow> jstr \<Rightarrow> (pending_link option \<times> thrown, confirmation, db) comp" where
  "confirmTx now sched h d =
     (let d0 = sched 0 d
      in case findValid h now d0 of
           None \<Rightarrow> (Inl (None, invalid_link_token), d0)
         | Some l \<Rightarrow>
             (let d1 = sched 1 d0;
                  claimed = fst (claim (pl_id l) h now d1);
                  own = (if claimed then (\<lambda>e. snd (claim (pl_id l) h now e)) else (\<lambda>e. e));
                  d2 = sched 2 d1
              in case findAccountByProvider (pl_provider l) (pl_providerAccountId l) d2 of
                   Some a \<Rightarrow>
                     if ac_id a = pl_userId l then (Inr AlreadyConfirmed, own d2)
                     else (Inl (None, link_conflict), d2)
                 | None \<Rightarrow>
                     if \<not> claimed then (Inl (None, invalid_link_token), d2)
                     else (let d3 = sched 3 d2
                           in case createLink (pl_userId l) (pl_provider l)
                                     (pl_providerAccountId l) now (own d3) of
                                (Inl e, d4) \<Rightarrow> (Inl (Some l, e), rollback d3 d4)
                              | (Inr _, d4) \<Rightarrow> (Inr Confirmed, d4))))"

definition confirm ::
    "token_config \<Rightarrow> int \<Rightarrow> sched \<Rightarrow> jstr \<Rightarrow> (thrown, confirmation, db) comp" where
  "confirm cfg now sched rawToken d =
     (if rawToken = [] then (Inl invalid_link_token, d)
      else case confirmTx now sched (hashProviderLinkToken cfg rawToken) d of
             (Inr c, d1) \<Rightarrow> (Inr c, d1)
           | (Inl (raced, e), d1) \<Rightarrow>
               (case (isUniqueConstraintViolation e, raced) of
                  (True, Some l) \<Rightarrow>
                    (let d2 = sched 4 d1
                     in case findAccountByProvider (pl_provider l) (pl_providerAccountId l) d2 of
                          Some a \<Rightarrow> if ac_id a = pl_userId l then (Inr AlreadyConfirmed, d2)
                                    else (Inl link_conflict, d2)
                        | None \<Rightarrow> (Inl link_conflict, d2))
                | _ \<Rightarrow> (Inl e, d1)))"

section \<open>Lemmas on pending links\<close>

abbreviation without_link :: "pending_link \<Rightarrow> db \<Rightarrow> db" where
  "without_link l d \<equiv> d\<lparr>pendingLinks := del_where (\<lambda>x. pl_id x = pl_id l) (pendingLinks d)\<rparr>"

lemma findValid_Some:
  "links_ok d \<Longrightarrow> findValid h now d = Some l \<longleftrightarrow> l \<in> set (pendingLinks d) \<and> usable_link h now l"
  unfolding findValid_def links_ok_def
  by (auto dest: find_SomeD)
    (metis (no_types, lifting) find_NoneD find_SomeD not_Some_eq uniqD usable_link_def)

lemma links_ok_del: "links_ok d \<Longrightarrow> links_ok (d\<lparr>pendingLinks := del_where P (pendingLinks d)\<rparr>)"
  by (auto simp: links_ok_def user_ids_def)

lemma db_ok_del_links [keeps]: "db_ok d \<Longrightarrow> db_ok (d\<lparr>pendingLinks := del_where P (pendingLinks d)\<rparr>)"
  by (rule db_ok_put(3)) (auto intro: links_ok_del dest: db_okD)

lemma claim_valid:
  assumes "links_ok d" and "findValid h now d = Some l"
  shows "claim (pl_id l) h now d = (True, without_link l d)"
proof -
  have l: "l \<in> set (pendingLinks d)" "usable_link h now l"
    using assms findValid_Some by blast+
  have ids: "uniq pl_id (pendingLinks d)" using assms(1) by (simp add: links_ok_def)
  have "count_where (\<lambda>x. pl_id x = pl_id l \<and> usable_link h now x) (pendingLinks d) = 1"
    using uniq_count_one [OF ids l(1), of "\<lambda>x. pl_id x = pl_id l \<and> usable_link h now x"] l(2) by simp
  moreover have "del_where (\<lambda>x. pl_id x = pl_id l \<and> usable_link h now x) (pendingLinks d) =
      del_where (\<lambda>x. pl_id x = pl_id l) (pendingLinks d)"
    using uniqD [OF ids _ l(1)] l(2) by (intro del_where_cong) metis
  ultimately show ?thesis by (simp add: claim_def Let_def)
qed

lemma link_user: "links_ok d \<Longrightarrow> findValid h now d = Some l \<Longrightarrow> pl_userId l \<in> user_ids d"
  using findValid_Some by (auto simp: links_ok_def)

text \<open>What the repositories read of a database whose pending links changed.\<close>

lemma links_frame [simp]:
  "find_link prov acct (d\<lparr>pendingLinks := ls\<rparr>) = find_link prov acct d"
  "findAccountByProvider prov acct (d\<lparr>pendingLinks := ls\<rparr>) = findAccountByProvider prov acct d"
  "user_ids (d\<lparr>pendingLinks := ls\<rparr>) = user_ids d"
  "find_link prov acct (rollback d d') = find_link prov acct d"
  by (simp_all add: find_link_def findAccountByProvider_def find_user_def user_ids_def
      split: option.split)

definition new_link :: "pending_link \<Rightarrow> int \<Rightarrow> db \<Rightarrow> auth_provider" where
  "new_link l now d = \<lparr>ap_id = seqs d MAuthProvider, ap_provider = pl_provider l,
     ap_providerAccountId = pl_providerAccountId l, ap_userId = pl_userId l, ap_createdAt = now\<rparr>"

text \<open>Reads through \<open>findAccountByProvider\<close> are reads of the unique index.\<close>

lemma account_of_link:
  assumes "db_ok d" and "find_link prov acct d = Some p"
  obtains a where "findAccountByProvider prov acct d = Some a" "ac_id a = ap_userId p"
  using assms findAccountByProvider_None [OF assms(1), of prov acct] findAccountByProvider_ac_id
  by (metis not_Some_eq option.inject)

section \<open>A small database for concrete runs\<close>

definition demo_link :: "nat \<Rightarrow> nat \<Rightarrow> string \<Rightarrow> string \<Rightarrow> pending_link" where
  "demo_link i uid acct raw = \<lparr>pl_id = i, pl_userId = uid, pl_provider = js ''google'',
     pl_providerAccountId = js acct, pl_tokenHash = js ''s:'' @ js raw, pl_expiresAt = 900000,
     pl_createdAt = 0\<rparr>"

definition demo_link_db :: db where
  "demo_link_db = demo_db\<lparr>pendingLinks := [demo_link 1 1 ''g1'' ''t1'', demo_link 2 2 ''g2'' ''t2'']\<rparr>"

lemmas demo_link_defs =
  demo_tokens_def demo_link_def demo_link_db_def demo_db_def demo_user_def empty_db_def

lemma demo_link_db_ok: "db_ok demo_link_db"
  unfolding demo_link_db_def
  by (rule db_ok_put(3) [OF demo_db_ok])
    (simp add: links_ok_def user_ids_def demo_link_defs)

section \<open>Confirming a link\<close>

text \<open>What an undisturbed confirmation does, in every case: a token that is blank, unknown or expired
  is a 400 and changes nothing; if the provider account is free it is linked to the owner of the
  pending row, which is consumed, and nothing else changes; if the owner already has it the pending
  row is consumed; if another user has it the answer is a 409 and the pending row stays.\<close>

theorem confirm_cases:
  assumes "db_ok d" and "raw \<noteq> []"
  shows "confirm cfg now quiet raw d =
    (case findValid (hashProviderLinkToken cfg raw) now d of
       None \<Rightarrow> (Inl invalid_link_token, d)
     | Some l \<Rightarrow>
         (case find_link (pl_provider l) (pl_providerAccountId l) d of
            None \<Rightarrow> (Inr Confirmed, (bump MAuthProvider (without_link l d))
                      \<lparr>authProviders := authProviders d @ [new_link l now d]\<rparr>)
          | Some p \<Rightarrow> if ap_userId p = pl_userId l then (Inr AlreadyConfirmed, without_link l d)
                      else (Inl link_conflict, d)))"
proof (cases "findValid (hashProviderLinkToken cfg raw) now d")
  case None
  then show ?thesis
    using assms(2) by (simp add: confirm_def confirmTx_def Let_def isUniqueConstraintViolation_def
        invalid_link_token_def)
next
  case (Some l)
  note cl = claim_valid [OF db_okD(7) [OF assms(1)] Some]
  show ?thesis
  proof (cases "find_link (pl_provider l) (pl_providerAccountId l) d")
    case None
    then have "findAccountByProvider (pl_provider l) (pl_providerAccountId l) d = None"
      using findAccountByProvider_None [OF assms(1)] by simp
    moreover have "createLink (pl_userId l) (pl_provider l) (pl_providerAccountId l) now
        (without_link l d) = (Inr (), (bump MAuthProvider (without_link l d))
            \<lparr>authProviders := authProviders d @ [new_link l now d]\<rparr>)"
      using createLink_unlinked [of "pl_userId l" "without_link l d"] None
        link_user [OF db_okD(7) [OF assms(1)] Some]
      by (simp add: new_link_def)
    ultimately show ?thesis
      using Some None assms(2) cl by (simp add: confirm_def confirmTx_def Let_def)
  next
    case link: (Some p)
    obtain a where "findAccountByProvider (pl_provider l) (pl_providerAccountId l) d = Some a"
        "ac_id a = ap_userId p"
      using account_of_link [OF assms(1) link] .
    then show ?thesis
      using Some link assms(2) cl
      by (simp add: confirm_def confirmTx_def Let_def link_conflict_def isUniqueConstraintViolation_def)
  qed
qed

theorem confirm_cases_witness:
  "\<exists>d'. confirm demo_tokens 5 quiet (js ''t1'') demo_link_db = (Inr Confirmed, d')
     \<and> pendingLinks d' = [demo_link 2 2 ''g2'' ''t2'']
     \<and> map ap_userId (authProviders d') = [1]"
  using confirm_cases [OF demo_link_db_ok, of "js ''t1''" demo_tokens 5]
  by (simp add: findValid_def usable_link_def hashProviderLinkToken_def find_link_def new_link_def
      demo_link_defs)

text \<open>
  Confirmations as claims: a claim of row \<open>i\<close> wins if the answer is \<open>Confirmed\<close> and that row is what the
  token consumed.
\<close>

definition pending_ids :: "db \<Rightarrow> nat set" where
  "pending_ids d = pl_id ` set (pendingLinks d)"

definition link_claim :: "token_config \<Rightarrow> nat \<times> jstr \<times> int \<Rightarrow> db \<Rightarrow> bool \<times> db" where
  "link_claim cfg q d = (case q of (i, raw, now) \<Rightarrow>
     (case confirm cfg now quiet raw d of
        (Inr Confirmed, d') \<Rightarrow> (i \<in> pending_ids d - pending_ids d', d')
      | (_, d') \<Rightarrow> (False, d')))"

definition link_live :: "nat \<Rightarrow> db \<Rightarrow> bool" where
  "link_live i d \<longleftrightarrow> i \<in> pending_ids d"

definition link_known :: "nat \<Rightarrow> db \<Rightarrow> bool" where
  "link_known i d \<longleftrightarrow> i < seqs d MPendingLink"

definition link_others :: "(db \<Rightarrow> db) set" where
  "link_others = {f. \<forall>d. db_ok d \<longrightarrow> db_ok (f d) \<and> seqs_le d (f d)
     \<and> (\<forall>i. link_known i d \<longrightarrow> link_live i (f d) \<longrightarrow> link_live i d)}"

lemma pending_ids_without [simp]: "pending_ids (without_link l d) = pending_ids d - {pl_id l}"
  by (auto simp: pending_ids_def)

lemma db_ok_new_link:
  assumes "db_ok d" and "findValid h now d = Some l"
    and "find_link (pl_provider l) (pl_providerAccountId l) d = None"
  shows "db_ok ((bump MAuthProvider (without_link l d))\<lparr>authProviders := authProviders d @ [new_link l now d]\<rparr>)"
proof -
  have "createLink (pl_userId l) (pl_provider l) (pl_providerAccountId l) now (without_link l d) =
      (Inr (), (bump MAuthProvider (without_link l d))
         \<lparr>authProviders := authProviders d @ [new_link l now d]\<rparr>)"
    using createLink_unlinked [of "pl_userId l" "without_link l d"] assms(3)
      link_user [OF db_okD(7) [OF assms(1)] assms(2)]
    by (simp add: new_link_def)
  then show ?thesis using db_ok_createLink db_ok_del_links [OF assms(1)] by blast
qed

text \<open>One confirmation keeps the constraints, adds no pending row, and leaves the sequences behind it.\<close>

lemma confirm_frame:
  assumes ok: "db_ok d" and run: "confirm cfg now quiet raw d = (r, d')"
  shows "db_ok d'" and "pending_ids d' \<subseteq> pending_ids d" and "seqs d' MPendingLink = seqs d MPendingLink"
proof -
  have b: "pending_ids ((bump MAuthProvider e)\<lparr>authProviders := x\<rparr>) = pending_ids e" for e x
    by (simp add: pending_ids_def)
  have "db_ok d' \<and> pending_ids d' \<subseteq> pending_ids d \<and> seqs d' MPendingLink = seqs d MPendingLink"
  proof (cases "raw = []")
    case True
    then show ?thesis using run ok by (auto simp: confirm_def)
  next
    case False
    show ?thesis
      using run confirm_cases [OF ok False, of cfg now] db_ok_new_link [OF ok] ok
      by (auto simp: b db_ok_del_links split: option.splits if_splits)
  qed
  then show "db_ok d'" "pending_ids d' \<subseteq> pending_ids d" "seqs d' MPendingLink = seqs d MPendingLink"
    by auto
qed

lemma link_claim_frame:
  assumes ok: "db_ok d" and run: "link_claim cfg q d = (won, d')"
  shows "db_ok d'" and "pending_ids d' \<subseteq> pending_ids d" and "seqs d' MPendingLink = seqs d MPendingLink"
    and "won \<Longrightarrow> fst q \<in> pending_ids d - pending_ids d'"
proof -
  obtain i raw now r e where q: "q = (i, raw, now)" "confirm cfg now quiet raw d = (r, e)"
    by (metis prod.exhaust)
  have e: "d' = e" "won \<Longrightarrow> i \<in> pending_ids d - pending_ids e"
    using run q by (auto simp: link_claim_def split: sum.splits confirmation.splits)
  show "db_ok d'" "pending_ids d' \<subseteq> pending_ids d" "seqs d' MPendingLink = seqs d MPendingLink"
    "won \<Longrightarrow> fst q \<in> pending_ids d - pending_ids d'"
    using confirm_frame [OF ok q(2)] e q by auto
qed

interpretation link: single_use "link_claim cfg" fst link_live link_known db_ok link_others for cfg
proof unfold_locales
  fix d :: db and q :: "nat \<times> jstr \<times> int" and k
  assume inv: "db_ok d"
  obtain w d' where c: "link_claim cfg q d = (w, d')" by fastforce
  note fr = link_claim_frame [OF inv c]
  show "link_live (fst q) d" if "fst (link_claim cfg q d)"
    using fr(4) that c by (simp add: link_live_def)
  show "\<not> link_live (fst q) (snd (link_claim cfg q d))" if "fst (link_claim cfg q d)"
    using fr(4) that c by (simp add: link_live_def)
  show "db_ok (snd (link_claim cfg q d))" using fr(1) c by simp
  show "link_known k (snd (link_claim cfg q d))" if "link_known k d"
    using fr(3) that c by (simp add: link_known_def)
  show "\<not> link_live k (snd (link_claim cfg q d))" if "\<not> link_live k d"
    using fr(2) that c by (auto simp: link_live_def)
next
  fix f d k
  assume f: "f \<in> link_others" and inv: "db_ok (d :: db)"
  show "db_ok (f d)" using f inv by (simp add: link_others_def)
  show "link_known k (f d)" if "link_known k d"
    using f inv that unfolding link_others_def link_known_def seqs_le_def
    by (auto intro: order.strict_trans2)
  show "\<not> link_live k (f d)" if "link_known k d" "\<not> link_live k d"
    using f inv that by (auto simp: link_others_def)
qed


definition demo_confirmations :: "(nat \<times> jstr \<times> int, db) occurrence list" where
  "demo_confirmations = [Claim (1, js ''t1'', 5), Claim (1, js ''t1'', 6)]"


text \<open>When another request links the same provider account between the check and the insertion of a
  confirmation, the unique index decides: the answer is \<open>AlreadyConfirmed\<close> if that request linked it to
  the same user and a 409 otherwise, and the transaction leaves no trace, the pending row included.\<close>

theorem confirm_race_is_resolved:
  assumes "db_ok d" and "db_ok (sched 3 d)" and "raw \<noteq> []"
    and "findValid (hashProviderLinkToken cfg raw) now d = Some l"
    and "find_link (pl_provider l) (pl_providerAccountId l) d = None"
    and "find_link (pl_provider l) (pl_providerAccountId l) (sched 3 d) = Some p"
    and "sched 0 = id" and "sched 1 = id" and "sched 2 = id" and "sched 4 = id"
  shows "\<exists>d'. confirm cfg now sched raw d =
       (if ap_userId p = pl_userId l then Inr AlreadyConfirmed else Inl link_conflict, d')
     \<and> authProviders d' = authProviders (sched 3 d) \<and> pendingLinks d' = pendingLinks (sched 3 d)"
proof -
  let ?h = "hashProviderLinkToken cfg raw" and ?d3 = "sched 3 d"
  let ?own = "\<lambda>e. snd (claim (pl_id l) ?h now e)"
  note cl = claim_valid [OF db_okD(7) [OF assms(1)] assms(4)]
  have link3: "find_link (pl_provider l) (pl_providerAccountId l) (?own ?d3) = Some p"
    using assms(6) by (simp add: claim_def Let_def)
  have free: "findAccountByProvider (pl_provider l) (pl_providerAccountId l) d = None"
    using assms(5) findAccountByProvider_None [OF assms(1)] by simp
  have tx: "confirmTx now sched ?h d =
      (Inl (Some l, unique_violation [''provider'', ''providerAccountId'']),
       rollback ?d3 (bump MAuthProvider (?own ?d3)))"
    using assms(4,7-9) free cl createLink_linked [OF link3]
    by (simp add: confirmTx_def Let_def)
  let ?d' = "rollback ?d3 (bump MAuthProvider (?own ?d3))"
  have "db_ok ?d'"
    by (rule db_ok_rollback [OF assms(2)]) (simp add: claim_def Let_def seqs_le_def)
  then obtain a where "findAccountByProvider (pl_provider l) (pl_providerAccountId l) ?d' = Some a"
      "ac_id a = ap_userId p"
    using account_of_link [of ?d' "pl_provider l" "pl_providerAccountId l" p] assms(6) by auto
  then show ?thesis
    using tx assms(3,10) by (simp add: confirm_def isUniqueConstraintViolation_def Let_def)
qed

definition demo_race :: sched where
  "demo_race k = (if k = 3 then \<lambda>d. snd (createLink 2 (js ''google'') (js ''g1'') 4 d) else id)"

theorem confirm_race_is_resolved_witness:
  "\<exists>d'. confirm demo_tokens 5 demo_race (js ''t1'') demo_link_db = (Inl link_conflict, d')
     \<and> map ap_userId (authProviders d') = [2]
     \<and> pendingLinks d' = [demo_link 1 1 ''g1'' ''t1'', demo_link 2 2 ''g2'' ''t2'']"
proof -
  let ?l = "demo_link 1 1 ''g1'' ''t1''"
  have run: "demo_race 3 demo_link_db = (bump MAuthProvider demo_link_db)
      \<lparr>authProviders := [\<lparr>ap_id = 5, ap_provider = js ''google'', ap_providerAccountId = js ''g1'',
         ap_userId = 2, ap_createdAt = 4\<rparr>]\<rparr>"
    using createLink_unlinked [of 2 demo_link_db "js ''google''" "js ''g1''" 4]
    by (simp add: demo_race_def user_ids_def find_link_def demo_link_defs)
  have ok: "db_ok (demo_race 3 demo_link_db)"
    using db_ok_createLink [OF surjective_pairing demo_link_db_ok] by (simp add: demo_race_def)
  have res: "\<exists>d'. confirm demo_tokens 5 demo_race (js ''t1'') demo_link_db =
       (if ap_userId (hd (authProviders (demo_race 3 demo_link_db))) = pl_userId ?l
        then Inr AlreadyConfirmed else Inl link_conflict, d')
     \<and> authProviders d' = authProviders (demo_race 3 demo_link_db)
     \<and> pendingLinks d' = pendingLinks (demo_race 3 demo_link_db)"
  proof (rule confirm_race_is_resolved [where sched = demo_race, OF demo_link_db_ok ok])
    show "find_link (pl_provider ?l) (pl_providerAccountId ?l) (demo_race 3 demo_link_db) =
        Some (hd (authProviders (demo_race 3 demo_link_db)))"
      unfolding run by (simp add: find_link_def demo_link_def)
    show "find_link (pl_provider ?l) (pl_providerAccountId ?l) demo_link_db = None"
      by (simp add: find_link_def demo_link_defs)
    show "findValid (hashProviderLinkToken demo_tokens (js ''t1'')) 5 demo_link_db = Some ?l"
      by (simp add: findValid_def usable_link_def hashProviderLinkToken_def demo_link_defs)
  qed (simp_all add: demo_race_def)
  have "ap_userId (hd (authProviders (demo_race 3 demo_link_db))) \<noteq> pl_userId ?l"
      "map ap_userId (authProviders (demo_race 3 demo_link_db)) = [2]"
      "pendingLinks (demo_race 3 demo_link_db) = [?l, demo_link 2 2 ''g2'' ''t2'']"
    unfolding run by (simp_all add: demo_link_def demo_link_db_def)
  with res show ?thesis by auto
qed

section \<open>Requesting a link\<close>

lemma findExisting_Some:
  assumes "findExisting inp d = Some l"
  shows "l \<in> set (pendingLinks d)" and "same_slot inp l"
    and "x \<in> set (pendingLinks d) \<Longrightarrow> same_slot inp x \<Longrightarrow> pl_createdAt x \<le> pl_createdAt l"
proof -
  let ?k = "\<lambda>l. Desc (pl_createdAt l)" and ?rows = "filter (same_slot inp) (pendingLinks d)"
  obtain ls where s: "sort_key ?k ?rows = l # ls"
    using assms by (auto simp: findExisting_def split: list.splits)
  have "l \<in> set ?rows" using s by (metis list.set_intros(1) set_sort)
  then show "l \<in> set (pendingLinks d)" "same_slot inp l" by simp_all
  show "pl_createdAt x \<le> pl_createdAt l" if "x \<in> set (pendingLinks d)" "same_slot inp x"
  proof -
    have "x \<in> set ?rows" using that by simp
    then have "x \<in> set (l # ls)" using s by (metis set_sort)
    moreover have "sorted (map ?k (l # ls))" using s by (metis sorted_sort_key)
    ultimately show ?thesis by auto
  qed
qed

lemma findExisting_None:
  "findExisting inp d = None \<longleftrightarrow> (\<forall>l \<in> set (pendingLinks d). \<not> same_slot inp l)"
proof -
  have "sort_key (\<lambda>l. Desc (pl_createdAt l)) (filter (same_slot inp) (pendingLinks d)) = []
      \<longleftrightarrow> filter (same_slot inp) (pendingLinks d) = []"
    by (metis length_0_conv length_sort)
  then show ?thesis by (auto simp: findExisting_def filter_empty_conv split: list.split)
qed

definition new_pending :: "link_input \<Rightarrow> db \<Rightarrow> pending_link" where
  "new_pending inp d = \<lparr>pl_id = seqs d MPendingLink, pl_userId = li_userId inp,
     pl_provider = li_provider inp, pl_providerAccountId = li_providerAccountId inp,
     pl_tokenHash = li_tokenHash inp, pl_expiresAt = li_expiresAt inp, pl_createdAt = li_now inp\<rparr>"

lemma issue_quiet:
  assumes ok: "db_ok d" and user: "li_userId inp \<in> user_ids d"
    and fresh: "li_tokenHash inp \<notin> pl_tokenHash ` set (pendingLinks d)"
    and old: "\<forall>l \<in> set (pendingLinks d). same_slot inp l \<longrightarrow>
           PENDING_LINK_RESEND_COOLDOWN_MS \<le> li_now inp - pl_createdAt l"
  shows "issue quiet inp d =
     (Inr (Issued (seqs d MPendingLink) (li_tokenHash inp) (li_expiresAt inp)),
      (bump MPendingLink d)\<lparr>pendingLinks := del_where (same_slot inp) (pendingLinks d) @ [new_pending inp d]\<rparr>)"
proof -
  have uniq: "uniq pl_id (pendingLinks d)" using db_okD(7) [OF ok] by (simp add: links_ok_def)
  have del: "del_where (\<lambda>l. pl_id l \<in> set (map pl_id (filter (same_slot inp) (pendingLinks d)))) (pendingLinks d)
      = del_where (same_slot inp) (pendingLinks d)"
    using uniqD [OF uniq] by (intro del_where_cong) (auto simp: image_iff; metis)
  have "(li_provider inp, li_providerAccountId inp)
      \<notin> (\<lambda>l. (pl_provider l, pl_providerAccountId l)) ` {l \<in> set (pendingLinks d). \<not> same_slot inp l}"
    "(li_userId inp, li_provider inp)
      \<notin> (\<lambda>l. (pl_userId l, pl_provider l)) ` {l \<in> set (pendingLinks d). \<not> same_slot inp l}"
    "li_tokenHash inp \<notin> pl_tokenHash ` {l \<in> set (pendingLinks d). \<not> same_slot inp l}"
    using fresh by (auto simp: same_slot_def)
  then have "issueTx quiet inp d =
     (Inr (Issued (seqs d MPendingLink) (li_tokenHash inp) (li_expiresAt inp)),
      (bump MPendingLink d)\<lparr>pendingLinks := del_where (same_slot inp) (pendingLinks d) @ [new_pending inp d]\<rparr>)"
    using user unfolding issueTx_def Let_def del
    by (simp add: create_pending_link_def new_pending_def bump_def Let_def)
  moreover have "\<not> li_now inp - pl_createdAt l < PENDING_LINK_RESEND_COOLDOWN_MS"
    if "findExisting inp d = Some l" for l
    using findExisting_Some [OF that] old by auto
  ultimately show ?thesis
    by (auto simp: issue_def Let_def split: option.split)
qed

abbreviation request_input :: "token_config \<Rightarrow> int \<Rightarrow> jstr \<Rightarrow> link_request \<Rightarrow> link_input" where
  "request_input cfg now raw req \<equiv> \<lparr>li_userId = lr_userId req, li_provider = lr_provider req,
     li_providerAccountId = lr_providerAccountId req, li_tokenHash = hashProviderLinkToken cfg raw,
     li_expiresAt = now + LINK_TTL_MS, li_now = now\<rparr>"

text \<open>Within a minute of an earlier request for the same provider account, or by the same user for
  the same provider, a request is answered \<open>cooldown\<close>, issues no token, queues no mail and changes no
  row, whatever else runs.\<close>

theorem request_within_cooldown:
  assumes "l \<in> set (pendingLinks (sched 0 d))" and "same_slot (request_input cfg now raw req) l"
    and "now - pl_createdAt l < PENDING_LINK_RESEND_COOLDOWN_MS"
  shows "\<exists>i. requestLink cfg env now raw sched req (d, q) = (Inr (RequestCooldown i), (sched 0 d, q))"
proof -
  let ?inp = "request_input cfg now raw req"
  obtain l' where l': "findExisting ?inp (sched 0 d) = Some l'"
    using assms(1,2) findExisting_None by fastforce
  have "now - pl_createdAt l' < PENDING_LINK_RESEND_COOLDOWN_MS"
    using findExisting_Some(3) [OF l' assms(1,2)] assms(3) by simp
  then show ?thesis using l' by (simp add: requestLink_def issue_def Let_def)
qed

theorem request_within_cooldown_witness:
  "\<exists>i. requestLink demo_tokens (\<lambda>_ _. None) 500 (js ''t9'') quiet
     \<lparr>lr_userId = 1, lr_recipient = js ''ann@x.io'', lr_provider = js ''google'',
      lr_providerAccountId = js ''g3''\<rparr> (demo_link_db, []) = (Inr (RequestCooldown i), (demo_link_db, []))"
  by (rule request_within_cooldown [of "demo_link 1 1 ''g1'' ''t1''" quiet])
    (simp_all add: same_slot_def demo_link_defs PENDING_LINK_RESEND_COOLDOWN_MS_def)

text \<open>After the cooldown an undisturbed request replaces every earlier token of the account or user
  by the new one, valid for fifteen minutes, and queues its mail; when the mail cannot be queued the
  answer is a 503 and no token is left behind, so that the next attempt is not held up by the
  cooldown.\<close>

theorem request_after_cooldown:
  assumes ok: "db_ok d" and user: "lr_userId req \<in> user_ids d"
    and fresh: "hashProviderLinkToken cfg raw \<notin> pl_tokenHash ` set (pendingLinks d)"
    and old: "\<forall>l \<in> set (pendingLinks d). same_slot (request_input cfg now raw req) l \<longrightarrow>
           PENDING_LINK_RESEND_COOLDOWN_MS \<le> now - pl_createdAt l"
  shows "\<exists>res d' q'. requestLink cfg env now raw quiet req (d, q) = (res, (d', q'))
     \<and> (\<forall>l. \<not> same_slot (request_input cfg now raw req) l \<longrightarrow>
           (l \<in> set (pendingLinks d') \<longleftrightarrow> l \<in> set (pendingLinks d)))
     \<and> (if is_ok res then
          (\<exists>l. {l' \<in> set (pendingLinks d'). same_slot (request_input cfg now raw req) l'} = {l}
             \<and> (\<forall>t. findValid (hashProviderLinkToken cfg raw) t d' =
                  (if t < now + 15 * 60 * 1000 then Some l else None)))
          \<and> length q' = length q + 1
        else
          res = Inl service_unavailable
          \<and> (\<forall>l \<in> set (pendingLinks d'). \<not> same_slot (request_input cfg now raw req) l) \<and> q' = q)"
proof -
  let ?inp = "request_input cfg now raw req" and ?h = "hashProviderLinkToken cfg raw"
  let ?row = "new_pending ?inp d"
  let ?rest = "del_where (same_slot ?inp) (pendingLinks d)"
  let ?d1 = "(bump MPendingLink d)\<lparr>pendingLinks := ?rest @ [?row]\<rparr>"
  have iss: "issue quiet ?inp d =
      (Inr (Issued (seqs d MPendingLink) ?h (now + LINK_TTL_MS)), ?d1)"
    using issue_quiet [of d ?inp] assms by simp
  have slot: "same_slot ?inp ?row" by (simp add: same_slot_def new_pending_def)
  have ids: "\<forall>l \<in> set ?rest. pl_id l \<noteq> seqs d MPendingLink"
    using db_okD(7) [OF ok] by (auto simp: links_ok_def)
  obtain r q' where enq: "enqueueProviderLinkConfirmation env
      \<lparr>lj_pendingId = seqs d MPendingLink, lj_recipient = lr_recipient req, lj_rawToken = raw,
       lj_expiresAt = now + LINK_TTL_MS\<rparr> (take TOKEN_HASH_PREFIX_LENGTH ?h) q = (r, q')"
    by fastforce
  show ?thesis
  proof (cases r)
    case (Inl e)
    have "q' = q"
      using enq Inl by (auto simp: enqueueProviderLinkConfirmation_def queue_add_def split: option.splits)
    moreover have "pendingLinks (snd (deleteIfCurrent (seqs d MPendingLink) ?h ?d1)) = ?rest"
      using ids del_where_none [of ?rest "\<lambda>l. pl_id l = seqs d MPendingLink \<and> pl_tokenHash l = ?h"]
      by (simp add: deleteIfCurrent_def Let_def del_where_append new_pending_def)
    ultimately show ?thesis
      using iss enq Inl by (simp add: requestLink_def Let_def)
  next
    case (Inr u)
    have len: "length q' = length q + 1"
      using enq Inr by (auto simp: enqueueProviderLinkConfirmation_def queue_add_def split: option.splits)
    have one: "{l' \<in> set (pendingLinks ?d1). same_slot ?inp l'} = {?row}"
      using slot by auto
    have "find (usable_link ?h t) ?rest = None" for t
      using fresh unfolding find_None_iff by (auto simp: usable_link_def image_iff)
    then have "findValid ?h t ?d1 = (if t < now + 15 * 60 * 1000 then Some ?row else None)" for t
      by (simp add: findValid_def find_append usable_link_def new_pending_def LINK_TTL_MS_def)
    then show ?thesis
      using iss enq Inr len one slot by (simp add: requestLink_def Let_def) blast
  qed
qed

theorem request_after_cooldown_witness:
  "\<exists>res d' q'. requestLink demo_tokens (\<lambda>_ _. Some (JsError [])) 70000 (js ''t9'') quiet
       \<lparr>lr_userId = 1, lr_recipient = js ''ann@x.io'', lr_provider = js ''google'',
        lr_providerAccountId = js ''g1''\<rparr> (demo_link_db, []) = (res, (d', q'))"
proof -
  let ?req = "\<lparr>lr_userId = 1, lr_recipient = js ''ann@x.io'', lr_provider = js ''google'',
      lr_providerAccountId = js ''g1''\<rparr>"
  have "lr_userId ?req \<in> user_ids demo_link_db"
    by (simp add: user_ids_def demo_link_defs)
  moreover have "hashProviderLinkToken demo_tokens (js ''t9'') \<notin> pl_tokenHash ` set (pendingLinks demo_link_db)"
    by (simp add: hashProviderLinkToken_def demo_link_defs)
  moreover have "\<forall>l \<in> set (pendingLinks demo_link_db).
      same_slot (request_input demo_tokens 70000 (js ''t9'') ?req) l \<longrightarrow>
      PENDING_LINK_RESEND_COOLDOWN_MS \<le> 70000 - pl_createdAt l"
    by (simp add: demo_link_defs PENDING_LINK_RESEND_COOLDOWN_MS_def)
  ultimately show ?thesis
    using request_after_cooldown [OF demo_link_db_ok, of ?req demo_tokens "js ''t9''" 70000
        "\<lambda>_ _. Some (JsError [])" "[]"] by blast
qed

text \<open>The nightly cleanup removes exactly the links no confirmation could use any more: at any later
  moment the same tokens are valid with and without it.\<close>

theorem link_cleanup_keeps_valid_tokens:
  assumes "db_ok d" and "now \<le> t"
  shows "findValid h t (snd (removeExpiredLinks now d)) = findValid h t d
     \<and> (\<forall>l \<in> set (pendingLinks (snd (removeExpiredLinks now d))). usable_link (pl_tokenHash l) now l)
     \<and> fst (removeExpiredLinks now d) + length (pendingLinks (snd (removeExpiredLinks now d)))
         = length (pendingLinks d)"
proof (intro conjI)
  let ?d' = "snd (removeExpiredLinks now d)"
  have d': "?d' = d\<lparr>pendingLinks := del_where (\<lambda>l. pl_expiresAt l \<le> now) (pendingLinks d)\<rparr>"
    by (simp add: removeExpiredLinks_def deleteExpiredLinks_def)
  note ok = db_okD(7) [OF assms(1)]
  have "findValid h t ?d' = Some l \<longleftrightarrow> findValid h t d = Some l" for l
    using assms(2) unfolding d' findValid_Some [OF links_ok_del [OF ok]] findValid_Some [OF ok]
    by (auto simp: usable_link_def)
  then show "findValid h t ?d' = findValid h t d" by (rule option_by_Some)
  show "\<forall>l \<in> set (pendingLinks ?d'). usable_link (pl_tokenHash l) now l"
    unfolding d' by (auto simp: usable_link_def)
  show "fst (removeExpiredLinks now d) + length (pendingLinks ?d') = length (pendingLinks d)"
    using length_del_where [of "\<lambda>l. pl_expiresAt l \<le> now" "pendingLinks d"]
    by (simp add: removeExpiredLinks_def deleteExpiredLinks_def)
qed

theorem link_cleanup_keeps_valid_tokens_witness:
  "findValid (js ''s:t1'') 20 (snd (removeExpiredLinks 10 demo_link_db)) = findValid (js ''s:t1'') 20 demo_link_db"
  using link_cleanup_keeps_valid_tokens [OF demo_link_db_ok, of 10 20 "js ''s:t1''"] by simp

end
