(* ===== verification/AuthService.thy ===== *)
theory AuthService
  imports ProviderLink Users
begin

text \<open>
  Accounts from the outside: the password hash (\<open>src/common/password\<close>), the resolution of a provider's
  identity to an account (\<open>src/auth/account/account-resolver.service.ts\<close>), registration, login and the
  OAuth callback (\<open>src/auth/auth.service.ts\<close>, \<open>src/auth/auth.repository.ts\<close>).

  Parameters: bcrypt's \<open>hash\<close> (its salt drawn) and \<open>compare\<close>. Of bcrypt the theorems use that a password
  matches its own hash.
\<close>

section \<open>PasswordService\<close>

record bcrypt =
  bc_hash :: "jstr \<Rightarrow> int \<Rightarrow> jstr"
  bc_compare :: "jstr \<Rightarrow> jstr \<Rightarrow> bool"

definition DEFAULT_SALT_ROUNDS :: int where
  "DEFAULT_SALT_ROUNDS = 10"

definition resolveSaltRounds :: "jstr option \<Rightarrow> int" where
  "resolveSaltRounds configured =
     (case parseInt10 (case configured of Some s \<Rightarrow> s | None \<Rightarrow> js ''10'') of
        None \<Rightarrow> DEFAULT_SALT_ROUNDS | Some n \<Rightarrow> n)"

record auth_config =
  ac_bcrypt :: bcrypt
  ac_saltRounds :: "jstr option"
  ac_tokens :: token_config
  ac_s3 :: s3_env
  ac_unicode :: unicode
  ac_dummySecret :: jstr

definition hashPassword :: "auth_config \<Rightarrow> jstr \<Rightarrow> jstr" where
  "hashPassword cfg plain = bc_hash (ac_bcrypt cfg) plain (resolveSaltRounds (ac_saltRounds cfg))"

definition comparePassword :: "auth_config \<Rightarrow> jstr \<Rightarrow> jstr \<Rightarrow> bool" where
  "comparePassword cfg plain hashed = bc_compare (ac_bcrypt cfg) plain hashed"

definition hash_matches :: "auth_config \<Rightarrow> bool" where
  "hash_matches cfg \<longleftrightarrow> (\<forall>p. comparePassword cfg p (hashPassword cfg p))"

section \<open>AuthRepository\<close>

definition findByEmail :: "jstr \<Rightarrow> db \<Rightarrow> user_row option" where
  "findByEmail em d = map_option public_row (find (\<lambda>u. u_email u = em) (users d))"

definition findByEmailWithPassword :: "jstr \<Rightarrow> db \<Rightarrow> user option" where
  "findByEmailWithPassword em d = find (\<lambda>u. u_email u = em) (users d)"

definition findByUsername :: "jstr \<Rightarrow> db \<Rightarrow> user_row option" where
  "findByUsername un d = map_option public_row (find (\<lambda>u. u_username u = un) (users d))"

section \<open>AuthService: register and login\<close>

record auth_response =
  ar_email :: jstr
  ar_username :: jstr
  ar_bio :: "jstr option"
  ar_image :: "jstr option"
  ar_tokens :: token_pair

definition email_exists :: thrown where
  "email_exists = ConflictException (Text (js ''Email already exists''))"

definition username_exists :: thrown where
  "username_exists = ConflictException (Text (js ''Username already exists''))"

definition register ::
    "auth_config \<Rightarrow> int \<Rightarrow> jstr \<Rightarrow> sched \<Rightarrow> jstr \<Rightarrow> jstr \<Rightarrow> jstr \<Rightarrow> (thrown, auth_response, db) comp" where
  "register cfg now fresh sched email username password d =
     (let d0 = sched 0 d
      in if findByEmail email d0 \<noteq> None then (Inl email_exists, d0)
         else let d1 = sched 1 d0
         in if findByUsername username d1 \<noteq> None then (Inl username_exists, d1)
         else andThen (create_user email username (Some (hashPassword cfg password)) None (sched 2 d1))
           (\<lambda>u d2. andThen (issueTokens (ac_tokens cfg) now fresh (u_id u) (sched 3 d2))
             (\<lambda>tokens d3. (Inr \<lparr>ar_email = u_email u, ar_username = u_username u, ar_bio = None,
                ar_image = None, ar_tokens = tokens\<rparr>, d3))))"

definition dummyPasswordHash :: "auth_config \<Rightarrow> jstr" where
  "dummyPasswordHash cfg = hashPassword cfg (ac_dummySecret cfg)"

definition invalid_credentials :: thrown where
  "invalid_credentials = UnauthorizedException (Text (js ''Invalid credentials''))"

text \<open>
  The work a login does before it answers, for the timing: how many password comparisons it runs.
\<close>

definition login_hash :: "auth_config \<Rightarrow> user option \<Rightarrow> jstr" where
  "login_hash cfg u = (case u of
     Some x \<Rightarrow> (case u_password x of Some h \<Rightarrow> h | None \<Rightarrow> dummyPasswordHash cfg)
   | None \<Rightarrow> dummyPasswordHash cfg)"

definition login ::
    "auth_config \<Rightarrow> int \<Rightarrow> jstr \<Rightarrow> sched \<Rightarrow> jstr \<Rightarrow> jstr \<Rightarrow> (thrown, auth_response, db) comp" where
  "login cfg now fresh sched email password d =
     (let d0 = sched 0 d;
          u = findByEmailWithPassword email d0;
          isPasswordValid = comparePassword cfg password (login_hash cfg u)
      in case u of
           None \<Rightarrow> (Inl invalid_credentials, d0)
         | Some x \<Rightarrow>
             if u_password x = None \<or> \<not> isPasswordValid then (Inl invalid_credentials, d0)
             else andThen (issueTokens (ac_tokens cfg) now fresh (u_id x) (sched 1 d0))
               (\<lambda>tokens d1. (Inr \<lparr>ar_email = u_email x, ar_username = u_username x, ar_bio = u_bio x,
                  ar_image = publicUrl (ac_s3 cfg) (u_image x), ar_tokens = tokens\<rparr>, d1)))"

definition refresh ::
    "auth_config \<Rightarrow> (nat \<Rightarrow> int) \<Rightarrow> jstr \<Rightarrow> sched \<Rightarrow> jstr \<Rightarrow> (thrown, token_pair, db) comp" where
  "refresh cfg clock fresh sched presented d = rotate (ac_tokens cfg) clock fresh sched presented d"

definition logout :: "auth_config \<Rightarrow> int \<Rightarrow> sched \<Rightarrow> jstr \<Rightarrow> (thrown, unit, db) comp" where
  "logout cfg now sched presented d = revoke (ac_tokens cfg) now sched presented d"

section \<open>AccountResolverService\<close>

datatype account_resolution = Account account_row | ConfirmationRequired

definition sign_in_first :: thrown where
  "sign_in_first =
     ConflictException (Text (js ''Sign in with your password first, then link this provider''))"

definition createAccount ::
    "auth_config \<Rightarrow> int \<Rightarrow> nat \<Rightarrow> jstr \<Rightarrow> verified_identity \<Rightarrow> (thrown, account_row, db) comp" where
  "createAccount cfg now time suffix identity d =
     (let username = generateUsername (ac_unicode cfg) (vi_email identity) time suffix
      in case createPasswordless (vi_email identity) username d of
           (Inl e, d1) \<Rightarrow> (Inl e, rollback d d1)
         | (Inr account, d1) \<Rightarrow>
             (case createLink (ac_id account) (vi_provider identity) (vi_providerAccountId identity) now d1 of
                (Inl e, d2) \<Rightarrow> (Inl e, rollback d d2)
              | (Inr _, d2) \<Rightarrow> (Inr account, d2)))"

record oauth_env =
  oe_queue :: queue_env
  oe_rawToken :: jstr
  oe_now :: int
  oe_time :: nat
  oe_suffix :: jstr

definition linkToExisting ::
    "auth_config \<Rightarrow> oauth_env \<Rightarrow> sched \<Rightarrow> nat \<Rightarrow> verified_identity \<Rightarrow> (thrown, account_resolution, world) comp" where
  "linkToExisting cfg env sched uid identity w =
     (if \<not> vi_emailVerified identity then (Inl sign_in_first, w)
      else andThen (requestLink (ac_tokens cfg) (oe_queue env) (oe_now env) (oe_rawToken env) sched
             \<lparr>lr_userId = uid, lr_recipient = vi_email identity, lr_provider = vi_provider identity,
              lr_providerAccountId = vi_providerAccountId identity\<rparr> w)
           (\<lambda>_ w'. (Inr ConfirmationRequired, w')))"

definition resolve ::
    "auth_config \<Rightarrow> oauth_env \<Rightarrow> sched \<Rightarrow> verified_identity \<Rightarrow> (thrown, account_resolution, world) comp" where
  "resolve cfg env sched identity w =
     (let d0 = sched 0 (fst w)
      in case findAccountByProvider (vi_provider identity) (vi_providerAccountId identity) d0 of
           Some a \<Rightarrow> (Inr (Account a), (d0, snd w))
         | None \<Rightarrow>
             (let d1 = sched 1 d0
              in case findIdByEmail (vi_email identity) d1 of
                   Some uid \<Rightarrow> linkToExisting cfg env (\<lambda>k. sched (k + 2)) uid identity (d1, snd w)
                 | None \<Rightarrow>
                     (case createAccount cfg (oe_now env) (oe_time env) (oe_suffix env) identity (sched 2 d1) of
                        (Inl e, d2) \<Rightarrow> (Inl e, (d2, snd w))
                      | (Inr a, d2) \<Rightarrow> (Inr (Account a), (d2, snd w)))))"

datatype oauth_result = Authenticated auth_response | OAuthConfirmationRequired

definition handleOAuthCallback ::
    "auth_config \<Rightarrow> oauth_env \<Rightarrow> jstr \<Rightarrow> sched \<Rightarrow> verified_identity \<Rightarrow> (thrown, oauth_result, world) comp" where
  "handleOAuthCallback cfg env fresh sched identity w =
     andThen (resolve cfg env sched identity w) (\<lambda>res w1. case res of
         ConfirmationRequired \<Rightarrow> (Inr OAuthConfirmationRequired, w1)
       | Account a \<Rightarrow>
           (case issueTokens (ac_tokens cfg) (oe_now env) fresh (ac_id a) (sched 10 (fst w1)) of
              (Inl e, d2) \<Rightarrow> (Inl e, (d2, snd w1))
            | (Inr tokens, d2) \<Rightarrow>
                (Inr (Authenticated \<lparr>ar_email = ac_email a, ar_username = ac_username a, ar_bio = ac_bio a,
                   ar_image = publicUrl (ac_s3 cfg) (ac_image a), ar_tokens = tokens\<rparr>), (d2, snd w1))))"

definition confirmGoogleLink ::
    "auth_config \<Rightarrow> int \<Rightarrow> sched \<Rightarrow> jstr \<Rightarrow> (thrown, bool, db) comp" where
  "confirmGoogleLink cfg now sched token d =
     andThen (confirm (ac_tokens cfg) now sched token d) (\<lambda>_ d'. (Inr True, d'))"

text \<open>The status of the Google callback (\<open>google-auth.controller.ts\<close>): 202 while a link is pending.\<close>

definition oauth_status :: "oauth_result \<Rightarrow> nat" where
  "oauth_status r = (case r of Authenticated _ \<Rightarrow> 200 | OAuthConfirmationRequired \<Rightarrow> 202)"

section \<open>Lemmas\<close>

lemma find_append_user: "find P (us @ [u]) = (case find P us of Some x \<Rightarrow> Some x | None \<Rightarrow> if P u then Some u else None)"
  by (induction us) auto

lemma issueTokens_ok:
  assumes "uid \<in> user_ids d" and "hashRefreshToken cfg fresh \<notin> rt_tokenHash ` set (refreshTokens d)"
  shows "\<exists>d'. issueTokens cfg now fresh uid d =
     (Inr \<lparr>accessToken = signJwt cfg uid now, refreshToken = fresh\<rparr>, d')
   \<and> users d' = users d \<and> set (refreshTokens d') - set (refreshTokens d) \<subseteq>
       {t. rt_tokenHash t = hashRefreshToken cfg fresh \<and> rt_userId t = uid}
   \<and> rt_tokenHash ` set (refreshTokens d') = insert (hashRefreshToken cfg fresh) (rt_tokenHash ` set (refreshTokens d))"
  using assms
  by (auto simp: issueTokens_def createTokenPair_def create_refresh_token_def Let_def)

lemma issueTokens_users: "issueTokens cfg now fresh uid d = (r, d') \<Longrightarrow> users d' = users d"
  by (auto simp: issueTokens_def createTokenPair_def create_refresh_token_def Let_def andThen_def
      split: prod.splits sum.splits if_splits)

lemma find_none_image: "find (\<lambda>x. f x = k) xs = None \<longleftrightarrow> k \<notin> f ` set xs"
  by (auto simp: find_None_iff image_iff)

section \<open>Properties\<close>


definition demo_auth :: auth_config where
  "demo_auth = \<lparr>ac_bcrypt = \<lparr>bc_hash = (\<lambda>p _. js ''b:'' @ p), bc_compare = (\<lambda>p h. h = js ''b:'' @ p)\<rparr>,
     ac_saltRounds = None, ac_tokens = demo_tokens, ac_s3 = demo_s3, ac_unicode = ascii_unicode,
     ac_dummySecret = js ''zz''\<rparr>"


text \<open>A login succeeds exactly for a user who has a password that matches; every refusal, for an
  unknown address, an account without a password or a wrong password, is the same 401, changes
  nothing and issues no token.\<close>

theorem login_cases:
  assumes "db_ok d" and "hashRefreshToken (ac_tokens cfg) fresh \<notin> rt_tokenHash ` set (refreshTokens d)"
  shows "case login cfg now fresh quiet email password d of
      (Inr r, d') \<Rightarrow> \<exists>u h. u \<in> set (users d) \<and> u_email u = email \<and> u_password u = Some h
         \<and> comparePassword cfg password h \<and> ar_username r = u_username u
         \<and> accessToken (ar_tokens r) = signJwt (ac_tokens cfg) (u_id u) now
    | (Inl e, d') \<Rightarrow> e = invalid_credentials \<and> d' = d
         \<and> \<not> (\<exists>u h. u \<in> set (users d) \<and> u_email u = email \<and> u_password u = Some h
               \<and> comparePassword cfg password h)"
proof (cases "findByEmailWithPassword email d")
  case None
  then have "\<not> (\<exists>u. u \<in> set (users d) \<and> u_email u = email)"
    unfolding findByEmailWithPassword_def find_None_iff by blast
  with None show ?thesis by (auto simp: login_def)
next
  case (Some u)
  then have u: "u \<in> set (users d)" "u_email u = email"
    using find_SomeD by (fastforce simp: findByEmailWithPassword_def)+
  then have only: "\<And>v. v \<in> set (users d) \<Longrightarrow> u_email v = email \<Longrightarrow> v = u"
    using db_okD(1) [OF assms(1)] uniqD unfolding users_ok_def by metis
  show ?thesis
  proof (cases "\<exists>h. u_password u = Some h \<and> comparePassword cfg password h")
    case True
    have "u_id u \<in> user_ids d" using u(1) by (simp add: user_ids_def)
    then obtain d' where "issueTokens (ac_tokens cfg) now fresh (u_id u) d =
        (Inr \<lparr>accessToken = signJwt (ac_tokens cfg) (u_id u) now, refreshToken = fresh\<rparr>, d')"
      using issueTokens_ok [of "u_id u" d "ac_tokens cfg" fresh now] assms(2) by blast
    then show ?thesis using True Some u by (auto simp: login_def login_hash_def)
  next
    case False
    then have "login cfg now fresh quiet email password d = (Inl invalid_credentials, d)"
      using Some by (auto simp: login_def login_hash_def Let_def split: option.splits)
    then show ?thesis using False only by auto
  qed
qed

theorem login_cases_witness:
  "\<exists>d'. login demo_auth 1 (js ''f1'') quiet (js ''nobody'') (js ''x'') demo_db = (Inl invalid_credentials, d')"
proof -
  have "hashRefreshToken (ac_tokens demo_auth) (js ''f1'') \<notin> rt_tokenHash ` set (refreshTokens demo_db)"
    by (simp add: demo_db_def empty_db_def)
  then have "case login demo_auth 1 (js ''f1'') quiet (js ''nobody'') (js ''x'') demo_db of
      (Inr r, d') \<Rightarrow> \<exists>u h. u \<in> set (users demo_db) \<and> u_email u = js ''nobody'' \<and> u_password u = Some h
         \<and> comparePassword demo_auth (js ''x'') h \<and> ar_username r = u_username u
         \<and> accessToken (ar_tokens r) = signJwt (ac_tokens demo_auth) (u_id u) 1
    | (Inl e, d') \<Rightarrow> e = invalid_credentials \<and> d' = demo_db
         \<and> \<not> (\<exists>u h. u \<in> set (users demo_db) \<and> u_email u = js ''nobody'' \<and> u_password u = Some h
               \<and> comparePassword demo_auth (js ''x'') h)"
    by (rule login_cases [OF demo_db_ok])
  then show ?thesis
    by (auto simp: demo_db_def demo_user_def split: prod.splits sum.splits)
qed

text \<open>When two registrations race for the same address or name, the constraints of the database keep
  at most one, and the loser is answered 409 like any late comer: the only errors of a registration
  are conflicts, as long as other requests leave the new user and the new token's hash alone.\<close>

theorem register_conflicts_are_409:
  assumes run: "register cfg now fresh sched email username password d = (Inl e, d')"
    and calm: "\<forall>u d2. create_user email username (Some (hashPassword cfg password)) None
             (sched 2 (sched 1 (sched 0 d))) = (Inr u, d2) \<longrightarrow>
           hashRefreshToken (ac_tokens cfg) fresh \<notin> rt_tokenHash ` set (refreshTokens (sched 3 d2))
           \<and> u_id u \<in> user_ids (sched 3 d2)"
  shows "status_of e = 409"
proof -
  let ?d1 = "sched 1 (sched 0 d)"
  obtain r d2 where made: "create_user email username (Some (hashPassword cfg password)) None (sched 2 ?d1) = (r, d2)"
    by fastforce
  consider "findByEmail email (sched 0 d) \<noteq> None"
    | "findByEmail email (sched 0 d) = None" "findByUsername username ?d1 \<noteq> None"
    | "findByEmail email (sched 0 d) = None" "findByUsername username ?d1 = None"
    by blast
  then show ?thesis
  proof cases
    case 1
    then show ?thesis using run by (auto simp: register_def Let_def email_exists_def status_of_def)
  next
    case 2
    then show ?thesis using run by (auto simp: register_def Let_def username_exists_def status_of_def)
  next
    case 3
    from made show ?thesis
    proof (cases rule: create_user_cases)
      case (ok u)
      then have "u_id u \<in> user_ids (sched 3 d2)"
          "hashRefreshToken (ac_tokens cfg) fresh \<notin> rt_tokenHash ` set (refreshTokens (sched 3 d2))"
        using calm made by blast+
      then obtain d3 where "issueTokens (ac_tokens cfg) now fresh (u_id u) (sched 3 d2) =
          (Inr \<lparr>accessToken = signJwt (ac_tokens cfg) (u_id u) now, refreshToken = fresh\<rparr>, d3)"
        using issueTokens_ok by meson
      then show ?thesis using run 3 made ok(3) by (simp add: register_def Let_def)
    qed (use run 3 made in \<open>auto simp: register_def Let_def status_of_def\<close>)
  qed
qed

definition demo_register_race :: sched where
  "demo_register_race k d =
     (if k = 2 then snd (create_user (js ''eve@x.io'') (js ''eve2'') None None d) else d)"

theorem register_conflicts_are_409_witness:
  "\<exists>e d'. register demo_auth 1 (js ''f1'') demo_register_race (js ''eve@x.io'') (js ''eve'') (js ''pw'') demo_db = (Inl e, d')
     \<and> status_of e = 409"
proof -
  let ?d = "demo_register_race 2 (demo_register_race 1 (demo_register_race 0 demo_db))"
  have taken: "create_user (js ''eve@x.io'') (js ''eve'') pw None ?d =
      (Inl (unique_violation [''email'']), bump MUser ?d)" for pw
    by (simp add: demo_register_race_def create_user_def Let_def demo_db_def demo_user_def empty_db_def)
  then have run: "register demo_auth 1 (js ''f1'') demo_register_race (js ''eve@x.io'') (js ''eve'') (js ''pw'') demo_db
      = (Inl (unique_violation [''email'']), bump MUser ?d)"
    by (simp add: register_def Let_def findByEmail_def findByUsername_def demo_register_race_def
        demo_db_def demo_user_def empty_db_def)
  show ?thesis
    using run register_conflicts_are_409 [OF run] taken by auto
qed

section \<open>Signing in with a provider\<close>

lemma createAccount_Inr:
  assumes "createAccount cfg now time suffix identity d = (Inr a, d')"
  shows "ac_id a = seqs d MUser" and "ac_email a = vi_email identity"
    and "vi_email identity \<notin> u_email ` set (users d)"
    and "find_link (vi_provider identity) (vi_providerAccountId identity) d = None"
    and "users d' = users d @ [\<lparr>u_id = seqs d MUser, u_email = vi_email identity,
           u_username = generateUsername (ac_unicode cfg) (vi_email identity) time suffix,
           u_password = None, u_image = None, u_bio = None\<rparr>]"
    and "\<exists>p. authProviders d' = authProviders d @ [p] \<and> ap_userId p = ac_id a
           \<and> ap_provider p = vi_provider identity \<and> ap_providerAccountId p = vi_providerAccountId identity"
  using assms
  by (auto simp: createAccount_def Let_def createPasswordless_def createLink_def create_user_def
      create_auth_provider_def ACCOUNT_SELECT_def find_link_None split: prod.splits sum.splits if_splits)

lemma createAccount_Inl:
  assumes "createAccount cfg now time suffix identity d = (Inl e, d')"
  shows "users d' = users d \<and> authProviders d' = authProviders d"
  using assms by (auto simp: createAccount_def Let_def split: prod.splits sum.splits)

text \<open>C7: Signing in with a provider never takes over an account: whatever other requests do in between,
  an account is handed out only if this provider account was linked to it when the request looked, or
  if it is a new one, created for it in one transaction with its link, under an address no user had;
  no existing user row changes.\<close>

theorem resolve_never_takes_over:
  assumes "resolve cfg env sched identity w = (Inr (Account a), w')"
    and ok: "db_ok (sched 2 (sched 1 (sched 0 (fst w))))"
  shows "(\<exists>p. find_link (vi_provider identity) (vi_providerAccountId identity) (sched 0 (fst w)) = Some p
            \<and> ap_userId p = ac_id a \<and> fst w' = sched 0 (fst w))
    \<or> (let d2 = sched 2 (sched 1 (sched 0 (fst w))) in
         ac_id a \<notin> user_ids d2 \<and> vi_email identity \<notin> u_email ` set (users d2)
         \<and> set (users d2) \<subseteq> set (users (fst w'))
         \<and> (\<exists>p \<in> set (authProviders (fst w')). ap_userId p = ac_id a
              \<and> ap_provider p = vi_provider identity \<and> ap_providerAccountId p = vi_providerAccountId identity))"
proof (cases "findAccountByProvider (vi_provider identity) (vi_providerAccountId identity) (sched 0 (fst w))")
  case (Some b)
  then have "a = b" "fst w' = sched 0 (fst w)" using assms(1) by (auto simp: resolve_def Let_def)
  then show ?thesis using findAccountByProvider_ac_id [OF Some] by auto
next
  case None
  let ?d2 = "sched 2 (sched 1 (sched 0 (fst w)))"
  obtain d' where c: "createAccount cfg (oe_now env) (oe_time env) (oe_suffix env) identity ?d2 = (Inr a, d')"
    and w': "fst w' = d'"
    using assms(1) None
    by (auto simp: resolve_def Let_def linkToExisting_def andThen_def
        split: option.splits prod.splits sum.splits if_splits)
  note new = createAccount_Inr [OF c]
  have "ac_id a \<notin> user_ids ?d2"
    using db_okD(1) [OF ok] new(1) by (auto simp: users_ok_def user_ids_def)
  moreover obtain p where "authProviders d' = authProviders ?d2 @ [p]" "ap_userId p = ac_id a"
      "ap_provider p = vi_provider identity" "ap_providerAccountId p = vi_providerAccountId identity"
    using new(6) by blast
  ultimately show ?thesis using new(3,5) w' by (auto simp: Let_def)
qed

definition demo_identity :: "string \<Rightarrow> bool \<Rightarrow> verified_identity" where
  "demo_identity em ver = \<lparr>vi_provider = js ''google'', vi_providerAccountId = js ''g9'',
     vi_email = js em, vi_emailVerified = ver, vi_displayName = None\<rparr>"

definition demo_oauth :: oauth_env where
  "demo_oauth = \<lparr>oe_queue = (\<lambda>_ _. None), oe_rawToken = js ''t9'', oe_now = 5, oe_time = 17, oe_suffix = js ''beef''\<rparr>"

theorem resolve_never_takes_over_witness:
  "\<exists>a w'. resolve demo_auth demo_oauth quiet (demo_identity ''new@x.io'' True) (demo_db, []) = (Inr (Account a), w')
     \<and> ac_id a \<notin> user_ids demo_db"
proof -
  have none: "find_link (js ''google'') (js ''g9'') demo_db = None"
      "findAccountByProvider (js ''google'') (js ''g9'') demo_db = None"
      "findIdByEmail (js ''new@x.io'') demo_db = None"
    by (simp_all add: findAccountByProvider_def find_link_def findIdByEmail_def demo_db_def demo_user_def empty_db_def)
  have un: "generateUsername ascii_unicode (js ''new@x.io'') 17 (js ''beef'') \<notin> u_username ` set (users demo_db)"
  proof -
    have "length (generateUsername ascii_unicode (js ''new@x.io'') 17 (js ''beef'')) \<ge> 8"
      by (simp add: generateUsername_form USERNAME_MAX_def show_nat.simps)
    then show ?thesis by (auto simp: demo_db_def demo_user_def)
  qed
  obtain r w' where run: "resolve demo_auth demo_oauth quiet (demo_identity ''new@x.io'' True) (demo_db, []) = (r, w')"
    by (metis surj_pair)
  have "\<exists>a. r = Inr (Account a)"
    using run none un
    by (auto simp: resolve_def Let_def demo_identity_def createAccount_def createPasswordless_def
        create_user_def demo_auth_def demo_oauth_def ACCOUNT_SELECT_def createLink_def
        create_auth_provider_def user_ids_def find_link_None split: if_splits)
      (auto simp: demo_db_def demo_user_def empty_db_def)
  then obtain a where r: "r = Inr (Account a)" by blast
  have "ac_id a \<notin> user_ids demo_db"
    using resolve_never_takes_over [OF run [unfolded r]] demo_db_ok none(1)
    by (simp add: demo_identity_def Let_def)
  then show ?thesis using run r by blast
qed

lemma issue_frame:
  assumes "issue quiet inp d = (r, d')"
  shows "users d' = users d \<and> authProviders d' = authProviders d \<and> refreshTokens d' = refreshTokens d"
  using assms
  by (auto simp: issue_def issueTx_def create_pending_link_def Let_def
      split: prod.splits sum.splits if_splits option.splits)

lemma requestLink_frame:
  assumes "requestLink cfg env now raw quiet req w = (r, w')"
  shows "users (fst w') = users (fst w) \<and> authProviders (fst w') = authProviders (fst w)
     \<and> refreshTokens (fst w') = refreshTokens (fst w)"
proof -
  obtain r1 d1 where i: "issue quiet (request_input cfg now raw req) (fst w) = (r1, d1)" by fastforce
  have "fst w' = d1 \<or> (\<exists>k h. fst w' = snd (deleteIfCurrent k h d1))"
    using assms i
    by (auto simp: requestLink_def Let_def split: prod.splits sum.splits issue_result.splits) blast
  then show ?thesis using issue_frame [OF i] by (auto simp: deleteIfCurrent_def Let_def)
qed

text \<open>When the provider's address belongs to a local account that is not linked, nobody is signed
  in: if the provider did not verify the address the answer is a 409 and nothing changes; otherwise
  the answer asks for confirmation, and neither a user, a link nor a session is created, whatever
  else runs.\<close>

theorem resolve_asks_before_linking:
  assumes "findAccountByProvider (vi_provider identity) (vi_providerAccountId identity) (fst w) = None"
    and "findIdByEmail (vi_email identity) (fst w) = Some uid"
    and "handleOAuthCallback cfg env fresh quiet identity w = (r, w')"
  shows "users (fst w') = users (fst w) \<and> authProviders (fst w') = authProviders (fst w)
     \<and> refreshTokens (fst w') = refreshTokens (fst w)
     \<and> (if vi_emailVerified identity then r = Inr OAuthConfirmationRequired \<or> \<not> is_ok r
        else r = Inl sign_in_first \<and> w' = w)"
proof -
  let ?req = "\<lparr>lr_userId = uid, lr_recipient = vi_email identity, lr_provider = vi_provider identity,
      lr_providerAccountId = vi_providerAccountId identity\<rparr>"
  obtain r1 w1 where q: "requestLink (ac_tokens cfg) (oe_queue env) (oe_now env) (oe_rawToken env) quiet ?req w = (r1, w1)"
    by (metis surj_pair)
  have res: "resolve cfg env quiet identity w =
      (if vi_emailVerified identity then (case r1 of Inl e \<Rightarrow> Inl e | Inr _ \<Rightarrow> Inr ConfirmationRequired, w1)
       else (Inl sign_in_first, w))"
    using assms(1,2) q
    by (cases r1) (simp_all add: resolve_def Let_def linkToExisting_def)
  show ?thesis
    using assms(3) res requestLink_frame [OF q]
    by (cases r1) (auto simp: handleOAuthCallback_def split: if_splits)
qed

theorem resolve_asks_before_linking_witness:
  "\<exists>w'. handleOAuthCallback demo_auth demo_oauth (js ''f1'') quiet (demo_identity ''ann@x.io'' False) (demo_db, [])
     = (Inl sign_in_first, w')"
proof -
  let ?w = "(demo_db, [] :: queued_job list)" and ?i = "demo_identity ''ann@x.io'' False"
  obtain r w' where run: "handleOAuthCallback demo_auth demo_oauth (js ''f1'') quiet ?i ?w = (r, w')"
    by (metis surj_pair)
  have "findAccountByProvider (vi_provider ?i) (vi_providerAccountId ?i) (fst ?w) = None"
      "findIdByEmail (vi_email ?i) (fst ?w) = Some 1"
    by (simp_all add: demo_identity_def findAccountByProvider_def find_link_def findIdByEmail_def
        demo_db_def demo_user_def empty_db_def)
  from resolve_asks_before_linking [OF this run] run show ?thesis
    by (simp add: demo_identity_def)
qed

end
