(* ===== verification/Favorites.thy ===== *)
theory Favorites
  imports Articles
begin

text \<open>
  Favouriting articles (\<open>src/favorites\<close>): the repository's nested writes and the service, which reads first,
  writes only when something changes, survives a concurrent write of the same edge and announces a new
  favourite on Kafka. Whether the database reports a duplicate edge as \<open>P2002\<close> or ignores it is the
  argument \<open>collides\<close>; the code is prepared for both.
\<close>

section \<open>FavoritesRepository\<close>

definition favorite_connect ::
    "(jstr \<Rightarrow> jstr) \<Rightarrow> bool \<Rightarrow> jstr \<Rightarrow> nat \<Rightarrow> (thrown, article_record, db) comp" where
  "favorite_connect coll collides slug viewer d = (case by_slug slug d of
     None \<Rightarrow> (Inl record_not_found, d)
   | Some a \<Rightarrow>
       if viewer \<notin> user_ids d then (Inl record_not_found, d)
       else if (a_id a, viewer) \<in> set (userFavorites d) then
         (if collides then (Inl (unique_violation [''A'', ''B'']), d)
          else select_after coll (Some viewer) (a_id a) d d)
       else select_after coll (Some viewer) (a_id a) d
              (d\<lparr>userFavorites := userFavorites d @ [(a_id a, viewer)]\<rparr>))"

definition favorite_disconnect ::
    "(jstr \<Rightarrow> jstr) \<Rightarrow> jstr \<Rightarrow> nat \<Rightarrow> (thrown, article_record, db) comp" where
  "favorite_disconnect coll slug viewer d = (case by_slug slug d of
     None \<Rightarrow> (Inl record_not_found, d)
   | Some a \<Rightarrow> select_after coll (Some viewer) (a_id a) d
        (d\<lparr>userFavorites := del_where (\<lambda>e. e = (a_id a, viewer)) (userFavorites d)\<rparr>))"

section \<open>FavoritesService\<close>

definition requireArticle :: "article_env \<Rightarrow> nat \<Rightarrow> jstr \<Rightarrow> db \<Rightarrow> thrown + article_record" where
  "requireArticle env uid slug d = (case findBySlug (ae_collation env) slug (Some uid) d of
     Inl e \<Rightarrow> Inl e
   | Inr None \<Rightarrow> Inl (NotFoundException (I18n ''common.error.articleNotFound''))
   | Inr (Some a) \<Rightarrow> Inr a)"

text \<open>After a \<open>P2002\<close> the article is read again, at step 2 of \<open>sched\<close>.\<close>

definition favorite_write ::
    "article_env \<Rightarrow> (nat \<Rightarrow> db \<Rightarrow> db) \<Rightarrow> nat \<Rightarrow> jstr \<Rightarrow> (thrown, article_record, db) comp \<Rightarrow>
     (thrown, article_record, db) comp" where
  "favorite_write env sched uid slug mutate d = (case mutate d of
     (Inr a, d') \<Rightarrow> (Inr a, d')
   | (Inl e, d') \<Rightarrow>
       if isUniqueConstraintViolation e
       then (let d2 = sched 2 d' in (requireArticle env uid slug d2, d2))
       else (Inl e, d'))"

definition favorite_event :: "nat \<Rightarrow> int \<Rightarrow> article_record \<Rightarrow> (nat \<times> user_row) option \<Rightarrow> article_favorited" where
  "favorite_event uid now a actor = \<lparr>fe_articleId = ar_id a, fe_slug = ar_slug a, fe_title = ar_title a,
     fe_authorId = ar_authorId a, fe_favoritedByUserId = uid,
     fe_favoritedByUsername = (case actor of Some (_, row) \<Rightarrow> ur_username row | None \<Rightarrow> js ''user-'' @ show_nat uid),
     fe_occurredAt = now\<rparr>"

text \<open>The actor is read beside the write, at the moment the write begins.\<close>

definition favorite ::
    "article_env \<Rightarrow> int \<Rightarrow> (nat \<Rightarrow> db \<Rightarrow> db) \<Rightarrow> bool \<Rightarrow> nat \<Rightarrow> jstr \<Rightarrow> (thrown, article_response, app) comp" where
  "favorite env now sched collides uid slug s =
     (let d0 = sched 0 (app_db s)
      in case requireArticle env uid slug d0 of
           Inl e \<Rightarrow> (Inl e, s\<lparr>app_db := d0\<rparr>)
         | Inr a \<Rightarrow>
             if 0 < length (ar_favoritedBy a) then (Inr (toResponse (ae_s3 env) a), s\<lparr>app_db := d0\<rparr>)
             else
               (let d1 = sched 1 d0
                in case favorite_write env sched uid slug
                       (favorite_connect (ae_collation env) collides slug uid) d1 of
                     (Inl e, d') \<Rightarrow> (Inl e, s\<lparr>app_db := d'\<rparr>)
                   | (Inr updated, d') \<Rightarrow>
                       (Inr (toResponse (ae_s3 env) updated),
                        \<lparr>app_db = d', app_bus = emitArticleFavorited (ae_kafka env)
                           (favorite_event uid now updated (findById uid d1)) (app_bus s)\<rparr>)))"

definition unfavorite ::
    "article_env \<Rightarrow> (nat \<Rightarrow> db \<Rightarrow> db) \<Rightarrow> nat \<Rightarrow> jstr \<Rightarrow> (thrown, article_response, app) comp" where
  "unfavorite env sched uid slug s =
     (let d0 = sched 0 (app_db s)
      in case requireArticle env uid slug d0 of
           Inl e \<Rightarrow> (Inl e, s\<lparr>app_db := d0\<rparr>)
         | Inr a \<Rightarrow>
             if length (ar_favoritedBy a) = 0 then (Inr (toResponse (ae_s3 env) a), s\<lparr>app_db := d0\<rparr>)
             else
               (case favorite_write env sched uid slug
                       (favorite_disconnect (ae_collation env) slug uid) (sched 1 d0) of
                     (Inl e, d') \<Rightarrow> (Inl e, s\<lparr>app_db := d'\<rparr>)
                   | (Inr updated, d') \<Rightarrow> (Inr (toResponse (ae_s3 env) updated), s\<lparr>app_db := d'\<rparr>)))"

section \<open>Lemmas\<close>

definition has_favorited :: "nat \<Rightarrow> jstr \<Rightarrow> db \<Rightarrow> bool" where
  "has_favorited uid slug d \<longleftrightarrow>
     (case by_slug slug d of None \<Rightarrow> False | Some a \<Rightarrow> (a_id a, uid) \<in> set (userFavorites d))"

definition can_favorite :: "nat \<Rightarrow> jstr \<Rightarrow> db \<Rightarrow> bool" where
  "can_favorite uid slug d \<longleftrightarrow> uid \<in> user_ids d \<and> by_slug slug d \<noteq> None"

lemma favoriters_mem: "uid \<in> set (favoriters i d) \<longleftrightarrow> (i, uid) \<in> set (userFavorites d)"
  by (force simp: favoriters_def)

lemma requireArticle_ok:
  assumes ok: "db_ok d" and a: "by_slug slug d = Some a"
  obtains r where "requireArticle env uid slug d = Inr r"
    "buildArticleSelect (ae_collation env) (Some uid) d a = Inr r"
    "0 < length (ar_favoritedBy r) \<longleftrightarrow> has_favorited uid slug d"
proof -
  have am: "a \<in> set (articles d)" using by_slug_iff [OF ok] a by blast
  obtain r where r: "buildArticleSelect (ae_collation env) (Some uid) d a = Inr r"
    by (rule select_ok [OF ok am])
  then have req: "requireArticle env uid slug d = Inr r"
    using a by (simp add: requireArticle_def findBySlug_def)
  have "0 < length (ar_favoritedBy r) \<longleftrightarrow> has_favorited uid slug d"
    unfolding select_fields(8) [OF r] has_favorited_def a
    by (auto simp: viewer_only_def filter_empty_conv favoriters_mem)
  then show ?thesis using that req r by blast
qed

lemma db_ok_edges:
  assumes ok: "db_ok d" and "set es \<subseteq> article_ids d \<times> user_ids d" and "distinct es"
  shows "db_ok (d\<lparr>userFavorites := es\<rparr>)"
proof (rule db_ok_put(5) [OF ok])
  show "edges_ok (d\<lparr>userFavorites := es\<rparr>)"
    using db_okD(8) [OF ok] assms(2,3) by (simp add: edges_ok_def article_ids_def user_ids_def)
qed

lemma favorites_sub: "db_ok d \<Longrightarrow> set (userFavorites d) \<subseteq> article_ids d \<times> user_ids d \<and> distinct (userFavorites d)"
  using db_okD(8) by (simp add: edges_ok_def)

lemma by_slug_frame [simp]: "by_slug s (d\<lparr>userFavorites := es\<rparr>) = by_slug s d"
  by (simp add: by_slug_def)

text \<open>Connecting where nothing collides, and disconnecting: the new edges, and a record that shows them.\<close>

lemma favorite_connect_ok:
  assumes ok: "db_ok d" and a: "by_slug slug d = Some a" and u: "uid \<in> user_ids d"
    and nc: "\<not> (collides \<and> has_favorited uid slug d)"
  obtains r es where "favorite_connect coll collides slug uid d = (Inr r, d\<lparr>userFavorites := es\<rparr>)"
    "set es = insert (a_id a, uid) (set (userFavorites d))" "db_ok (d\<lparr>userFavorites := es\<rparr>)"
    "buildArticleSelect coll (Some uid) (d\<lparr>userFavorites := es\<rparr>) a = Inr r"
proof -
  have am: "a \<in> set (articles d)" using by_slug_iff [OF ok] a by blast
  then have "a_id a \<in> article_ids d" by (simp add: article_ids_def)
  define es where "es = (if (a_id a, uid) \<in> set (userFavorites d) then userFavorites d
      else userFavorites d @ [(a_id a, uid)])"
  have "set es \<subseteq> article_ids d \<times> user_ids d" "distinct es"
    using \<open>a_id a \<in> article_ids d\<close> u favorites_sub [OF ok] by (auto simp: es_def)
  then have "db_ok (d\<lparr>userFavorites := es\<rparr>)" by (rule db_ok_edges [OF ok])
  moreover have "set es = insert (a_id a, uid) (set (userFavorites d))" by (auto simp: es_def)
  ultimately have es: "set es = insert (a_id a, uid) (set (userFavorites d))" "db_ok (d\<lparr>userFavorites := es\<rparr>)"
    by blast+
  have am': "a \<in> set (articles (d\<lparr>userFavorites := es\<rparr>))" using am by simp
  obtain r where r: "select_after coll (Some uid) (a_id a) d (d\<lparr>userFavorites := es\<rparr>) = (Inr r, d\<lparr>userFavorites := es\<rparr>)"
      "buildArticleSelect coll (Some uid) (d\<lparr>userFavorites := es\<rparr>) a = Inr r"
    by (rule select_after_ok [OF es(2) am' refl, of coll "Some uid" d])
  have "favorite_connect coll collides slug uid d = (Inr r, d\<lparr>userFavorites := es\<rparr>)"
    using a u nc r(1) by (auto simp: favorite_connect_def has_favorited_def es_def split: if_split_asm)
  then show ?thesis using that es r by blast
qed

lemma favorite_disconnect_ok:
  assumes ok: "db_ok d" and a: "by_slug slug d = Some a"
  obtains r es where "favorite_disconnect coll slug uid d = (Inr r, d\<lparr>userFavorites := es\<rparr>)"
    "set es = set (userFavorites d) - {(a_id a, uid)}" "db_ok (d\<lparr>userFavorites := es\<rparr>)"
    "buildArticleSelect coll (Some uid) (d\<lparr>userFavorites := es\<rparr>) a = Inr r"
proof -
  let ?es = "del_where (\<lambda>e. e = (a_id a, uid)) (userFavorites d)"
  have am: "a \<in> set (articles d)" using by_slug_iff [OF ok] a by blast
  have "db_ok (d\<lparr>userFavorites := ?es\<rparr>)"
    by (rule db_ok_edges [OF ok]) (use favorites_sub [OF ok] in \<open>auto simp: del_where_def\<close>)
  moreover from this obtain r where
      "select_after coll (Some uid) (a_id a) d (d\<lparr>userFavorites := ?es\<rparr>) = (Inr r, d\<lparr>userFavorites := ?es\<rparr>)"
      "buildArticleSelect coll (Some uid) (d\<lparr>userFavorites := ?es\<rparr>) a = Inr r"
    by (rule select_after_ok [of "d\<lparr>userFavorites := ?es\<rparr>" a "a_id a" coll "Some uid" d]) (use am in simp_all)
  ultimately show ?thesis using that [of r ?es] a by (auto simp: favorite_disconnect_def)
qed

lemma has_favorited_edges:
  "by_slug slug d = Some a \<Longrightarrow> has_favorited v slug (d\<lparr>userFavorites := es\<rparr>) \<longleftrightarrow> (a_id a, v) \<in> set es"
  by (simp add: has_favorited_def)

lemma response_favorited:
  "buildArticleSelect coll (Some uid) d a = Inr r \<Longrightarrow> by_slug slug d = Some a \<Longrightarrow>
   rs_favorited (toResponse s3 r) \<longleftrightarrow> has_favorited uid slug d"
  using select_fields(8) [of coll "Some uid" d a r]
  by (auto simp: toResponse_def has_favorited_def viewer_only_def filter_empty_conv favoriters_mem)

lemma favorite_quiet:
  assumes ok: "db_ok (app_db s)" and a: "by_slug slug (app_db s) = Some a" and u: "uid \<in> user_ids (app_db s)"
  obtains r es where "fst (favorite env now (\<lambda>_ d. d) collides uid slug s) = Inr (toResponse (ae_s3 env) r)"
    "app_db (snd (favorite env now (\<lambda>_ d. d) collides uid slug s)) = (app_db s)\<lparr>userFavorites := es\<rparr>"
    "set es = insert (a_id a, uid) (set (userFavorites (app_db s)))" "db_ok ((app_db s)\<lparr>userFavorites := es\<rparr>)"
    "buildArticleSelect (ae_collation env) (Some uid) ((app_db s)\<lparr>userFavorites := es\<rparr>) a = Inr r"
proof -
  obtain r where r: "requireArticle env uid slug (app_db s) = Inr r"
      "buildArticleSelect (ae_collation env) (Some uid) (app_db s) a = Inr r"
      "0 < length (ar_favoritedBy r) \<longleftrightarrow> has_favorited uid slug (app_db s)"
    by (rule requireArticle_ok [OF ok a])
  show ?thesis
  proof (cases "has_favorited uid slug (app_db s)")
    case True
    then have "(a_id a, uid) \<in> set (userFavorites (app_db s))" using a by (simp add: has_favorited_def)
    then show ?thesis
      using that [of r "userFavorites (app_db s)"] r True ok by (simp add: favorite_def Let_def insert_absorb)
  next
    case False
    then obtain r2 es where w: "favorite_connect (ae_collation env) collides slug uid (app_db s)
          = (Inr r2, (app_db s)\<lparr>userFavorites := es\<rparr>)"
        "set es = insert (a_id a, uid) (set (userFavorites (app_db s)))" "db_ok ((app_db s)\<lparr>userFavorites := es\<rparr>)"
        "buildArticleSelect (ae_collation env) (Some uid) ((app_db s)\<lparr>userFavorites := es\<rparr>) a = Inr r2"
      using favorite_connect_ok [OF ok a u] by blast
    have "\<not> 0 < length (ar_favoritedBy r)" using r(3) False by simp
    then have "favorite env now (\<lambda>_ d. d) collides uid slug s = (Inr (toResponse (ae_s3 env) r2),
        \<lparr>app_db = (app_db s)\<lparr>userFavorites := es\<rparr>, app_bus = emitArticleFavorited (ae_kafka env)
           (favorite_event uid now r2 (findById uid (app_db s))) (app_bus s)\<rparr>)"
      by (simp only: favorite_def favorite_write_def Let_def r(1) w(1) sum.case prod.case if_False)
    then show ?thesis by (intro that [of r2 es]) (use w in simp_all)
  qed
qed

lemma unfavorite_quiet:
  assumes ok: "db_ok (app_db s)" and a: "by_slug slug (app_db s) = Some a"
  obtains r es where "fst (unfavorite env (\<lambda>_ d. d) uid slug s) = Inr (toResponse (ae_s3 env) r)"
    "app_db (snd (unfavorite env (\<lambda>_ d. d) uid slug s)) = (app_db s)\<lparr>userFavorites := es\<rparr>"
    "set es = set (userFavorites (app_db s)) - {(a_id a, uid)}" "db_ok ((app_db s)\<lparr>userFavorites := es\<rparr>)"
    "buildArticleSelect (ae_collation env) (Some uid) ((app_db s)\<lparr>userFavorites := es\<rparr>) a = Inr r"
proof -
  obtain r where r: "requireArticle env uid slug (app_db s) = Inr r"
      "buildArticleSelect (ae_collation env) (Some uid) (app_db s) a = Inr r"
      "0 < length (ar_favoritedBy r) \<longleftrightarrow> has_favorited uid slug (app_db s)"
    by (rule requireArticle_ok [OF ok a])
  show ?thesis
  proof (cases "has_favorited uid slug (app_db s)")
    case False
    then have "(a_id a, uid) \<notin> set (userFavorites (app_db s))" using a by (simp add: has_favorited_def)
    then show ?thesis
      using that [of r "userFavorites (app_db s)"] r False ok by (simp add: unfavorite_def Let_def)
  next
    case True
    obtain r2 es where w: "favorite_disconnect (ae_collation env) slug uid (app_db s)
          = (Inr r2, (app_db s)\<lparr>userFavorites := es\<rparr>)"
        "set es = set (userFavorites (app_db s)) - {(a_id a, uid)}" "db_ok ((app_db s)\<lparr>userFavorites := es\<rparr>)"
        "buildArticleSelect (ae_collation env) (Some uid) ((app_db s)\<lparr>userFavorites := es\<rparr>) a = Inr r2"
      by (rule favorite_disconnect_ok [OF ok a])
    have "\<not> length (ar_favoritedBy r) = 0" using r(3) True by simp
    then have "unfavorite env (\<lambda>_ d. d) uid slug s = (Inr (toResponse (ae_s3 env) r2),
        s\<lparr>app_db := (app_db s)\<lparr>userFavorites := es\<rparr>\<rparr>)"
      by (simp only: unfavorite_def favorite_write_def Let_def r(1) w(1) sum.case prod.case if_False)
    then show ?thesis by (intro that [of r2 es]) (use w in simp_all)
  qed
qed

lemma by_slug_inj: "db_ok d \<Longrightarrow> by_slug s d = Some a \<Longrightarrow> by_slug t d = Some b \<Longrightarrow> a_id a = a_id b \<Longrightarrow> s = t"
  using by_slug_iff ids_differ by metis

interpretation favorites: switch
  "\<lambda>k s. snd (favorite env now (\<lambda>_ d. d) collides (fst k) (snd k) s)"
  "\<lambda>k s. snd (unfavorite env (\<lambda>_ d. d) (fst k) (snd k) s)"
  "\<lambda>k s. has_favorited (fst k) (snd k) (app_db s)"
  "\<lambda>s. db_ok (app_db s)"
  "\<lambda>k s. can_favorite (fst k) (snd k) (app_db s)"
  for env now collides
proof (unfold_locales, goal_cases)
  case (1 s k j)
  obtain a b where "by_slug (snd k) (app_db s) = Some a" "by_slug (snd j) (app_db s) = Some b"
    using 1 by (auto simp: can_favorite_def)
  moreover obtain r es where "app_db (snd (favorite env now (\<lambda>_ d. d) collides (fst k) (snd k) s)) = (app_db s)\<lparr>userFavorites := es\<rparr>"
      "set es = insert (a_id a, fst k) (set (userFavorites (app_db s)))"
    using favorite_quiet [OF 1(1) calculation(1)] 1(2) unfolding can_favorite_def by metis
  ultimately show ?case
    using by_slug_inj [OF 1(1)] by (auto simp: has_favorited_def prod_eq_iff)
next
  case (2 s k j)
  obtain a b where "by_slug (snd k) (app_db s) = Some a" "by_slug (snd j) (app_db s) = Some b"
    using 2 by (auto simp: can_favorite_def)
  moreover obtain r es where "app_db (snd (unfavorite env (\<lambda>_ d. d) (fst k) (snd k) s)) = (app_db s)\<lparr>userFavorites := es\<rparr>"
      "set es = set (userFavorites (app_db s)) - {(a_id a, fst k)}"
    using unfavorite_quiet [OF 2(1) calculation(1)] by metis
  ultimately show ?case
    using by_slug_inj [OF 2(1)] by (auto simp: has_favorited_def prod_eq_iff)
next
  case (3 s k)
  then show ?case using favorite_quiet [OF 3(1)] unfolding can_favorite_def by (metis not_None_eq)
next
  case (4 s k)
  then show ?case using unfavorite_quiet [OF 4(1)] unfolding can_favorite_def by (metis not_None_eq)
next
  case (5 s k j)
  obtain a where "by_slug (snd k) (app_db s) = Some a" using 5 by (auto simp: can_favorite_def)
  then obtain es where "app_db (snd (favorite env now (\<lambda>_ d. d) collides (fst k) (snd k) s)) = (app_db s)\<lparr>userFavorites := es\<rparr>"
    using favorite_quiet [OF 5(1)] 5(2) unfolding can_favorite_def by metis
  then show ?case using 5(3) by (simp add: can_favorite_def user_ids_def)
next
  case (6 s k j)
  obtain a where "by_slug (snd k) (app_db s) = Some a" using 6 by (auto simp: can_favorite_def)
  then obtain es where "app_db (snd (unfavorite env (\<lambda>_ d. d) (fst k) (snd k) s)) = (app_db s)\<lparr>userFavorites := es\<rparr>"
    using unfavorite_quiet [OF 6(1)] by metis
  then show ?case using 6(3) by (simp add: can_favorite_def user_ids_def)
qed

section \<open>Properties\<close>

text \<open>C10: Favouriting and unfavouriting are idempotent and independent: after any sequence of such requests by any
  users about any existing articles, a user has an article among the favourites exactly when the last request
  of that user about that article was to favourite it, or there was none and it was there before.\<close>

theorem favorites_follow_the_last_request:
  assumes "db_ok (app_db s)" and "can_favorite uid slug (app_db s)"
    and "\<forall>r \<in> set rs. can_favorite (fst (req_key r)) (snd (req_key r)) (app_db s)"
  shows "let s' = run_requests (\<lambda>k s. snd (favorite env now (\<lambda>_ d. d) collides (fst k) (snd k) s))
                     (\<lambda>k s. snd (unfavorite env (\<lambda>_ d. d) (fst k) (snd k) s)) rs s
         in db_ok (app_db s') \<and>
            has_favorited uid slug (app_db s') =
              (case last_request (uid, slug) rs of None \<Rightarrow> has_favorited uid slug (app_db s) | Some b \<Rightarrow> b)"
  using favorites.last_request_decides [of s rs "(uid, slug)" env now collides] assms
  unfolding Let_def fst_conv snd_conv by blast

definition demo_app :: app where
  "demo_app = \<lparr>app_db = demo_article_db, app_bus = \<lparr>broker = [], producerLog = []\<rparr>\<rparr>"

lemma demo_can_favorite: "can_favorite 1 (js ''hi'') (app_db demo_app)" "can_favorite 2 (js ''hi'') (app_db demo_app)"
  by (simp_all add: can_favorite_def demo_app_def demo_article_db_def demo_db_def demo_user_def user_ids_def
      by_slug_def demo_article_def)

theorem favorites_follow_the_last_request_witness:
  "has_favorited 2 (js ''hi'') (app_db (run_requests
      (\<lambda>k s. snd (favorite demo_article_env 5 (\<lambda>_ d. d) True (fst k) (snd k) s))
      (\<lambda>k s. snd (unfavorite demo_article_env (\<lambda>_ d. d) (fst k) (snd k) s))
      [On (2, js ''hi''), Off (1, js ''hi''), Off (2, js ''hi''), On (2, js ''hi''), On (2, js ''hi'')] demo_app))"
  using favorites_follow_the_last_request [of demo_app 2 "js ''hi''"
      "[On (2, js ''hi''), Off (1, js ''hi''), Off (2, js ''hi''), On (2, js ''hi''), On (2, js ''hi'')]"
      demo_article_env 5 True]
    demo_can_favorite demo_article_db_ok by (simp add: Let_def demo_app_def)

text \<open>A favourite request that loses the race against an identical one still succeeds: whatever the others do,
  as long as the article and the user stay and nobody takes this favourite back, the response shows the article
  as favourited and the edge is there, whether or not the database reports the duplicate.\<close>

theorem favorite_survives_the_race:
  fixes slug uid a
  defines "P \<equiv> \<lambda>d. db_ok d \<and> by_slug slug d = Some a \<and> uid \<in> user_ids d"
  assumes start: "P (app_db s)"
    and sched: "\<And>i d. P d \<Longrightarrow> P (sched i d)"
    and stays: "\<And>i d. P d \<Longrightarrow> has_favorited uid slug d \<Longrightarrow> has_favorited uid slug (sched i d)"
  shows "\<exists>resp s'. favorite env now sched collides uid slug s = (Inr resp, s')
     \<and> rs_favorited resp \<and> has_favorited uid slug (app_db s') \<and> db_ok (app_db s')"
proof -
  let ?d0 = "sched 0 (app_db s)"
  let ?d1 = "sched 1 ?d0"
  have p0: "P ?d0" and p1: "P ?d1" and p2: "P (sched 2 ?d1)" using start sched by blast+
  obtain r where r: "requireArticle env uid slug ?d0 = Inr r"
      "buildArticleSelect (ae_collation env) (Some uid) ?d0 a = Inr r"
      "0 < length (ar_favoritedBy r) \<longleftrightarrow> has_favorited uid slug ?d0"
    using p0 unfolding P_def by (metis requireArticle_ok)
  consider (already) "has_favorited uid slug ?d0"
    | (collision) "\<not> has_favorited uid slug ?d0" "collides" "has_favorited uid slug ?d1"
    | (written) "\<not> has_favorited uid slug ?d0" "\<not> (collides \<and> has_favorited uid slug ?d1)"
    by blast
  then show ?thesis
  proof cases
    case already
    then have "favorite env now sched collides uid slug s = (Inr (toResponse (ae_s3 env) r), s\<lparr>app_db := ?d0\<rparr>)"
      using r(1,3) by (simp add: favorite_def Let_def)
    moreover have "rs_favorited (toResponse (ae_s3 env) r)"
      using already p0 response_favorited [OF r(2)] unfolding P_def by blast
    ultimately show ?thesis using already p0 unfolding P_def by simp
  next
    case collision
    then have c: "favorite_connect (ae_collation env) collides slug uid ?d1 = (Inl (unique_violation [''A'', ''B'']), ?d1)"
      using p1 unfolding P_def by (simp add: favorite_connect_def has_favorited_def)
    obtain r2 where r2: "requireArticle env uid slug (sched 2 ?d1) = Inr r2"
        "buildArticleSelect (ae_collation env) (Some uid) (sched 2 ?d1) a = Inr r2"
      using p2 unfolding P_def by (metis requireArticle_ok)
    have "has_favorited uid slug (sched 2 ?d1)" using stays p1 collision(3) by blast
    moreover have "\<not> 0 < length (ar_favoritedBy r)" using r(3) collision(1) by simp
    then have "\<exists>bus. favorite env now sched collides uid slug s =
        (Inr (toResponse (ae_s3 env) r2), \<lparr>app_db = sched 2 ?d1, app_bus = bus\<rparr>)"
      using r(1) c r2(1) by (simp add: favorite_def favorite_write_def isUniqueConstraintViolation_def Let_def)
    moreover have "rs_favorited (toResponse (ae_s3 env) r2)"
      using calculation(1) p2 response_favorited [OF r2(2)] unfolding P_def by blast
    ultimately show ?thesis using p2 unfolding P_def by auto
  next
    case written
    obtain r2 es where w: "favorite_connect (ae_collation env) collides slug uid ?d1 = (Inr r2, ?d1\<lparr>userFavorites := es\<rparr>)"
        "set es = insert (a_id a, uid) (set (userFavorites ?d1))" "db_ok (?d1\<lparr>userFavorites := es\<rparr>)"
        "buildArticleSelect (ae_collation env) (Some uid) (?d1\<lparr>userFavorites := es\<rparr>) a = Inr r2"
      using p1 written(2) unfolding P_def by (metis favorite_connect_ok)
    have h: "has_favorited uid slug (?d1\<lparr>userFavorites := es\<rparr>)"
      using p1 w(2) unfolding P_def by (simp add: has_favorited_def)
    have "\<not> 0 < length (ar_favoritedBy r)" using r(3) written(1) by simp
    then have "\<exists>bus. favorite env now sched collides uid slug s =
        (Inr (toResponse (ae_s3 env) r2), \<lparr>app_db = ?d1\<lparr>userFavorites := es\<rparr>, app_bus = bus\<rparr>)"
      using r(1) w(1) by (simp add: favorite_def favorite_write_def Let_def)
    moreover have "rs_favorited (toResponse (ae_s3 env) r2)"
      using response_favorited [OF w(4)] h p1 unfolding P_def by_slug_frame by blast
    ultimately show ?thesis using w(3) h by auto
  qed
qed

text \<open>The same favourite arriving twice at once, the second write meeting the edge of the first.\<close>

definition twin :: "nat \<Rightarrow> db \<Rightarrow> db" where
  "twin i d = (if i = 1 then snd (favorite_connect (\<lambda>t. t) False (js ''hi'') 2 d) else d)"

lemma twin_keeps:
  assumes "db_ok d \<and> by_slug (js ''hi'') d = Some demo_article \<and> 2 \<in> user_ids d"
  shows "db_ok (twin i d) \<and> by_slug (js ''hi'') (twin i d) = Some demo_article \<and> 2 \<in> user_ids (twin i d)"
    and "has_favorited 2 (js ''hi'') d \<Longrightarrow> has_favorited 2 (js ''hi'') (twin i d)"
proof -
  obtain r es where w: "favorite_connect (\<lambda>t. t) False (js ''hi'') 2 d = (Inr r, d\<lparr>userFavorites := es\<rparr>)"
      "set es = insert (a_id demo_article, 2) (set (userFavorites d))" "db_ok (d\<lparr>userFavorites := es\<rparr>)"
    by (rule favorite_connect_ok [of d "js ''hi''" demo_article 2 False "\<lambda>t. t"]) (use assms in auto)
  then have t: "twin i d = (if i = 1 then d\<lparr>userFavorites := es\<rparr> else d)" by (simp add: twin_def)
  show "db_ok (twin i d) \<and> by_slug (js ''hi'') (twin i d) = Some demo_article \<and> 2 \<in> user_ids (twin i d)"
    using assms w(3) by (simp add: t user_ids_def)
  show "has_favorited 2 (js ''hi'') d \<Longrightarrow> has_favorited 2 (js ''hi'') (twin i d)"
    using assms w(2) by (simp add: t has_favorited_def)
qed

theorem favorite_survives_the_race_witness:
  "\<exists>resp s'. favorite demo_article_env 5 twin True 2 (js ''hi'') demo_app = (Inr resp, s') \<and> rs_favorited resp"
proof -
  have "db_ok (app_db demo_app) \<and> by_slug (js ''hi'') (app_db demo_app) = Some demo_article \<and> 2 \<in> user_ids (app_db demo_app)"
    using demo_article_db_ok demo_can_favorite(2)
    by (simp add: demo_app_def demo_article_db_def demo_article_def by_slug_def can_favorite_def)
  from favorite_survives_the_race [where sched = twin and env = demo_article_env and now = 5 and collides = True, OF this twin_keeps(1) twin_keeps(2)]
  show ?thesis by blast
qed

end
