(* ===== verification/Notifications.thy ===== *)
theory Notifications
  imports Favorites Email
begin

text \<open>
  The consumer of the article events (\<open>src/kafka/consumers/article-notification.consumer.ts\<close>): it turns an
  event into notification e-mail jobs, one for the author of a favourited article, one for each follower of
  the author of a new one.
\<close>

definition favorited_job :: "article_favorited \<Rightarrow> nat \<times> user_row \<Rightarrow> notification_job" where
  "favorited_job ev author =
     \<lparr>nj_to = ur_email (snd author), nj_recipientUsername = ur_username (snd author),
      nj_subject = fe_favoritedByUsername ev @ js '' favorited your article'',
      nj_body = js ''Hello '' @ ur_username (snd author) @ js '', '' @ fe_favoritedByUsername ev
        @ js '' just favorited your article '' @ [34] @ fe_title ev @ [34] @ js ''.'',
      nj_eventType = EVENT_ARTICLE_FAVORITED, nj_articleId = fe_articleId ev, nj_recipientId = fst author\<rparr>"

definition handleArticleFavorited ::
    "queue_env \<Rightarrow> article_favorited \<Rightarrow> db \<Rightarrow> (thrown, unit, queued_job list) comp" where
  "handleArticleFavorited env ev d q =
     (if fe_favoritedByUserId ev = fe_authorId ev then (Inr (), q)
      else case findById (fe_authorId ev) d of
             None \<Rightarrow> (Inr (), q)
           | Some author \<Rightarrow> enqueueArticleNotification env (favorited_job ev author) q)"

definition created_job :: "article_created \<Rightarrow> nat \<times> jstr \<times> jstr \<Rightarrow> notification_job" where
  "created_job ev follower = (case follower of (i, em, un) \<Rightarrow>
     \<lparr>nj_to = em, nj_recipientUsername = un,
      nj_subject = ce_authorUsername ev @ js '' published a new article'',
      nj_body = js ''Hello '' @ un @ js '', author '' @ ce_authorUsername ev
        @ js '' just published a new article: '' @ [34] @ ce_title ev @ [34] @ js ''.'',
      nj_eventType = EVENT_ARTICLE_CREATED, nj_articleId = ce_articleId ev, nj_recipientId = i\<rparr>)"

text \<open>
  \<open>Promise.all\<close>: every job is added, also when an earlier one is refused; the handler fails with the first
  refusal.
\<close>

fun enqueue_all :: "queue_env \<Rightarrow> notification_job list \<Rightarrow> (thrown, unit, queued_job list) comp" where
  "enqueue_all env [] q = (Inr (), q)"
| "enqueue_all env (j # jl) q = (case enqueueArticleNotification env j q of
     (r, q1) \<Rightarrow> (case enqueue_all env jl q1 of (r2, q2) \<Rightarrow> (case r of Inl e \<Rightarrow> Inl e | Inr _ \<Rightarrow> r2, q2)))"

definition handleArticleCreated ::
    "queue_env \<Rightarrow> article_created \<Rightarrow> db \<Rightarrow> (thrown, unit, queued_job list) comp" where
  "handleArticleCreated env ev d q =
     (let fs = findFollowersByAuthorId (ce_authorId ev) d
      in if length fs = 0 then (Inr (), q) else enqueue_all env (map (created_job ev) fs) q)"

definition consume :: "queue_env \<Rightarrow> kafka_message \<Rightarrow> db \<Rightarrow> (thrown, unit, queued_job list) comp" where
  "consume env m d q = (case km_value m of
     ArticleFavorited ev \<Rightarrow> handleArticleFavorited env ev d q
   | ArticleCreated ev \<Rightarrow> handleArticleCreated env ev d q)"

section \<open>Lemmas\<close>

definition notification_queued :: "notification_job \<Rightarrow> queued_job" where
  "notification_queued j = email_job ARTICLE_NOTIFICATION_JOB (NotificationJob j) (notificationJobId j)"

definition accepts_all :: "queue_env \<Rightarrow> bool" where
  "accepts_all env \<longleftrightarrow> (\<forall>q j. env q j = None)"

lemma enqueue_all_accepted:
  "accepts_all env \<Longrightarrow> enqueue_all env jl q = (Inr (), q @ map notification_queued jl)"
  by (induction jl arbitrary: q)
    (simp_all add: accepts_all_def enqueueArticleNotification_def queue_add_def notification_queued_def)

lemma handleArticleCreated_accepted:
  "accepts_all env \<Longrightarrow> handleArticleCreated env ev d q =
     (Inr (), q @ map (\<lambda>f. notification_queued (created_job ev f)) (findFollowersByAuthorId (ce_authorId ev) d))"
  by (simp add: handleArticleCreated_def Let_def enqueue_all_accepted o_def)

lemma findFollowers_mem:
  "(i, em, un) \<in> set (findFollowersByAuthorId author d) \<longleftrightarrow>
     (\<exists>u \<in> set (users d). u_id u = i \<and> u_email u = em \<and> u_username u = un \<and> (i, author) \<in> set (userFollows d))"
  by (auto simp: findFollowersByAuthorId_def)

lemma created_ids_distinct:
  assumes "db_ok d"
  shows "distinct (map (\<lambda>f. q_jobId (notification_queued (created_job ev f))) (findFollowersByAuthorId author d))"
proof -
  have key: "q_jobId (notification_queued (created_job ev f)) = q_jobId (notification_queued (created_job ev g))
      \<longleftrightarrow> fst f = fst g" for f g
    using job_ids_identify_jobs [THEN conjunct1, of "created_job ev f" "created_job ev g"]
    by (cases f; cases g) (simp add: notification_queued_def email_job_def created_job_def)
  have "map fst (findFollowersByAuthorId author d) = map u_id (filter (\<lambda>u. (u_id u, author) \<in> set (userFollows d)) (users d))"
    by (simp add: findFollowersByAuthorId_def o_def)
  moreover have "distinct (map u_id (users d))" using db_okD(1) [OF assms] by (simp add: users_ok_def uniq_def)
  ultimately have "distinct (map fst (findFollowersByAuthorId author d))" by (simp add: distinct_map_filter)
  then show ?thesis
    unfolding distinct_map using key by (auto simp: inj_on_def)
qed

section \<open>Properties\<close>



text \<open>A favourite is announced to the author of the article, once, and to nobody when the author favourited it
  or no longer exists.\<close>

theorem favorite_notifies_the_author:
  assumes "accepts_all qenv"
  shows "\<exists>jobs. handleArticleFavorited qenv ev d q = (Inr (), q @ map notification_queued jobs)
     \<and> map (\<lambda>j. (nj_recipientId j, nj_to j)) jobs =
        (if fe_favoritedByUserId ev = fe_authorId ev then []
         else case find_user (fe_authorId ev) d of None \<Rightarrow> [] | Some u \<Rightarrow> [(fe_authorId ev, u_email u)])"
proof (cases "fe_favoritedByUserId ev = fe_authorId ev \<or> find_user (fe_authorId ev) d = None")
  case True
  then show ?thesis by (auto simp: handleArticleFavorited_def findById_def)
next
  case False
  then obtain u where u: "find_user (fe_authorId ev) d = Some u" by auto
  then have "u_id u = fe_authorId ev" using find_SomeD unfolding find_user_def by fast
  then show ?thesis
    using False u assms
    by (intro exI [of _ "[favorited_job ev (u_id u, public_row u)]"])
      (simp add: handleArticleFavorited_def findById_def enqueueArticleNotification_def queue_add_def
        accepts_all_def notification_queued_def favorited_job_def public_row_def)
qed

theorem favorite_notifies_the_author_witness:
  "\<exists>jobs. handleArticleFavorited (\<lambda>_ _. None) \<lparr>fe_articleId = 1, fe_slug = js ''hi'', fe_title = js ''Hi'', fe_authorId = 1,
       fe_favoritedByUserId = 2, fe_favoritedByUsername = js ''bob'', fe_occurredAt = 3\<rparr> demo_db [] = (Inr (), map notification_queued jobs)
     \<and> map nj_to jobs = [js ''ann@x.io'']"
proof -
  have "accepts_all (\<lambda>_ _. None)" by (simp add: accepts_all_def)
  from favorite_notifies_the_author [OF this, of "\<lparr>fe_articleId = 1, fe_slug = js ''hi'', fe_title = js ''Hi'', fe_authorId = 1,
       fe_favoritedByUserId = 2, fe_favoritedByUsername = js ''bob'', fe_occurredAt = 3\<rparr>" demo_db "[]"]
  obtain jobs where h: "handleArticleFavorited (\<lambda>_ _. None) \<lparr>fe_articleId = 1, fe_slug = js ''hi'', fe_title = js ''Hi'', fe_authorId = 1,
       fe_favoritedByUserId = 2, fe_favoritedByUsername = js ''bob'', fe_occurredAt = 3\<rparr> demo_db [] = (Inr (), [] @ map notification_queued jobs)"
    and m: "map (\<lambda>j. (nj_recipientId j, nj_to j)) jobs =
        (if (2 :: nat) = 1 then [] else case find_user 1 demo_db of None \<Rightarrow> [] | Some u \<Rightarrow> [(1, u_email u)])"
    by (simp only: article_favorited.simps) blast
  have "map nj_to jobs = map snd (map (\<lambda>j. (nj_recipientId j, nj_to j)) jobs)" by simp
  also have "\<dots> = [js ''ann@x.io'']" unfolding m by (simp add: find_user_def demo_db_def demo_user_def)
  finally show ?thesis using h by auto
qed

end
