(* ===== verification/Profiles.thy ===== *)
theory Profiles
  imports Users
begin

text \<open>
  Profiles and follows (\<open>src/profiles\<close>): the repository's reads and its two edge writes, and the service in
  front of them. As for favourites, \<open>collides\<close> says whether the database reports a duplicate edge as
  \<open>P2002\<close> or ignores it; here the code does not expect the former.
\<close>

section \<open>ProfilesRepository\<close>

record profile_row =
  pr_id :: nat
  pr_username :: jstr
  pr_bio :: "jstr option"
  pr_image :: "jstr option"
  pr_followedBy :: "nat list"

definition user_by_name :: "jstr \<Rightarrow> db \<Rightarrow> user option" where
  "user_by_name un d = find (\<lambda>u. u_username u = un) (users d)"

definition findProfile :: "jstr \<Rightarrow> nat option \<Rightarrow> db \<Rightarrow> profile_row option" where
  "findProfile un viewer d = map_option
     (\<lambda>u. \<lparr>pr_id = u_id u, pr_username = u_username u, pr_bio = u_bio u, pr_image = u_image u,
           pr_followedBy = (case viewer of None \<Rightarrow> []
             | Some v \<Rightarrow> map fst (filter (\<lambda>e. e = (v, u_id u)) (userFollows d)))\<rparr>)
     (user_by_name un d)"

definition isFollowing :: "nat \<Rightarrow> nat \<Rightarrow> db \<Rightarrow> bool" where
  "isFollowing follower target d \<longleftrightarrow>
     list_ex (\<lambda>u. u_id u = target) (users d) \<and> (follower, target) \<in> set (userFollows d)"

definition follow :: "bool \<Rightarrow> nat \<Rightarrow> nat \<Rightarrow> (thrown, nat, db) comp" where
  "follow collides follower target d =
     (if follower \<notin> user_ids d \<or> target \<notin> user_ids d then (Inl record_not_found, d)
      else if (follower, target) \<in> set (userFollows d) then
        (if collides then (Inl (unique_violation [''A'', ''B'']), d) else (Inr follower, d))
      else (Inr follower, d\<lparr>userFollows := userFollows d @ [(follower, target)]\<rparr>))"

definition unfollow :: "nat \<Rightarrow> nat \<Rightarrow> (thrown, nat, db) comp" where
  "unfollow follower target d =
     (if follower \<notin> user_ids d then (Inl record_not_found, d)
      else (Inr follower, d\<lparr>userFollows := del_where (\<lambda>e. e = (follower, target)) (userFollows d)\<rparr>))"

section \<open>ProfilesService\<close>

record profile_response =
  ps_username :: jstr
  ps_bio :: "jstr option"
  ps_image :: "jstr option"
  ps_following :: bool

definition profile_response_of :: "s3_env \<Rightarrow> profile_row \<Rightarrow> bool \<Rightarrow> profile_response" where
  "profile_response_of s3 p following =
     \<lparr>ps_username = pr_username p, ps_bio = pr_bio p, ps_image = publicUrl s3 (pr_image p), ps_following = following\<rparr>"

definition getProfile :: "s3_env \<Rightarrow> jstr \<Rightarrow> nat option \<Rightarrow> db \<Rightarrow> thrown + profile_response" where
  "getProfile s3 un viewer d = (case findProfile un viewer d of
     None \<Rightarrow> Inl (NotFoundException (I18n ''common.error.profileNotFound''))
   | Some p \<Rightarrow> Inr (profile_response_of s3 p (0 < length (pr_followedBy p))))"

definition requireProfile :: "jstr \<Rightarrow> db \<Rightarrow> thrown + profile_row" where
  "requireProfile un d = (case findProfile un None d of
     None \<Rightarrow> Inl (NotFoundException (I18n ''common.error.profileNotFound''))
   | Some p \<Rightarrow> Inr p)"

definition followUser ::
    "s3_env \<Rightarrow> (nat \<Rightarrow> db \<Rightarrow> db) \<Rightarrow> bool \<Rightarrow> nat \<Rightarrow> jstr \<Rightarrow> (thrown, profile_response, db) comp" where
  "followUser s3 sched collides viewer un d =
     (let d0 = sched 0 d
      in case requireProfile un d0 of
           Inl e \<Rightarrow> (Inl e, d0)
         | Inr target \<Rightarrow>
             if pr_id target = viewer
             then (Inl (UnprocessableEntityException (I18n ''common.error.followSelf'')), d0)
             else
               (let d1 = sched 1 d0
                in if isFollowing viewer (pr_id target) d1 then (Inr (profile_response_of s3 target True), d1)
                   else case follow collides viewer (pr_id target) (sched 2 d1) of
                          (Inl e, d') \<Rightarrow> (Inl e, d')
                        | (Inr _, d') \<Rightarrow> (Inr (profile_response_of s3 target True), d')))"

definition unfollowUser ::
    "s3_env \<Rightarrow> (nat \<Rightarrow> db \<Rightarrow> db) \<Rightarrow> nat \<Rightarrow> jstr \<Rightarrow> (thrown, profile_response, db) comp" where
  "unfollowUser s3 sched viewer un d =
     (let d0 = sched 0 d
      in case requireProfile un d0 of
           Inl e \<Rightarrow> (Inl e, d0)
         | Inr target \<Rightarrow>
             (let d1 = sched 1 d0
              in if \<not> isFollowing viewer (pr_id target) d1 then (Inr (profile_response_of s3 target False), d1)
                 else case unfollow viewer (pr_id target) (sched 2 d1) of
                        (Inl e, d') \<Rightarrow> (Inl e, d')
                      | (Inr _, d') \<Rightarrow> (Inr (profile_response_of s3 target False), d')))"

section \<open>Lemmas\<close>

lemma user_by_name_iff:
  "db_ok d \<Longrightarrow> user_by_name un d = Some u \<longleftrightarrow> u \<in> set (users d) \<and> u_username u = un"
  using uniq_find [of u_username "users d" u un] db_okD(1)
  by (auto simp: user_by_name_def users_ok_def dest: find_SomeD)

definition follows :: "nat \<Rightarrow> jstr \<Rightarrow> db \<Rightarrow> bool" where
  "follows v un d \<longleftrightarrow> (case user_by_name un d of None \<Rightarrow> False | Some u \<Rightarrow> (v, u_id u) \<in> set (userFollows d))"

text \<open>The viewer exists and the name is of another user.\<close>

definition can_follow :: "nat \<Rightarrow> jstr \<Rightarrow> db \<Rightarrow> bool" where
  "can_follow v un d \<longleftrightarrow> v \<in> user_ids d \<and>
     (case user_by_name un d of None \<Rightarrow> False | Some u \<Rightarrow> u_id u \<noteq> v)"

lemma db_ok_follows:
  assumes ok: "db_ok d" and "set es \<subseteq> user_ids d \<times> user_ids d" and "distinct es"
  shows "db_ok (d\<lparr>userFollows := es\<rparr>)"
proof (rule db_ok_put(6) [OF ok])
  show "edges_ok (d\<lparr>userFollows := es\<rparr>)"
    using db_okD(8) [OF ok] assms(2,3) by (simp add: edges_ok_def article_ids_def user_ids_def)
qed

lemma follows_sub: "db_ok d \<Longrightarrow> set (userFollows d) \<subseteq> user_ids d \<times> user_ids d \<and> distinct (userFollows d)"
  using db_okD(8) by (simp add: edges_ok_def)

lemma user_by_name_frame [simp]: "user_by_name un (d\<lparr>userFollows := es\<rparr>) = user_by_name un d"
  by (simp add: user_by_name_def)

lemma can_followE:
  assumes "db_ok d" and "can_follow v un d"
  obtains u where "user_by_name un d = Some u" "u_id u \<noteq> v" "v \<in> user_ids d" "u_id u \<in> user_ids d"
    "isFollowing v (u_id u) d \<longleftrightarrow> follows v un d"
proof -
  obtain u where u: "user_by_name un d = Some u" "u_id u \<noteq> v" "v \<in> user_ids d"
    using assms(2) by (auto simp: can_follow_def split: option.splits)
  then have m: "u \<in> set (users d)" using user_by_name_iff [OF assms(1)] by blast
  then have "list_ex (\<lambda>w. u_id w = u_id u) (users d)" by (auto simp: list_ex_iff)
  then show ?thesis using that [of u] u m by (simp add: isFollowing_def follows_def user_ids_def)
qed

lemma followUser_quiet:
  assumes ok: "db_ok d" and can: "can_follow v un d"
  obtains es u where "user_by_name un d = Some u"
    "followUser s3 (\<lambda>_ d. d) collides v un d =
       (Inr \<lparr>ps_username = un, ps_bio = u_bio u, ps_image = publicUrl s3 (u_image u), ps_following = True\<rparr>,
        d\<lparr>userFollows := es\<rparr>)"
    "set es = insert (v, u_id u) (set (userFollows d))" "db_ok (d\<lparr>userFollows := es\<rparr>)"
proof -
  obtain u where u: "user_by_name un d = Some u" "u_id u \<noteq> v" "v \<in> user_ids d" "u_id u \<in> user_ids d"
      "isFollowing v (u_id u) d \<longleftrightarrow> follows v un d"
    by (rule can_followE [OF ok can])
  define es where "es = (if follows v un d then userFollows d else userFollows d @ [(v, u_id u)])"
  have un: "u_username u = un" using user_by_name_iff [OF ok] u(1) by blast
  have f: "follows v un d \<longleftrightarrow> (v, u_id u) \<in> set (userFollows d)" using u(1) by (simp add: follows_def)
  have "set es \<subseteq> user_ids d \<times> user_ids d" "distinct es"
    using follows_sub [OF ok] u(3,4) f by (auto simp: es_def)
  then have "db_ok (d\<lparr>userFollows := es\<rparr>)" by (rule db_ok_follows [OF ok])
  moreover have "set es = insert (v, u_id u) (set (userFollows d))" using f by (auto simp: es_def)
  moreover have "followUser s3 (\<lambda>_ d. d) collides v un d =
       (Inr \<lparr>ps_username = un, ps_bio = u_bio u, ps_image = publicUrl s3 (u_image u), ps_following = True\<rparr>,
        d\<lparr>userFollows := es\<rparr>)"
    using u f un
    by (auto simp: followUser_def requireProfile_def findProfile_def follow_def profile_response_of_def es_def)
  ultimately show ?thesis using that u(1) by blast
qed

lemma unfollowUser_quiet:
  assumes ok: "db_ok d" and can: "can_follow v un d"
  obtains es u where "user_by_name un d = Some u"
    "unfollowUser s3 (\<lambda>_ d. d) v un d =
       (Inr \<lparr>ps_username = un, ps_bio = u_bio u, ps_image = publicUrl s3 (u_image u), ps_following = False\<rparr>,
        d\<lparr>userFollows := es\<rparr>)"
    "set es = set (userFollows d) - {(v, u_id u)}" "db_ok (d\<lparr>userFollows := es\<rparr>)"
proof -
  obtain u where u: "user_by_name un d = Some u" "u_id u \<noteq> v" "v \<in> user_ids d" "u_id u \<in> user_ids d"
      "isFollowing v (u_id u) d \<longleftrightarrow> follows v un d"
    by (rule can_followE [OF ok can])
  define es where "es = del_where (\<lambda>e. e = (v, u_id u)) (userFollows d)"
  have un: "u_username u = un" using user_by_name_iff [OF ok] u(1) by blast
  have f: "follows v un d \<longleftrightarrow> (v, u_id u) \<in> set (userFollows d)" using u(1) by (simp add: follows_def)
  have none: "es = userFollows d" if "\<not> follows v un d"
    unfolding es_def by (rule del_where_none) (use that f in auto)
  have "set es \<subseteq> user_ids d \<times> user_ids d" "distinct es"
    using follows_sub [OF ok] by (auto simp: es_def del_where_def)
  then have "db_ok (d\<lparr>userFollows := es\<rparr>)" by (rule db_ok_follows [OF ok])
  moreover have "set es = set (userFollows d) - {(v, u_id u)}" by (auto simp: es_def)
  moreover have "unfollowUser s3 (\<lambda>_ d. d) v un d =
       (Inr \<lparr>ps_username = un, ps_bio = u_bio u, ps_image = publicUrl s3 (u_image u), ps_following = False\<rparr>,
        d\<lparr>userFollows := es\<rparr>)"
    using u un none es_def [symmetric]
    by (simp add: unfollowUser_def requireProfile_def findProfile_def unfollow_def profile_response_of_def)
  ultimately show ?thesis using that u(1) by blast
qed

lemma user_by_name_inj:
  "db_ok d \<Longrightarrow> user_by_name n d = Some u \<Longrightarrow> user_by_name m d = Some w \<Longrightarrow> u_id u = u_id w \<Longrightarrow> n = m"
proof -
  assume ok: "db_ok d" and "user_by_name n d = Some u" "user_by_name m d = Some w" and i: "u_id u = u_id w"
  then have "u \<in> set (users d)" "w \<in> set (users d)" "u_username u = n" "u_username w = m"
    using user_by_name_iff [OF ok] by blast+
  moreover have "uniq u_id (users d)" using db_okD(1) [OF ok] by (simp add: users_ok_def)
  ultimately show "n = m" using uniqD [of u_id "users d" u w] i by blast
qed

interpretation follows: switch
  "\<lambda>k d. snd (followUser s3 (\<lambda>_ d. d) collides (fst k) (snd k) d)"
  "\<lambda>k d. snd (unfollowUser s3 (\<lambda>_ d. d) (fst k) (snd k) d)"
  "\<lambda>k d. follows (fst k) (snd k) d"
  db_ok
  "\<lambda>k d. can_follow (fst k) (snd k) d"
  for s3 collides
proof (unfold_locales, goal_cases)
  case (1 d k j)
  obtain es u where e: "user_by_name (snd k) d = Some u" "snd (followUser s3 (\<lambda>_ d. d) collides (fst k) (snd k) d) = d\<lparr>userFollows := es\<rparr>"
      "set es = insert (fst k, u_id u) (set (userFollows d))"
    using followUser_quiet [OF 1(1,2), of s3 collides] by (metis snd_conv)
  obtain w where w: "user_by_name (snd j) d = Some w" using can_followE [OF 1(1,3)] by metis
  have "u_id u = u_id w \<longleftrightarrow> snd k = snd j" using user_by_name_inj [OF 1(1) e(1) w] e(1) w by auto
  moreover have "follows (fst j) (snd j) d \<longleftrightarrow> (fst j, u_id w) \<in> set (userFollows d)"
      "follows (fst j) (snd j) (d\<lparr>userFollows := es\<rparr>) \<longleftrightarrow> (fst j, u_id w) \<in> set es"
    using w by (simp_all add: follows_def)
  ultimately show ?case unfolding e(2,3) by (metis DiffE DiffI insert_iff prod.collapse prod.inject singletonD)
next
  case (2 d k j)
  obtain es u where e: "user_by_name (snd k) d = Some u" "snd (unfollowUser s3 (\<lambda>_ d. d) (fst k) (snd k) d) = d\<lparr>userFollows := es\<rparr>"
      "set es = set (userFollows d) - {(fst k, u_id u)}"
    using unfollowUser_quiet [OF 2(1,2), of s3] by (metis snd_conv)
  obtain w where w: "user_by_name (snd j) d = Some w" using can_followE [OF 2(1,3)] by metis
  have "u_id u = u_id w \<longleftrightarrow> snd k = snd j" using user_by_name_inj [OF 2(1) e(1) w] e(1) w by auto
  moreover have "follows (fst j) (snd j) d \<longleftrightarrow> (fst j, u_id w) \<in> set (userFollows d)"
      "follows (fst j) (snd j) (d\<lparr>userFollows := es\<rparr>) \<longleftrightarrow> (fst j, u_id w) \<in> set es"
    using w by (simp_all add: follows_def)
  ultimately show ?case unfolding e(2,3) by (metis DiffE DiffI insert_iff prod.collapse prod.inject singletonD)
next
  case (3 d k)
  then show ?case using followUser_quiet [OF 3] by (metis snd_conv)
next
  case (4 d k)
  then show ?case using unfollowUser_quiet [OF 4] by (metis snd_conv)
next
  case (5 d k j)
  obtain es where "snd (followUser s3 (\<lambda>_ d. d) collides (fst k) (snd k) d) = d\<lparr>userFollows := es\<rparr>"
    using followUser_quiet [OF 5(1,2), of s3 collides] by (metis snd_conv)
  then show ?case using 5(3) by (simp add: can_follow_def user_ids_def)
next
  case (6 d k j)
  obtain es where "snd (unfollowUser s3 (\<lambda>_ d. d) (fst k) (snd k) d) = d\<lparr>userFollows := es\<rparr>"
    using unfollowUser_quiet [OF 6(1,2), of s3] by (metis snd_conv)
  then show ?case using 6(3) by (simp add: can_follow_def user_ids_def)
qed

lemma getProfile_follows:
  assumes "user_by_name un d = Some u"
  shows "\<exists>p. getProfile s3 un (Some v) d = Inr p \<and> ps_following p = follows v un d"
proof -
  have "filter (\<lambda>e. e = (v, u_id u)) (userFollows d) \<noteq> [] \<longleftrightarrow> follows v un d"
    using assms by (auto simp: follows_def filter_empty_conv)
  then show ?thesis
    using assms by (simp add: getProfile_def findProfile_def profile_response_of_def)
qed

section \<open>Properties\<close>

text \<open>C14: Following and unfollowing are idempotent and independent: after any sequence of such requests, the profile
  of a user shows as followed to a viewer exactly when the viewer's last request about that user was to follow,
  or there was none and the viewer followed before.\<close>

theorem follows_obey_the_last_request:
  assumes "db_ok d" and "can_follow v un d"
    and "\<forall>r \<in> set rs. can_follow (fst (req_key r)) (snd (req_key r)) d"
  shows "let d' = run_requests (\<lambda>k d. snd (followUser s3 (\<lambda>_ d. d) collides (fst k) (snd k) d))
                     (\<lambda>k d. snd (unfollowUser s3 (\<lambda>_ d. d) (fst k) (snd k) d)) rs d
         in db_ok d' \<and> (\<exists>p. getProfile s3 un (Some v) d' = Inr p \<and>
              ps_following p = (case last_request (v, un) rs of None \<Rightarrow> follows v un d | Some b \<Rightarrow> b))"
proof -
  let ?d' = "run_requests (\<lambda>k d. snd (followUser s3 (\<lambda>_ d. d) collides (fst k) (snd k) d))
      (\<lambda>k d. snd (unfollowUser s3 (\<lambda>_ d. d) (fst k) (snd k) d)) rs d"
  have run: "db_ok ?d' \<and> can_follow v un ?d'
      \<and> (follows v un ?d' \<longleftrightarrow> (case last_request (v, un) rs of None \<Rightarrow> follows v un d | Some b \<Rightarrow> b))"
    using follows.last_request_decides [of d rs "(v, un)" s3 collides] assms
    unfolding fst_conv snd_conv by blast
  then have "db_ok ?d'" "can_follow v un ?d'" by blast+
  then obtain u where u: "user_by_name un ?d' = Some u" by (rule can_followE)
  have "\<exists>p. getProfile s3 un (Some v) ?d' = Inr p \<and> ps_following p = follows v un ?d'"
    by (rule getProfile_follows [OF u])
  with run show ?thesis by (simp add: Let_def)
qed

theorem follows_obey_the_last_request_witness:
  "\<exists>p. getProfile demo_s3 (js ''bob'') (Some 1) (run_requests
      (\<lambda>k d. snd (followUser demo_s3 (\<lambda>_ d. d) True (fst k) (snd k) d))
      (\<lambda>k d. snd (unfollowUser demo_s3 (\<lambda>_ d. d) (fst k) (snd k) d))
      [On (1, js ''bob''), On (2, js ''ann''), Off (1, js ''bob''), On (1, js ''bob''), On (1, js ''bob'')] demo_db) = Inr p
    \<and> ps_following p"
proof -
  have "can_follow 1 (js ''bob'') demo_db" "can_follow 2 (js ''ann'') demo_db"
    by (simp_all add: can_follow_def demo_db_def demo_user_def user_by_name_def user_ids_def)
  then show ?thesis
    using follows_obey_the_last_request [OF demo_db_ok, of 1 "js ''bob''"
        "[On (1, js ''bob''), On (2, js ''ann''), Off (1, js ''bob''), On (1, js ''bob''), On (1, js ''bob'')]" demo_s3 True]
    by (simp add: Let_def)
qed



end
