(* ===== verification/Preview.thy ===== *)
theory Preview
  imports HttpErrors
begin

text \<open>
  Article previews: the analyzer behind the gRPC service (\<open>src/content-preview\<close>) and the client the articles
  controller uses (\<open>articles/article-preview-client.service.ts\<close>). What the channel answers, and the list of
  gRPC status codes, are parameters.
\<close>

section \<open>ContentPreviewAnalyzerService\<close>

definition MAX_EXCERPT_LENGTH :: nat where "MAX_EXCERPT_LENGTH = 160"
definition WORDS_PER_MINUTE :: nat where "WORDS_PER_MINUTE = 200"

record article_preview =
  pv_excerpt :: jstr
  pv_wordCount :: nat
  pv_readingTimeMinutes :: nat

datatype rpc_exception = RpcException string jstr

definition normalize_space :: "jstr \<Rightarrow> jstr" where
  "normalize_space body = trim (replace_runs is_ws (js '' '') body)"

definition analyze :: "jstr \<Rightarrow> rpc_exception + article_preview" where
  "analyze body =
     (if body = [] \<or> trim body = [] then Inl (RpcException ''INVALID_ARGUMENT'' (js ''Body must not be blank''))
      else
        (let normalized = normalize_space body;
             wordCount = (if normalized = [] then 0 else length (split_on 32 normalized))
         in Inr \<lparr>pv_excerpt = take MAX_EXCERPT_LENGTH normalized, pv_wordCount = wordCount,
              pv_readingTimeMinutes = (wordCount + WORDS_PER_MINUTE - 1) div WORDS_PER_MINUTE\<rparr>))"

section \<open>ArticlePreviewClientService\<close>

definition CONTENT_PREVIEW_GRPC_DEADLINE_MS :: nat where "CONTENT_PREVIEW_GRPC_DEADLINE_MS = 300"

text \<open>
  The first value of the response stream with the time it took, an empty stream, or an error with whatever is
  in its \<open>code\<close> property.
\<close>

datatype grpc_answer = FirstValue article_preview nat | EmptyStream | GrpcError "int option"

definition errorCode :: "int list \<Rightarrow> int option \<Rightarrow> int option" where
  "errorCode statuses code = (case code of
     Some c \<Rightarrow> if c \<in> set statuses then Some c else None
   | None \<Rightarrow> None)"

text \<open>The value, or 503 with the code that goes to the log.\<close>

definition client_analyze ::
    "int list \<Rightarrow> (jstr \<Rightarrow> grpc_answer) \<Rightarrow> jstr \<Rightarrow> (thrown + article_preview) \<times> int option list" where
  "client_analyze statuses channel body =
     (let unavailable = \<lambda>code. (Inl (ServiceUnavailableException (Text (js ''Article preview is unavailable''))),
            [errorCode statuses code])
      in case channel body of
           FirstValue p ms \<Rightarrow> if ms \<le> CONTENT_PREVIEW_GRPC_DEADLINE_MS then (Inr p, []) else unavailable None
         | EmptyStream \<Rightarrow> unavailable None
         | GrpcError code \<Rightarrow> unavailable code)"

section \<open>ContentPreviewGrpcController\<close>

definition grpc_analyze :: "jstr \<Rightarrow> rpc_exception + article_preview" where
  "grpc_analyze body = analyze body"

text \<open>A channel that ends at this controller and takes \<open>ms\<close> milliseconds; \<open>status\<close> gives the number of a gRPC status.\<close>

definition served_channel :: "(string \<Rightarrow> int) \<Rightarrow> (jstr \<Rightarrow> nat) \<Rightarrow> jstr \<Rightarrow> grpc_answer" where
  "served_channel status ms body = (case grpc_analyze body of
     Inr p \<Rightarrow> FirstValue p (ms body) | Inl (RpcException code m) \<Rightarrow> GrpcError (Some (status code)))"

lemma client_of_served_channel:
  "ms body \<le> CONTENT_PREVIEW_GRPC_DEADLINE_MS \<Longrightarrow>
   fst (client_analyze statuses (served_channel status ms) body) =
     (case analyze body of Inr p \<Rightarrow> Inr p
      | Inl _ \<Rightarrow> Inl (ServiceUnavailableException (Text (js ''Article preview is unavailable''))))"
  by (simp add: client_analyze_def served_channel_def grpc_analyze_def Let_def split: sum.split rpc_exception.split)

section \<open>Reference: the words of a text\<close>

function js_words :: "jstr \<Rightarrow> jstr list" where
  "js_words s = (case dropWhile is_ws s of
     [] \<Rightarrow> []
   | c # cs \<Rightarrow> (c # takeWhile (\<lambda>x. \<not> is_ws x) cs) # js_words (dropWhile (\<lambda>x. \<not> is_ws x) cs))"
  by pat_completeness auto
termination
proof (relation "measure length")
  fix s c and cs :: jstr
  assume "dropWhile is_ws s = c # cs"
  then have "Suc (length cs) \<le> length s" by (metis length_Cons length_dropWhile_le)
  moreover have "length (dropWhile (\<lambda>x. \<not> is_ws x) cs) \<le> length cs" by (rule length_dropWhile_le)
  ultimately show "(dropWhile (\<lambda>x. \<not> is_ws x) cs, s) \<in> measure length" by simp
qed simp

declare js_words.simps [simp del]

section \<open>Lemmas\<close>

lemma js_words_Nil_step: "dropWhile is_ws s = [] \<Longrightarrow> js_words s = []"
  by (simp only: js_words.simps [of s] list.case)

lemma js_words_Cons_step:
  "dropWhile is_ws s = c # cs \<Longrightarrow>
   js_words s = (c # takeWhile (\<lambda>x. \<not> is_ws x) cs) # js_words (dropWhile (\<lambda>x. \<not> is_ws x) cs)"
  by (simp only: js_words.simps [of s] list.case)

abbreviation squeeze :: "jstr \<Rightarrow> jstr" where
  "squeeze \<equiv> replace_runs is_ws [32]"

lemma is_ws_space [simp]: "is_ws 32"
  by (simp add: is_ws_def)

lemma squeeze_word: "\<forall>c \<in> set w. \<not> is_ws c \<Longrightarrow> squeeze (w @ r) = w @ squeeze r"
  by (induction w) auto

lemma squeeze_dropWhile: "squeeze s = (if s \<noteq> [] \<and> is_ws (hd s) then [32] else []) @ squeeze (dropWhile is_ws s)"
  by (cases s) auto

lemma trim_Cons_ws: "is_ws c \<Longrightarrow> trim (c # s) = trim s"
  by (simp add: trim_def strip_both_def)

lemma trim_word:
  assumes "w \<noteq> []" and "\<forall>c \<in> set w. \<not> is_ws c"
  shows "trim (w @ r) = w @ rev (dropWhile is_ws (rev r))"
proof -
  have "dropWhile is_ws (w @ r) = w @ r" using assms by (cases w) auto
  moreover have "dropWhile is_ws (rev r @ rev w) = dropWhile is_ws (rev r) @ rev w"
    using assms by (cases "rev w") (auto simp: dropWhile_append dropWhile_eq_Nil_conv)
  ultimately show ?thesis by (simp add: trim_def strip_both_def)
qed

lemma rstrip_trim: "s = [] \<or> \<not> is_ws (hd s) \<Longrightarrow> rev (dropWhile is_ws (rev s)) = trim s"
  by (cases s) (auto simp: trim_def strip_both_def)

lemma rstrip_Cons:
  "rev (dropWhile is_ws (rev (32 # s))) = (if \<forall>c \<in> set s. is_ws c then [] else 32 # rev (dropWhile is_ws (rev s)))"
  by (auto simp: dropWhile_append dropWhile_eq_Nil_conv)

lemma hd_squeeze: "s \<noteq> [] \<Longrightarrow> \<not> is_ws (hd s) \<Longrightarrow> squeeze s \<noteq> [] \<and> \<not> is_ws (hd (squeeze s))"
  by (cases s) auto

lemma squeeze_blank:
  assumes "dropWhile is_ws r = []"
  shows "squeeze r = [] \<or> squeeze r = [32]"
  using squeeze_dropWhile [of r, unfolded assms] by (simp split: if_splits)

lemma trim_squeeze: "trim (squeeze s) = join_with [32] (js_words s)"
proof (induction s rule: js_words.induct)
  case (1 s)
  have lead: "trim (squeeze s) = trim (squeeze (dropWhile is_ws s))"
    using squeeze_dropWhile [of s] by (auto simp: trim_Cons_ws)
  show ?case
  proof (cases "dropWhile is_ws s")
    case Nil
    then have "js_words s = []" by (rule js_words_Nil_step)
    moreover have "trim (squeeze s) = trim []" using lead Nil by simp
    ultimately show ?thesis by (simp add: trim_def strip_both_def)
  next
    case (Cons c cs)
    let ?w = "c # takeWhile (\<lambda>x. \<not> is_ws x) cs" and ?r = "dropWhile (\<lambda>x. \<not> is_ws x) cs"
    have c: "\<not> is_ws c" using Cons hd_dropWhile [of is_ws s] by simp
    then have w: "\<forall>x \<in> set ?w. \<not> is_ws x" using set_takeWhileD by fastforce
    have "c # cs = ?w @ ?r" by simp
    then have "squeeze (c # cs) = ?w @ squeeze ?r" using squeeze_word [OF w] by metis
    then have eq: "trim (squeeze s) = ?w @ rev (dropWhile is_ws (rev (squeeze ?r)))"
      using lead Cons trim_word [OF _ w] by simp
    have words: "js_words s = ?w # js_words ?r" by (rule js_words_Cons_step [OF Cons])
    show ?thesis
    proof (cases "dropWhile is_ws ?r")
      case Nil
      then have "js_words ?r = []" by (rule js_words_Nil_step)
      moreover have "rev (dropWhile is_ws (rev (squeeze ?r))) = []"
        using squeeze_blank [OF Nil] by (elim disjE) (simp_all only: rev.simps append_Nil dropWhile.simps is_ws_space if_True)
      ultimately show ?thesis by (simp only: eq words join_with.simps append_Nil2)
    next
      case (Cons e es)
      have e: "\<not> is_ws e" using Cons hd_dropWhile [of is_ws ?r] by simp
      have "?r \<noteq> []" using Cons by (metis dropWhile.simps(1) list.distinct(1))
      then have "is_ws (hd ?r)" using hd_dropWhile [of "\<lambda>x. \<not> is_ws x" cs] by blast
      then have sq: "squeeze ?r = 32 # squeeze (e # es)"
        using squeeze_dropWhile [of ?r] Cons \<open>?r \<noteq> []\<close> by simp
      have "\<not> (\<forall>x \<in> set (squeeze (e # es)). is_ws x)" using e by simp
      then have "rev (dropWhile is_ws (rev (squeeze ?r))) = 32 # trim (squeeze (e # es))"
        unfolding sq rstrip_Cons using rstrip_trim [of "squeeze (e # es)"] e by simp
      also have "trim (squeeze (e # es)) = trim (squeeze ?r)"
        unfolding sq by (simp add: trim_Cons_ws)
      also have "\<dots> = join_with [32] (js_words ?r)" using 1 \<open>dropWhile is_ws s = c # cs\<close> by simp
      finally have "trim (squeeze s) = ?w @ 32 # join_with [32] (js_words ?r)" using eq by simp
      moreover obtain v vs where "js_words ?r = v # vs" using js_words_Cons_step [OF Cons] by blast
      ultimately show ?thesis using words by simp
    qed
  qed
qed

lemma js_words_no_space: "w \<in> set (js_words s) \<Longrightarrow> w \<noteq> [] \<and> (\<forall>c \<in> set w. \<not> is_ws c)"
proof (induction s rule: js_words.induct)
  case (1 s)
  show ?case
  proof (cases "dropWhile is_ws s")
    case Nil
    then have "js_words s = []" by (rule js_words_Nil_step)
    then show ?thesis using 1 by simp
  next
    case (Cons c cs)
    then have "\<not> is_ws c" using hd_dropWhile [of is_ws s] by simp
    moreover have "js_words s = (c # takeWhile (\<lambda>x. \<not> is_ws x) cs) # js_words (dropWhile (\<lambda>x. \<not> is_ws x) cs)"
      by (rule js_words_Cons_step [OF Cons])
    ultimately consider "w = c # takeWhile (\<lambda>x. \<not> is_ws x) cs" | "w \<in> set (js_words (dropWhile (\<lambda>x. \<not> is_ws x) cs))"
      using "1.prems" by auto
    then show ?thesis
    proof cases
      case 1
      then show ?thesis using \<open>\<not> is_ws c\<close> set_takeWhileD by fastforce
    qed (rule "1.IH" [OF Cons])
  qed
qed

lemma split_join:
  "ws \<noteq> [] \<Longrightarrow> \<forall>w \<in> set ws. 32 \<notin> set w \<Longrightarrow> split_on 32 (join_with [32] ws) = ws"
proof (induction ws rule: induct_list012)
  case (2 w)
  then have "32 \<notin> set w" by simp
  then show ?case by (induction w) auto
next
  case (3 v w ws)
  have "split_on 32 (v @ 32 # r) = v # split_on 32 r" if "32 \<notin> set v" for v r
    using that by (induction v) auto
  then show ?case using 3 by simp
qed simp

lemma js_words_Nil: "js_words s = [] \<longleftrightarrow> \<not> nonBlank s"
proof (cases "dropWhile is_ws s")
  case Nil
  then show ?thesis
    using js_words_Nil_step [OF Nil] by (simp add: nonBlank_def list_ex_iff)
next
  case (Cons c cs)
  then have "\<not> is_ws c" "c \<in> set s"
    using hd_dropWhile [of is_ws s] set_dropWhileD [of c is_ws s] by simp_all
  then show ?thesis using js_words_Cons_step [OF Cons] by (auto simp: nonBlank_def list_ex_iff)
qed

section \<open>Properties\<close>

text \<open>C32: The preview of a text that is not blank: its words, separated by single spaces, are the normalised text;
  their number is the word count; the excerpt is the first 160 characters of that text; the reading time is the
  smallest number of minutes, at least one, in which 200 words a minute suffice. A blank text, and no other, is
  refused.\<close>

theorem preview_is_about_the_words:
  "analyze body = (if \<not> nonBlank body then Inl (RpcException ''INVALID_ARGUMENT'' (js ''Body must not be blank''))
     else Inr \<lparr>pv_excerpt = take 160 (join_with [32] (js_words body)), pv_wordCount = length (js_words body),
            pv_readingTimeMinutes = (LEAST m. length (js_words body) \<le> m * 200)\<rparr>)"
proof (cases "nonBlank body")
  case False
  then show ?thesis by (simp add: analyze_def trim_Nil_iff)
next
  case True
  let ?ws = "js_words body"
  have ws: "?ws \<noteq> []" "\<forall>w \<in> set ?ws. w \<noteq> [] \<and> 32 \<notin> set w"
    using True js_words_no_space is_ws_space by (force simp: js_words_Nil)+
  have norm: "normalize_space body = join_with [32] ?ws"
    using trim_squeeze by (simp add: normalize_space_def js_def)
  have "join_with [32] ?ws \<noteq> []" using ws by (cases ?ws; cases "tl ?ws") auto
  moreover have "split_on 32 (join_with [32] ?ws) = ?ws" using ws by (intro split_join) auto
  moreover have "(LEAST m. n \<le> m * 200) = (n + 200 - 1) div 200" for n :: nat
    by (rule Least_equality) (auto intro: div_le_mono order.trans)
  moreover have "body \<noteq> []" using True by (auto simp: nonBlank_def)
  ultimately show ?thesis
    using True by (simp add: analyze_def trim_Nil_iff norm Let_def MAX_EXCERPT_LENGTH_def WORDS_PER_MINUTE_def)
qed

text \<open>The client never lets a failure of the preview service through: what is not a preview within 300 ms is a
  503 with a fixed message, whatever the error was, and only a known status code reaches the log.\<close>

theorem preview_failures_are_503:
  "case client_analyze statuses channel body of
     (Inr p, log) \<Rightarrow> log = [] \<and> (\<exists>ms \<le> 300. channel body = FirstValue p ms)
   | (Inl e, log) \<Rightarrow> fst (handleException e) =
         \<lparr>statusCode = 503, message = OneMessage (Text (js ''Article preview is unavailable'')), errors = None\<rparr>
       \<and> (\<exists>c. log = [c] \<and> c \<in> insert None (Some ` set statuses))"
  by (auto simp: client_analyze_def errorCode_def Let_def CONTENT_PREVIEW_GRPC_DEADLINE_MS_def
      split: grpc_answer.splits option.splits)

end
