(* ===== verification/Server.thy ===== *)
theory Server
  imports Endpoints AuthService Notifications Profiles Preview
begin

text \<open>
  The whole server: a request goes through the router, the guard of its route, the file interceptor, the
  validation pipe and the parameter decorators to the controller method, which calls its service; the value
  is wrapped by the response interceptor, whatever is thrown goes through the exception filter
  (\<open>main.ts\<close>, \<open>common/bootstrap/configure-app.ts\<close>, the controllers). The state is the database, the
  Kafka broker, the mail queue, the bucket, the worker pool and the log.
\<close>

section \<open>State, request and response\<close>

record server =
  sv_db :: db
  sv_bus :: bus
  sv_queue :: "queued_job list"
  sv_bucket :: bucket
  sv_pool :: pool
  sv_log :: "log_entry list"

text \<open>What the configuration and the libraries provide.\<close>

record server_env =
  se_google :: bool
  se_articles :: article_env
  se_auth :: auth_config
  se_media :: media_env
  se_validator :: validator_env
  se_format :: "jstr \<Rightarrow> jstr"
  se_grpcStatuses :: "int list"
  se_channel :: "jstr \<Rightarrow> grpc_answer"
  se_verify :: "jstr \<Rightarrow> nat option"
  se_exceeds :: "nat \<Rightarrow> nat \<Rightarrow> bool"
  se_intOutOfRange :: thrown
  se_cannotFind :: "http_method \<Rightarrow> jstr list \<Rightarrow> jstr"

text \<open>How the exchange with Google ends: a redirect, an error, or a profile for \<open>GoogleStrategy.validate\<close>.\<close>

datatype google_outcome = GoogleRedirect jstr | GoogleError | GoogleProfile google_profile

text \<open>
  What is drawn or read while one request runs: the clock, fresh random values, what other requests do to
  the database in between, the order in which PostgreSQL returns rows, the answers of Google, of the database
  and of Redis, the texts in the language of the request.
\<close>

record moment =
  mo_clock :: "nat \<Rightarrow> int"
  mo_fresh :: jstr
  mo_uuid :: jstr
  mo_oauth :: oauth_env
  mo_sched :: sched
  mo_collides :: bool
  mo_articleScan :: "article list \<Rightarrow> article list"
  mo_commentScan :: "cmt list \<Rightarrow> cmt list"
  mo_google :: google_outcome
  mo_databaseUp :: bool
  mo_queuePing :: "(thrown + nat) option"
  mo_translate :: "string \<Rightarrow> jstr"

record http_request =
  rq_method :: http_method
  rq_path :: "jstr list"
  rq_query :: payload
  rq_body :: payload
  rq_bearer :: "jstr option"
  rq_file :: "(string \<times> nat list) option"

datatype data =
    AuthData auth_response | TokenData token_pair | LinkPending | LinkConfirmed
  | UserData user_row | ArticleData article_response | ArticleList "article_response list"
  | PreviewData article_preview | CommentData comment_response | CommentList "comment_response list"
  | ProfileData profile_response | Hello jstr | HealthOk | NoData

type_synonym reply = "(data, pagination_meta) handled"

datatype http_response =
    Success "(data, pagination_meta) envelope" | Failure exception_response | Redirect jstr

section \<open>Services on the server state\<close>

definition on_db :: "(thrown, 'a, db) comp \<Rightarrow> (thrown, 'a, server) comp" where
  "on_db f s = (case f (sv_db s) of (r, d) \<Rightarrow> (r, s\<lparr>sv_db := d\<rparr>))"

definition on_app :: "(thrown, 'a, app) comp \<Rightarrow> (thrown, 'a, server) comp" where
  "on_app f s = (case f \<lparr>app_db = sv_db s, app_bus = sv_bus s\<rparr> of
     (r, a) \<Rightarrow> (r, s\<lparr>sv_db := app_db a, sv_bus := app_bus a\<rparr>))"

definition on_world :: "(thrown, 'a, world) comp \<Rightarrow> (thrown, 'a, server) comp" where
  "on_world f s = (case f (sv_db s, sv_queue s) of (r, d, q) \<Rightarrow> (r, s\<lparr>sv_db := d, sv_queue := q\<rparr>))"

definition on_media :: "(thrown, 'a, media) comp \<Rightarrow> (thrown, 'a, server) comp" where
  "on_media f s = (case f \<lparr>me_db = sv_db s, me_bucket = sv_bucket s, me_pool = sv_pool s\<rparr> of
     (r, m) \<Rightarrow> (r, s\<lparr>sv_db := me_db m, sv_bucket := me_bucket m, sv_pool := me_pool m\<rparr>))"

text \<open>A read sees the database as it is when it runs.\<close>

definition reading :: "(db \<Rightarrow> thrown + 'a) \<Rightarrow> (db \<Rightarrow> db) \<Rightarrow> (thrown, 'a, db) comp" where
  "reading f interfere d = (f (interfere d), interfere d)"

definition answers :: "('a \<Rightarrow> reply) \<Rightarrow> (thrown + 'a) \<times> server \<Rightarrow> (thrown + reply) \<times> server" where
  "answers g = apfst (map_sum id g)"

lemma answers_simps [simp]:
  "answers g (Inl e, s) = (Inl e, s)" "answers g (Inr a, s) = (Inr (g a), s)" "snd (answers g x) = snd x"
  by (simp_all add: answers_def)

section \<open>Arguments of the controller methods\<close>

definition str_of :: "payload \<Rightarrow> string \<Rightarrow> jstr" where
  "str_of obj nm = (case obj nm of Some (JStr s) \<Rightarrow> s | _ \<Rightarrow> [])"

definition opt_str_of :: "payload \<Rightarrow> string \<Rightarrow> jstr option" where
  "opt_str_of obj nm = (case obj nm of Some (JStr s) \<Rightarrow> Some s | _ \<Rightarrow> None)"

definition nullable_str_of :: "payload \<Rightarrow> string \<Rightarrow> jstr option option" where
  "nullable_str_of obj nm = (case obj nm of
     Some (JStr s) \<Rightarrow> Some (Some s) | Some JNull \<Rightarrow> Some None | _ \<Rightarrow> None)"

fun json_strings :: "json list \<Rightarrow> jstr list" where
  "json_strings [] = []"
| "json_strings (JStr s # vs) = s # json_strings vs"
| "json_strings (_ # vs) = json_strings vs"

definition opt_strs_of :: "payload \<Rightarrow> string \<Rightarrow> jstr list option" where
  "opt_strs_of obj nm = (case obj nm of Some (JArr vs) \<Rightarrow> Some (json_strings vs) | _ \<Rightarrow> None)"

definition opt_nat_of :: "payload \<Rightarrow> string \<Rightarrow> nat option" where
  "opt_nat_of obj nm = (case obj nm of Some (JNum (Some i)) \<Rightarrow> Some (nat i) | _ \<Rightarrow> None)"

definition create_dto_of :: "payload \<Rightarrow> create_dto" where
  "create_dto_of obj = \<lparr>ca_title = str_of obj ''title'', ca_description = str_of obj ''description'',
     ca_body = str_of obj ''body'', ca_tagList = opt_strs_of obj ''tagList''\<rparr>"

definition update_dto_of :: "payload \<Rightarrow> update_dto" where
  "update_dto_of obj = \<lparr>ua_title = opt_str_of obj ''title'', ua_description = opt_str_of obj ''description'',
     ua_body = opt_str_of obj ''body'', ua_tagList = opt_strs_of obj ''tagList''\<rparr>"

definition list_query_of :: "payload \<Rightarrow> list_query" where
  "list_query_of obj = \<lparr>lq_page = opt_nat_of obj ''page'', lq_limit = opt_nat_of obj ''limit'',
     lq_tag = opt_str_of obj ''tag'', lq_author = opt_str_of obj ''author'',
     lq_favorited = opt_str_of obj ''favorited''\<rparr>"

definition user_update_of :: "payload \<Rightarrow> user_update" where
  "user_update_of obj = \<lparr>uu_username = opt_str_of obj ''username'', uu_bio = nullable_str_of obj ''bio'',
     uu_image = nullable_str_of obj ''image''\<rparr>"

text \<open>\<open>ParseIntPipe\<close>: an optional sign and digits, of a number a double can hold.\<close>

definition INFINITE :: nat where "INFINITE = 2 ^ 1024 - 2 ^ 970"

definition parse_int :: "jstr \<Rightarrow> thrown + int" where
  "parse_int s =
     (let ds = (if s \<noteq> [] \<and> hd s = 45 then tl s else s)
      in if ds \<noteq> [] \<and> list_all is_digit ds \<and> read_nat 0 ds < INFINITE
         then Inr (if hd s = 45 then - int (read_nat 0 ds) else int (read_nat 0 ds))
         else Inl (BadRequestException (Text (js ''Validation failed (numeric string is expected)''))))"

text \<open>What the guard, the interceptors, the pipes and the parameter decorators hand to a method.\<close>

datatype principal = Anonymous | Authenticated_user nat | Google_identity verified_identity

record args =
  ag_principal :: principal
  ag_params :: "string \<Rightarrow> jstr"
  ag_dto :: payload
  ag_file :: "nat list option"

definition user_of :: "principal \<Rightarrow> nat option" where
  "user_of p = (case p of Authenticated_user u \<Rightarrow> Some u | _ \<Rightarrow> None)"

text \<open>The user \<open>@CurrentUser()\<close> and \<open>@OptionalCurrentUser()\<close> pass to the method.\<close>

definition with_user :: "args \<Rightarrow> (nat \<Rightarrow> (thrown, 'a, server) comp) \<Rightarrow> (thrown, 'a, server) comp" where
  "with_user a f s = (case current_user (user_of (ag_principal a)) of Inl e \<Rightarrow> (Inl e, s) | Inr uid \<Rightarrow> f uid s)"

definition viewer :: "args \<Rightarrow> nat option" where
  "viewer a = optional_current_user (user_of (ag_principal a))"

section \<open>The controller methods\<close>

text \<open>\<open>auth.controller.ts\<close>\<close>

definition auth_register :: "server_env \<Rightarrow> moment \<Rightarrow> args \<Rightarrow> (thrown, reply, server) comp" where
  "auth_register env mo a s = answers (Plain \<circ> AuthData) (on_db (register (se_auth env) (mo_clock mo 0) (mo_fresh mo)
     (mo_sched mo) (str_of (ag_dto a) ''email'') (str_of (ag_dto a) ''username'') (str_of (ag_dto a) ''password'')) s)"

definition auth_login :: "server_env \<Rightarrow> moment \<Rightarrow> args \<Rightarrow> (thrown, reply, server) comp" where
  "auth_login env mo a s = answers (Plain \<circ> AuthData) (on_db (login (se_auth env) (mo_clock mo 0) (mo_fresh mo)
     (mo_sched mo) (str_of (ag_dto a) ''email'') (str_of (ag_dto a) ''password'')) s)"

definition auth_confirmGoogleLink :: "server_env \<Rightarrow> moment \<Rightarrow> args \<Rightarrow> (thrown, reply, server) comp" where
  "auth_confirmGoogleLink env mo a s = answers (\<lambda>_. Plain LinkConfirmed) (on_db (confirmGoogleLink (se_auth env)
     (mo_clock mo 0) (mo_sched mo) (str_of (ag_dto a) ''token'')) s)"

definition auth_refresh :: "server_env \<Rightarrow> moment \<Rightarrow> args \<Rightarrow> (thrown, reply, server) comp" where
  "auth_refresh env mo a s = answers (Plain \<circ> TokenData) (on_db (refresh (se_auth env) (mo_clock mo) (mo_fresh mo)
     (mo_sched mo) (str_of (ag_dto a) ''refreshToken'')) s)"

definition auth_logout :: "server_env \<Rightarrow> moment \<Rightarrow> args \<Rightarrow> (thrown, reply, server) comp" where
  "auth_logout env mo a s = answers (\<lambda>_. Plain NoData) (on_db (logout (se_auth env) (mo_clock mo 0) (mo_sched mo)
     (str_of (ag_dto a) ''refreshToken'')) s)"

text \<open>\<open>google-auth.controller.ts\<close>: the callback also sets the status.\<close>

definition google_callback :: "server_env \<Rightarrow> moment \<Rightarrow> args \<Rightarrow> (thrown, nat \<times> reply, server) comp" where
  "google_callback env mo a s = (case ag_principal a of
     Google_identity identity \<Rightarrow>
       apfst (map_sum id (\<lambda>r. (oauth_status r,
           Plain (case r of Authenticated auth \<Rightarrow> AuthData auth | OAuthConfirmationRequired \<Rightarrow> LinkPending))))
         (on_world (handleOAuthCallback (se_auth env) (mo_oauth mo) (mo_fresh mo) (mo_sched mo) identity) s)
   | _ \<Rightarrow> (Inl (JsError []), s))"

text \<open>\<open>users.controller.ts\<close>\<close>

definition users_getCurrentUser :: "server_env \<Rightarrow> moment \<Rightarrow> args \<Rightarrow> (thrown, reply, server) comp" where
  "users_getCurrentUser env mo a = with_user a (\<lambda>uid s. answers (Plain \<circ> UserData)
     (on_db (reading (getCurrentUser (env_s3 (se_media env)) uid) (mo_sched mo 0)) s))"

definition users_updateUser :: "server_env \<Rightarrow> moment \<Rightarrow> args \<Rightarrow> (thrown, reply, server) comp" where
  "users_updateUser env mo a = with_user a (\<lambda>uid s. answers (Plain \<circ> UserData)
     (on_media (updateUser (se_media env) (mo_uuid mo) (mo_sched mo) uid (user_update_of (ag_dto a)) (ag_file a)) s))"

text \<open>\<open>articles.controller.ts\<close>\<close>

definition articles_create :: "server_env \<Rightarrow> moment \<Rightarrow> args \<Rightarrow> (thrown, reply, server) comp" where
  "articles_create env mo a = with_user a (\<lambda>uid s. answers (Plain \<circ> ArticleData)
     (on_app (createArticle (se_articles env) (mo_clock mo 0) (mo_sched mo) uid (create_dto_of (ag_dto a))) s))"

definition page_reply :: "article_response list \<times> pagination_meta \<Rightarrow> reply" where
  "page_reply r = WithMeta (ArticleList (fst r)) (snd r)"

definition articles_list :: "server_env \<Rightarrow> moment \<Rightarrow> args \<Rightarrow> (thrown, reply, server) comp" where
  "articles_list env mo a s = answers page_reply (on_db (\<lambda>d.
     let dc = mo_sched mo 0 d; df = mo_sched mo 1 dc
     in (listArticles (se_articles env) (mo_articleScan mo) (list_query_of (ag_dto a)) (viewer a) dc df, df)) s)"

definition articles_feed :: "server_env \<Rightarrow> moment \<Rightarrow> args \<Rightarrow> (thrown, reply, server) comp" where
  "articles_feed env mo a = with_user a (\<lambda>uid s. answers page_reply (on_db (\<lambda>d.
     let dc = mo_sched mo 0 d; df = mo_sched mo 1 dc
     in (feed (se_articles env) (mo_articleScan mo) uid (opt_nat_of (ag_dto a) ''page'')
           (opt_nat_of (ag_dto a) ''limit'') dc df, df)) s))"

definition articles_preview :: "server_env \<Rightarrow> moment \<Rightarrow> args \<Rightarrow> (thrown, reply, server) comp" where
  "articles_preview env mo a s = answers (Plain \<circ> PreviewData)
     (fst (client_analyze (se_grpcStatuses env) (se_channel env) (str_of (ag_dto a) ''body'')), s)"

definition articles_getBySlug :: "server_env \<Rightarrow> moment \<Rightarrow> args \<Rightarrow> (thrown, reply, server) comp" where
  "articles_getBySlug env mo a s = answers (Plain \<circ> ArticleData)
     (on_db (reading (getBySlug (se_articles env) (ag_params a ''slug'') (viewer a)) (mo_sched mo 0)) s)"

definition articles_update :: "server_env \<Rightarrow> moment \<Rightarrow> args \<Rightarrow> (thrown, reply, server) comp" where
  "articles_update env mo a = with_user a (\<lambda>uid s. answers (Plain \<circ> ArticleData)
     (on_db (updateArticle (se_articles env) (mo_clock mo 0) (mo_sched mo) uid (ag_params a ''slug'')
        (update_dto_of (ag_dto a))) s))"

definition articles_remove :: "server_env \<Rightarrow> moment \<Rightarrow> args \<Rightarrow> (thrown, reply, server) comp" where
  "articles_remove env mo a = with_user a (\<lambda>uid s. answers (\<lambda>_. Plain NoData)
     (on_db (removeArticle (mo_sched mo) uid (ag_params a ''slug'')) s))"

text \<open>\<open>comments.controller.ts\<close>: the id is parsed before the method runs; PostgreSQL's \<open>Int\<close> has 32 bits.\<close>

definition comments_list :: "server_env \<Rightarrow> moment \<Rightarrow> args \<Rightarrow> (thrown, reply, server) comp" where
  "comments_list env mo a s = answers (Plain \<circ> CommentList)
     (on_db (\<lambda>d. (listComments (ae_s3 (se_articles env)) (mo_commentScan mo) (mo_sched mo) (ag_params a ''slug'')
        (viewer a) d, mo_sched mo 1 (mo_sched mo 0 d))) s)"

definition comments_create :: "server_env \<Rightarrow> moment \<Rightarrow> args \<Rightarrow> (thrown, reply, server) comp" where
  "comments_create env mo a = with_user a (\<lambda>uid s. answers (Plain \<circ> CommentData)
     (on_db (createComment (ae_s3 (se_articles env)) (mo_clock mo 0) (mo_sched mo) uid (ag_params a ''slug'')
        (str_of (ag_dto a) ''body'')) s))"

definition remove_by_int :: "thrown \<Rightarrow> sched \<Rightarrow> nat \<Rightarrow> jstr \<Rightarrow> int \<Rightarrow> (thrown, unit, db) comp" where
  "remove_by_int outOfRange sched uid slug i d =
     (if 0 \<le> i \<and> i < 2 ^ 31 then removeComment sched uid slug (nat i) d
      else case comment_requireArticle slug (sched 0 d) of
             Inl e \<Rightarrow> (Inl e, sched 0 d)
           | Inr _ \<Rightarrow> (Inl (if - (2 ^ 31) \<le> i \<and> i < 0 then NotFoundException (I18n ''common.error.commentNotFound'')
                          else outOfRange), sched 1 (sched 0 d)))"

definition comments_remove :: "server_env \<Rightarrow> moment \<Rightarrow> args \<Rightarrow> (thrown, reply, server) comp" where
  "comments_remove env mo a = with_user a (\<lambda>uid s. case parse_int (ag_params a ''id'') of
       Inl e \<Rightarrow> (Inl e, s)
     | Inr i \<Rightarrow> answers (\<lambda>_. Plain NoData)
         (on_db (remove_by_int (se_intOutOfRange env) (mo_sched mo) uid (ag_params a ''slug'') i) s))"

text \<open>\<open>profiles.controller.ts\<close> and \<open>favorites.controller.ts\<close>\<close>

definition profiles_getProfile :: "server_env \<Rightarrow> moment \<Rightarrow> args \<Rightarrow> (thrown, reply, server) comp" where
  "profiles_getProfile env mo a s = answers (Plain \<circ> ProfileData)
     (on_db (reading (getProfile (ae_s3 (se_articles env)) (ag_params a ''username'') (viewer a)) (mo_sched mo 0)) s)"

definition profiles_followUser :: "server_env \<Rightarrow> moment \<Rightarrow> args \<Rightarrow> (thrown, reply, server) comp" where
  "profiles_followUser env mo a = with_user a (\<lambda>uid s. answers (Plain \<circ> ProfileData)
     (on_db (followUser (ae_s3 (se_articles env)) (mo_sched mo) (mo_collides mo) uid (ag_params a ''username'')) s))"

definition profiles_unfollowUser :: "server_env \<Rightarrow> moment \<Rightarrow> args \<Rightarrow> (thrown, reply, server) comp" where
  "profiles_unfollowUser env mo a = with_user a (\<lambda>uid s. answers (Plain \<circ> ProfileData)
     (on_db (unfollowUser (ae_s3 (se_articles env)) (mo_sched mo) uid (ag_params a ''username'')) s))"

definition favorites_favorite :: "server_env \<Rightarrow> moment \<Rightarrow> args \<Rightarrow> (thrown, reply, server) comp" where
  "favorites_favorite env mo a = with_user a (\<lambda>uid s. answers (Plain \<circ> ArticleData)
     (on_app (favorite (se_articles env) (mo_clock mo 0) (mo_sched mo) (mo_collides mo) uid (ag_params a ''slug'')) s))"

definition favorites_unfavorite :: "server_env \<Rightarrow> moment \<Rightarrow> args \<Rightarrow> (thrown, reply, server) comp" where
  "favorites_unfavorite env mo a = with_user a (\<lambda>uid s. answers (Plain \<circ> ArticleData)
     (on_app (unfavorite (se_articles env) (mo_sched mo) uid (ag_params a ''slug'')) s))"

text \<open>\<open>app.service.ts\<close>, \<open>health.service.ts\<close>; the ping of the queue is given a second.\<close>

definition getHello :: "(string \<Rightarrow> jstr) \<Rightarrow> sched \<Rightarrow> (thrown, jstr, db) comp" where
  "getHello translate sched = reading (\<lambda>d. Inr (translate ''common.hello'' @ js ''! '' @ translate ''common.welcome''
     @ js '' - Users: '' @ show_nat (length (users d)))) (sched 0)"

definition QUEUE_PING_TIMEOUT_MS :: nat where "QUEUE_PING_TIMEOUT_MS = 1000"

text \<open>The ping answers after some milliseconds, is rejected by the client, or never comes back.\<close>

definition queue_ping :: "(thrown + nat) option \<Rightarrow> thrown + unit" where
  "queue_ping answer = (case answer of
     None \<Rightarrow> Inl (JsError (js ''Email queue readiness timed out''))
   | Some (Inl e) \<Rightarrow> Inl e
   | Some (Inr ms) \<Rightarrow> if ms < QUEUE_PING_TIMEOUT_MS then Inr ()
                      else Inl (JsError (js ''Email queue readiness timed out'')))"

definition health_check :: "bool \<Rightarrow> (thrown + nat) option \<Rightarrow> thrown + unit" where
  "health_check databaseUp ping = (case queue_ping ping of
     Inr () \<Rightarrow> if databaseUp then Inr () else Inl (ServiceUnavailableException (Text (js ''Service unavailable'')))
   | Inl _ \<Rightarrow> Inl (ServiceUnavailableException (Text (js ''Service unavailable''))))"

section \<open>Dispatch\<close>

text \<open>The status of the route unless the method sets its own.\<close>

definition plain_status :: "nat \<Rightarrow> (thrown + reply) \<times> server \<Rightarrow> (thrown + nat \<times> reply) \<times> server" where
  "plain_status st = apfst (map_sum id (\<lambda>r. (st, r)))"

definition perform :: "server_env \<Rightarrow> moment \<Rightarrow> route \<Rightarrow> args \<Rightarrow> (thrown, nat \<times> reply, server) comp" where
  "perform env mo r a s = (case ro_action r of
     Google_callback \<Rightarrow> google_callback env mo a s
   | act \<Rightarrow> plain_status (ro_status r) (case act of
       App_getHello \<Rightarrow> answers (Plain \<circ> Hello) (on_db (getHello (mo_translate mo) (mo_sched mo)) s)
     | Health_getHealth \<Rightarrow> answers (\<lambda>_. Plain HealthOk) (health_check (mo_databaseUp mo) (mo_queuePing mo), s)
     | Auth_register \<Rightarrow> auth_register env mo a s
     | Auth_login \<Rightarrow> auth_login env mo a s
     | Auth_confirmGoogleLink \<Rightarrow> auth_confirmGoogleLink env mo a s
     | Auth_refresh \<Rightarrow> auth_refresh env mo a s
     | Auth_logout \<Rightarrow> auth_logout env mo a s
     | Google_start \<Rightarrow> (Inr (Plain NoData), s)
     | Google_callback \<Rightarrow> (Inr (Plain NoData), s)
     | Users_getCurrentUser \<Rightarrow> users_getCurrentUser env mo a s
     | Users_updateUser \<Rightarrow> users_updateUser env mo a s
     | Articles_create \<Rightarrow> articles_create env mo a s
     | Articles_list \<Rightarrow> articles_list env mo a s
     | Articles_feed \<Rightarrow> articles_feed env mo a s
     | Articles_preview \<Rightarrow> articles_preview env mo a s
     | Articles_getBySlug \<Rightarrow> articles_getBySlug env mo a s
     | Articles_update \<Rightarrow> articles_update env mo a s
     | Articles_remove \<Rightarrow> articles_remove env mo a s
     | Comments_list \<Rightarrow> comments_list env mo a s
     | Comments_create \<Rightarrow> comments_create env mo a s
     | Comments_remove \<Rightarrow> comments_remove env mo a s
     | Profiles_getProfile \<Rightarrow> profiles_getProfile env mo a s
     | Profiles_followUser \<Rightarrow> profiles_followUser env mo a s
     | Profiles_unfollowUser \<Rightarrow> profiles_unfollowUser env mo a s
     | Favorites_favorite \<Rightarrow> favorites_favorite env mo a s
     | Favorites_unfavorite \<Rightarrow> favorites_unfavorite env mo a s))"

text \<open>The guard admits a principal, refuses, or has already answered with a redirect.\<close>

datatype admission = Admit principal | Refuse thrown | Redirected jstr

definition google_user :: "unicode \<Rightarrow> google_outcome \<Rightarrow> thrown + verified_identity option" where
  "google_user uni outcome = (case outcome of
     GoogleProfile p \<Rightarrow> map_sum id Some (google_validate uni p)
   | _ \<Rightarrow> Inl (JsError (js ''TokenError'')))"

definition run_guard :: "server_env \<Rightarrow> moment \<Rightarrow> http_request \<Rightarrow> guard option \<Rightarrow> admission" where
  "run_guard env mo rq g = (case g of
     None \<Rightarrow> Admit Anonymous
   | Some JwtAuthGuard \<Rightarrow> (case JwtStrategy (se_verify env) (rq_bearer rq) of
        None \<Rightarrow> Refuse unauthorized | Some u \<Rightarrow> Admit (Authenticated_user u))
   | Some OptionalJwtAuthGuard \<Rightarrow>
       (case optional_handleRequest (JwtStrategy (se_verify env) (rq_bearer rq)) of
          None \<Rightarrow> Admit Anonymous | Some u \<Rightarrow> Admit (Authenticated_user u))
   | Some GoogleRedirectGuard \<Rightarrow> (case mo_google mo of
        GoogleRedirect url \<Rightarrow> Redirected url
      | GoogleError \<Rightarrow> Refuse (JsError (js ''TokenError''))
      | GoogleProfile p \<Rightarrow> (case google_validate (ac_unicode (se_auth env)) p of
           Inl e \<Rightarrow> Refuse e | Inr identity \<Rightarrow> Admit (Google_identity identity)))
   | Some GoogleAuthGuard \<Rightarrow> (case mo_google mo of
        GoogleRedirect url \<Rightarrow> Redirected url
      | outcome \<Rightarrow> (case google_handleRequest (google_user (ac_unicode (se_auth env)) outcome) of
           Inl e \<Rightarrow> Refuse e | Inr identity \<Rightarrow> Admit (Google_identity identity))))"

text \<open>\<open>FileInterceptor('image', \<dots>)\<close> of \<open>users.controller.ts\<close>: the filter sees the declared type before the size is known.\<close>

definition USER_AVATAR_MAX_SIZE_BYTES :: nat where "USER_AVATAR_MAX_SIZE_BYTES = 5 * 1024 * 1024"

definition receive_file :: "server_env \<Rightarrow> (string \<times> nat list) option \<Rightarrow> thrown + nat list option" where
  "receive_file env sent = (case sent of
     None \<Rightarrow> Inr None
   | Some (mime, bytes) \<Rightarrow> (case avatarFileFilter mime of
        Inl e \<Rightarrow> Inl e
      | Inr _ \<Rightarrow> if se_exceeds env USER_AVATAR_MAX_SIZE_BYTES (length bytes)
                 then Inl (nest_exception 413 (Text (js ''File too large''))) else Inr (Some bytes)))"

definition run_interceptors :: "server_env \<Rightarrow> http_request \<Rightarrow> route \<Rightarrow> thrown + nat list option" where
  "run_interceptors env rq r = (if ro_action r = Users_updateUser then receive_file env (rq_file rq) else Inr None)"

definition run_pipe :: "server_env \<Rightarrow> http_request \<Rightarrow> route \<Rightarrow> thrown + payload" where
  "run_pipe env rq r = (case ro_dto r of
     NoDto \<Rightarrow> Inr (\<lambda>_. None)
   | BodyDto sch \<Rightarrow> validationPipe (se_validator env) (se_format env) sch (rq_body rq)
   | QueryDto sch \<Rightarrow> validationPipe (se_validator env) (se_format env) sch (rq_query rq))"

definition run_method ::
    "server_env \<Rightarrow> moment \<Rightarrow> http_request \<Rightarrow> route \<Rightarrow> principal \<Rightarrow> (thrown, nat \<times> reply, server) comp" where
  "run_method env mo rq r p s = (case run_interceptors env rq r of
     Inl e \<Rightarrow> (Inl e, s)
   | Inr file \<Rightarrow> (case run_pipe env rq r of
        Inl e \<Rightarrow> (Inl e, s)
      | Inr obj \<Rightarrow> perform env mo r \<lparr>ag_principal = p, ag_params = param r (rq_path rq), ag_dto = obj, ag_file = file\<rparr> s))"

text \<open>The exception filter answers for whatever was thrown, and logs.\<close>

definition fail :: "thrown \<Rightarrow> server \<Rightarrow> http_response \<times> server" where
  "fail e s = (Failure (fst (handleException e)), s\<lparr>sv_log := sv_log s @ snd (handleException e)\<rparr>)"

definition finish ::
    "route \<Rightarrow> (thrown + nat \<times> reply) \<times> server \<Rightarrow> http_response \<times> server" where
  "finish r out = (case out of
     (Inl e, s) \<Rightarrow> fail e s
   | (Inr (st, reply), s) \<Rightarrow> (Success (intercept (ro_message r) st reply), s))"

text \<open>Nest's own answer to an address no route has names the method and the address.\<close>

definition no_such_route :: "server_env \<Rightarrow> http_request \<Rightarrow> thrown" where
  "no_such_route env rq = NotFoundException (Text (se_cannotFind env (rq_method rq) (rq_path rq)))"

definition dispatch :: "server_env \<Rightarrow> moment \<Rightarrow> http_request \<Rightarrow> server \<Rightarrow> http_response \<times> server" where
  "dispatch env mo rq s = (case find_route (se_google env) (rq_method rq) (rq_path rq) of
     None \<Rightarrow> fail (no_such_route env rq) s
   | Some r \<Rightarrow> (case run_guard env mo rq (ro_guard r) of
        Refuse e \<Rightarrow> fail e s
      | Redirected url \<Rightarrow> (Redirect url, s)
      | Admit p \<Rightarrow> finish r (run_method env mo rq r p s)))"

text \<open>Requests one after another; what runs beside each of them is in its \<open>moment\<close>.\<close>

fun serve :: "server_env \<Rightarrow> (moment \<times> http_request) list \<Rightarrow> server \<Rightarrow> http_response list \<times> server" where
  "serve env [] s = ([], s)"
| "serve env ((mo, rq) # rest) s =
     (let (resp, s') = dispatch env mo rq s; (resps, s'') = serve env rest s' in (resp # resps, s''))"

definition response_status :: "http_response \<Rightarrow> nat" where
  "response_status r = (case r of
     Success e \<Rightarrow> env_statusCode e | Failure e \<Rightarrow> statusCode e | Redirect _ \<Rightarrow> 302)"

section \<open>Lemmas\<close>

lemma snd_on [simp]:
  "snd (on_db f s) = s\<lparr>sv_db := snd (f (sv_db s))\<rparr>"
  "snd (on_app g s) = s\<lparr>sv_db := app_db (snd (g \<lparr>app_db = sv_db s, app_bus = sv_bus s\<rparr>)),
     sv_bus := app_bus (snd (g \<lparr>app_db = sv_db s, app_bus = sv_bus s\<rparr>))\<rparr>"
  "snd (on_world h s) = s\<lparr>sv_db := fst (snd (h (sv_db s, sv_queue s))), sv_queue := snd (snd (h (sv_db s, sv_queue s)))\<rparr>"
  "snd (on_media m s) = (let r = snd (m \<lparr>me_db = sv_db s, me_bucket = sv_bucket s, me_pool = sv_pool s\<rparr>)
     in s\<lparr>sv_db := me_db r, sv_bucket := me_bucket r, sv_pool := me_pool r\<rparr>)"
  by (simp_all add: on_db_def on_app_def on_world_def on_media_def Let_def split: prod.split)

lemma snd_reading [simp]: "snd (reading f i d) = i d"
  by (simp add: reading_def)

lemma snd_plain_status [simp]: "snd (plain_status st x) = snd x"
  by (simp add: plain_status_def)

lemma with_user_cases:
  "with_user a f s = (case user_of (ag_principal a) of
     None \<Rightarrow> (Inl (UnauthorizedException (Text (js ''User not authenticated''))), s) | Some uid \<Rightarrow> f uid s)"
  by (simp add: with_user_def current_user_def split: option.split)

lemmas account_methods =
  auth_register_def auth_login_def auth_confirmGoogleLink_def auth_refresh_def auth_logout_def google_callback_def
  getHello_def

lemmas read_methods =
  articles_list_def articles_preview_def articles_getBySlug_def comments_list_def profiles_getProfile_def

lemmas user_methods =
  users_getCurrentUser_def users_updateUser_def articles_create_def articles_feed_def articles_update_def
  articles_remove_def comments_create_def comments_remove_def profiles_followUser_def profiles_unfollowUser_def
  favorites_favorite_def favorites_unfavorite_def

text \<open>Only the methods behind \<open>@CurrentUser()\<close> write to the broker, the bucket or the pool.\<close>

lemma stranger_frame:
  assumes "user_of (ag_principal a) = None"
  shows "sv_bus (snd (perform env mo r a s)) = sv_bus s \<and> sv_bucket (snd (perform env mo r a s)) = sv_bucket s
    \<and> sv_pool (snd (perform env mo r a s)) = sv_pool s"
  using assms
  by (cases "ro_action r") (simp_all add: perform_def account_methods read_methods user_methods with_user_cases
      split: principal.split)

lemma snd_fail [simp]: "sv_db (snd (fail e s)) = sv_db s" "sv_bus (snd (fail e s)) = sv_bus s"
    "sv_bucket (snd (fail e s)) = sv_bucket s"
  by (simp_all add: fail_def)

lemma finish_frame [simp]: "sv_db (snd (finish r x)) = sv_db (snd x)" "sv_bus (snd (finish r x)) = sv_bus (snd x)"
    "sv_bucket (snd (finish r x)) = sv_bucket (snd x)"
  by (simp_all add: finish_def split: prod.split sum.split)

lemma run_guard_stranger:
  "JwtStrategy (se_verify env) (rq_bearer rq) = None \<Longrightarrow> run_guard env mo rq g = Admit p \<Longrightarrow> user_of p = None"
  by (auto simp: run_guard_def user_of_def optional_handleRequest_def split: option.splits guard.splits
      google_outcome.splits sum.splits)

section \<open>A small server\<close>

definition demo_server_env :: server_env where
  "demo_server_env = \<lparr>se_google = False, se_articles = demo_article_env, se_auth = demo_auth,
     se_media = demo_media_env, se_validator = demo_validator, se_format = (\<lambda>s. s), se_grpcStatuses = [],
     se_channel = (\<lambda>_. EmptyStream), se_verify = (\<lambda>t. if t = js ''ann'' then Some 1 else None),
     se_exceeds = (\<lambda>limit size. limit < size), se_intOutOfRange = JsError [],
     se_cannotFind = (\<lambda>_ _. js ''Cannot find'')\<rparr>"

definition demo_moment :: moment where
  "demo_moment = \<lparr>mo_clock = (\<lambda>_. 7), mo_fresh = js ''fresh'', mo_uuid = js ''uuid'', mo_oauth = demo_oauth,
     mo_sched = (\<lambda>_ d. d), mo_collides = False, mo_articleScan = (\<lambda>rows. rows), mo_commentScan = (\<lambda>rows. rows),
     mo_google = GoogleError, mo_databaseUp = True, mo_queuePing = Some (Inr 1),
     mo_translate = js\<rparr>"

definition demo_server :: server where
  "demo_server = \<lparr>sv_db = demo_article_db, sv_bus = \<lparr>broker = [], producerLog = []\<rparr>, sv_queue = [],
     sv_bucket = Map.empty, sv_pool = me_pool demo_media, sv_log = []\<rparr>"

definition demo_request :: "http_method \<Rightarrow> string list \<Rightarrow> jstr option \<Rightarrow> http_request" where
  "demo_request m path bearer = \<lparr>rq_method = m, rq_path = map js path, rq_query = Map.empty, rq_body = Map.empty,
     rq_bearer = bearer, rq_file = None\<rparr>"

end
