(* ===== verification/History.thy ===== *)
theory History
  imports Server
begin

text \<open>
  What a request can do to the database, whatever the request: two contracts on a relation between an earlier
  and a later database, one for the writes that signing up, signing in and linking accounts are made of, and
  one that adds the writes of articles, comments, favourites, follows and profiles. Under the contract every
  service operation, and so every request and every sequence of requests, stays in the relation, together
  with whatever other requests do in between. The contracts are interpreted on the constraints of the schema
  with its sequences, and on the content a stranger cannot change.
\<close>

section \<open>Account writes\<close>

locale account_history =
  fixes I :: "db \<Rightarrow> bool" and G :: "db \<Rightarrow> db \<Rightarrow> bool"
  assumes refl: "G d d"
    and trans: "G a b \<Longrightarrow> G b d \<Longrightarrow> G a d"
    and inv: "I d \<Longrightarrow> G d d' \<Longrightarrow> I d'"
    and rolled_back: "G a d \<Longrightarrow> G d d' \<Longrightarrow> G a (rollback d d')"
    and create_user: "create_user em un pw bio d = (r1, d') \<Longrightarrow> G d d'"
    and createLink: "createLink uid prov acct now d = (r2, d') \<Longrightarrow> G d d'"
    and createTokenPair: "createTokenPair cfg uid now fresh d = (r3, d') \<Longrightarrow> G d d'"
    and create_pending_link: "create_pending_link uid prov acct hash expires now d = (r4, d') \<Longrightarrow> G d d'"
    and revokeById: "revokeById i now d = (r5, d') \<Longrightarrow> G d d'"
    and revokeAllForUser: "G d (revokeAllForUser uid now d)"
    and delete_links: "G d (d\<lparr>pendingLinks := del_where P (pendingLinks d)\<rparr>)"
    and rotateCommit: "I d \<Longrightarrow> findByHash h d = Some stored \<Longrightarrow> G d e
        \<Longrightarrow> rotateCommit cfg now fresh stored e = (r6, d') \<Longrightarrow> G e d'"
begin

lemma sched_later: "(\<And>k e. G e (sched k e)) \<Longrightarrow> G a e \<Longrightarrow> G a (sched k e)"
  using trans by blast

lemma issueTokens: "issueTokens cfg now fresh uid d = (r, d') \<Longrightarrow> G d d'"
  by (auto simp: issueTokens_def andThen_def split: prod.splits sum.splits dest: createTokenPair)

lemma createPasswordless: "createPasswordless em un d = (r, d') \<Longrightarrow> G d d'"
  by (auto simp: createPasswordless_def andThen_def split: prod.splits sum.splits dest: create_user)

lemma later:
  "create_user em un pw bio d = (r1, d') \<Longrightarrow> G a d \<Longrightarrow> G a d'"
  "createLink uid prov acct now d = (r2, d') \<Longrightarrow> G a d \<Longrightarrow> G a d'"
  "issueTokens tcfg now fresh uid d = (r3, d') \<Longrightarrow> G a d \<Longrightarrow> G a d'"
  "createPasswordless em un d = (r4, d') \<Longrightarrow> G a d \<Longrightarrow> G a d'"
  "create_pending_link uid prov acct hash expires now d = (r5, d') \<Longrightarrow> G a d \<Longrightarrow> G a d'"
  "revokeById i now d = (r6, d') \<Longrightarrow> G a d \<Longrightarrow> G a d'"
  by (rule trans, assumption,
    erule create_user createLink issueTokens createPasswordless create_pending_link revokeById)+

lemma register:
  assumes "\<And>k e. G e (sched k e)"
  shows "G d (snd (register cfg now fresh sched em un pw d))"
  by (auto simp: register_def Let_def andThen_def split: prod.splits sum.splits
      intro!: sched_later [OF assms] refl elim!: later)

lemma login:
  assumes "\<And>k e. G e (sched k e)"
  shows "G d (snd (login cfg now fresh sched em pw d))"
  by (auto simp: login_def Let_def andThen_def split: prod.splits sum.splits option.splits
      intro!: sched_later [OF assms] refl elim!: later)

lemma rotate:
  assumes "I d" and s: "\<And>k e. G e (sched k e)"
  shows "G d (snd (rotate cfg clock fresh sched raw d))"
proof -
  let ?d0 = "sched 0 d"
  have d0: "I ?d0" "G d ?d0" using assms inv s by blast+
  have commit: "G d e" if "findByHash h ?d0 = Some t" "rotateCommit cfg (clock 1) fresh t (sched 1 ?d0) = (r, e)"
    for h t r e
    using rotateCommit [OF d0(1) that(1) s that(2)] d0(2) s trans by blast
  show ?thesis
    by (auto simp: rotate_def rotateRead_def Let_def split: prod.splits sum.splits option.splits
        intro!: sched_later [OF s] d0(2) trans [OF _ revokeAllForUser] dest!: commit)
qed

lemma revoke:
  assumes "\<And>k e. G e (sched k e)"
  shows "G d (snd (revoke cfg now sched raw d))"
proof -
  have "G d (snd (revokeById i now (sched 1 (sched 0 d))))" for i
    using revokeById assms trans by (metis prod.collapse)
  then show ?thesis using assms by (auto simp: revoke_def Let_def split: option.splits)
qed

lemma confirmTx:
  assumes s: "\<And>k e. G e (sched k e)"
  shows "G d (snd (confirmTx now sched h d))"
proof -
  note later' = sched_later [OF s]
  have own: "G a e \<Longrightarrow> G a (snd (claim i k now e))" for a e i k
    using delete_links trans by (simp add: claim_def Let_def)
  have undone: "G d (rollback e3 e)"
    if "createLink uid prov acct now (snd (claim i k now e3)) = (r, e)" "G d e3" for uid prov acct i k r e e3
    by (rule rolled_back [OF that(2)]) (auto intro!: own refl later(2) [OF that(1)])
  show ?thesis
    by (auto simp: confirmTx_def Let_def split: prod.splits option.splits sum.splits
        intro!: later' refl own elim!: undone later(2))
qed

lemma confirm:
  assumes s: "\<And>k e. G e (sched k e)"
  shows "G d (snd (confirm cfg now sched raw d))"
proof -
  have tx: "G d e" if "confirmTx now sched k d = (r, e)" for k r e
    using confirmTx [where sched = sched and d = d and now = now and h = k, OF s] that by simp
  show ?thesis
    by (auto simp: confirm_def Let_def split: prod.splits sum.splits option.splits bool.splits
        intro!: sched_later [OF s] refl dest!: tx)
qed

lemma issue:
  assumes s: "\<And>k e. G e (sched k e)"
  shows "G d (snd (issue sched inp d))"
proof -
  note later' = sched_later [OF s]
  have undone: "G a (rollback e2 e)" if "create_pending_link uid prov acct hash expires now
      (e2\<lparr>pendingLinks := del_where P (pendingLinks e2)\<rparr>) = (r, e)" "G a e2" for a uid prov acct hash expires now P r e e2
    by (rule rolled_back [OF that(2)]) (auto intro: later(5) [OF that(1)] delete_links)
  have made: "G a e" if "create_pending_link uid prov acct hash expires now
      (e2\<lparr>pendingLinks := del_where P (pendingLinks e2)\<rparr>) = (r, e)" "G a e2" for a uid prov acct hash expires now P r e e2
    by (rule later(5) [OF that(1) trans [OF that(2) delete_links]])
  have tx: "G a e" if "issueTx sched inp e0 = (r, e)" "G a e0" for a e0 r e
    using that(1) by (auto simp: issueTx_def Let_def split: prod.splits sum.splits
        intro!: later' that(2) elim!: undone made)
  show ?thesis
    by (auto simp: issue_def Let_def split: prod.splits sum.splits option.splits
        intro!: later' refl elim!: tx)
qed

lemma requestLink:
  assumes s: "\<And>k e. G e (sched k e)"
  shows "G (fst w) (fst (snd (requestLink cfg env now raw sched req w)))"
proof -
  have issued: "G (fst w) e" if "issue sched inp (fst w) = (r, e)" for inp r e
    using issue [where sched = sched and inp = inp and d = "fst w", OF s] that by simp
  have given_back: "G a e \<Longrightarrow> G a (snd (deleteIfCurrent i h e))" for a i h e
    using delete_links trans by (simp add: deleteIfCurrent_def Let_def)
  show ?thesis
    by (auto simp: requestLink_def Let_def split: prod.splits sum.splits issue_result.splits
        intro!: given_back sched_later [OF s] elim!: issued)
qed

lemma createAccount: "createAccount cfg now time suffix identity d = (r, d') \<Longrightarrow> G a d \<Longrightarrow> G a d'"
  by (auto simp: createAccount_def Let_def split: prod.splits sum.splits
      intro!: rolled_back refl elim!: later)

lemma resolve:
  assumes s: "\<And>k e. G e (sched k e)"
  shows "G (fst w) (fst (snd (resolve cfg env sched identity w)))"
proof -
  have s2: "G e (sched (k + 2) e)" for k e by (rule s)
  have asked: "G a (fst (snd (linkToExisting cfg env (\<lambda>k. sched (k + 2)) uid identity (e, q))))"
    if "G a e" for a uid e q
  proof -
    have req: "G a e'" if "requestLink tcfg qenv now raw (\<lambda>k. sched (k + 2)) req (e, q) = (r, e', q')"
      for tcfg qenv now raw req r e' q'
      using trans [OF \<open>G a e\<close> requestLink [where sched = "\<lambda>k. sched (k + 2)" and w = "(e, q)" and cfg = tcfg
            and env = qenv and now = now and raw = raw and req = req, OF s2, simplified fst_conv]] that by simp
    show ?thesis
      using that by (auto simp: linkToExisting_def andThen_def simp del: add_2_eq_Suc'
          split: prod.splits sum.splits elim!: req)
  qed
  show ?thesis
    by (auto simp: resolve_def Let_def simp del: add_2_eq_Suc' split: prod.splits sum.splits option.splits
        intro!: asked sched_later [OF s] refl elim!: createAccount)
qed

lemma handleOAuthCallback:
  assumes s: "\<And>k e. G e (sched k e)"
  shows "G (fst w) (fst (snd (handleOAuthCallback cfg env fresh sched identity w)))"
proof -
  have found: "G (fst w) e" if "resolve cfg env sched identity w = (r, e, q)" for r e q
    using resolve [where sched = sched and w = w and cfg = cfg and env = env and identity = identity, OF s] that by simp
  show ?thesis
    by (auto simp: handleOAuthCallback_def andThen_def split: prod.splits sum.splits account_resolution.splits
        intro!: sched_later [OF s] dest: found elim!: later(3))
qed

lemma getHello: "(\<And>k e. G e (sched k e)) \<Longrightarrow> G d (snd (getHello tr sched d))"
  by (simp add: getHello_def)

lemma confirmGoogleLink:
  assumes s: "\<And>k e. G e (sched k e)"
  shows "G d (snd (confirmGoogleLink cfg now sched token d))"
  using confirm [where sched = sched and d = d and cfg = "ac_tokens cfg" and now = now and raw = token, OF s]
  by (auto simp: confirmGoogleLink_def andThen_def split: prod.splits sum.splits)

text \<open>A request without a valid token reads, or calls the services above.\<close>

lemma perform_stranger:
  assumes I: "I (sv_db s)" and s: "\<And>k e. G e (mo_sched mo k e)" and no: "user_of (ag_principal a) = None"
  shows "G (sv_db s) (sv_db (snd (perform env mo r a s)))"
proof -
  have s2: "G d (mo_sched mo (Suc 0) (mo_sched mo 0 d))" for d using s trans by blast
  show ?thesis
    using no
    by (cases "ro_action r")
      (simp_all add: perform_def read_methods user_methods with_user_cases refl Let_def s s2 getHello [OF s]
        auth_register_def register [OF s] auth_login_def login [OF s] auth_confirmGoogleLink_def
        confirmGoogleLink [OF s] auth_refresh_def refresh_def rotate [OF I s] auth_logout_def logout_def
        revoke [OF s] google_callback_def handleOAuthCallback [OF s, where w = "(sv_db s, sv_queue s)", simplified]
        split: principal.split)
qed

lemma dispatch_stranger:
  assumes "I (sv_db s)" and "\<And>k e. G e (mo_sched mo k e)" and no: "JwtStrategy (se_verify env) (rq_bearer rq) = None"
  shows "G (sv_db s) (sv_db (snd (dispatch env mo rq s)))"
  using run_guard_stranger [OF no] perform_stranger [OF assms(1,2)]
  by (auto simp: dispatch_def run_method_def refl split: option.split admission.split sum.split)

end

section \<open>Content writes\<close>

locale content_history = account_history +
  assumes update_user: "update_user i data d = (u1, d') \<Longrightarrow> G d d'"
    and create_article: "create_article coll now adata d = (u2, d') \<Longrightarrow> G d d'"
    and update_article: "update_article coll now i udata v d = (u3, d') \<Longrightarrow> G d d'"
    and delete_article: "delete_article i d = (u4, d') \<Longrightarrow> G d d'"
    and create_comment: "create_comment now i uid body d = (u5, d') \<Longrightarrow> G d d'"
    and delete_comment: "delete_comment i d = (u6, d') \<Longrightarrow> G d d'"
    and favorite_connect: "favorite_connect coll collides slug uid d = (u7, d') \<Longrightarrow> G d d'"
    and favorite_disconnect: "favorite_disconnect coll slug uid d = (u8, d') \<Longrightarrow> G d d'"
    and follow: "follow collides uid target d = (u9, d') \<Longrightarrow> G d d'"
    and unfollow: "unfollow uid target d = (u10, d') \<Longrightarrow> G d d'"
begin

lemma after:
  "update_user i data d = (u1, d') \<Longrightarrow> G a d \<Longrightarrow> G a d'"
  "create_article coll now adata d = (u2, d') \<Longrightarrow> G a d \<Longrightarrow> G a d'"
  "update_article coll now i udata v d = (u3, d') \<Longrightarrow> G a d \<Longrightarrow> G a d'"
  "delete_article i d = (u4, d') \<Longrightarrow> G a d \<Longrightarrow> G a d'"
  "create_comment now i uid body d = (u5, d') \<Longrightarrow> G a d \<Longrightarrow> G a d'"
  "delete_comment i d = (u6, d') \<Longrightarrow> G a d \<Longrightarrow> G a d'"
  "favorite_connect coll collides slug uid d = (u7, d') \<Longrightarrow> G a d \<Longrightarrow> G a d'"
  "favorite_disconnect coll slug uid d = (u8, d') \<Longrightarrow> G a d \<Longrightarrow> G a d'"
  "follow collides uid target d = (u9, d') \<Longrightarrow> G a d \<Longrightarrow> G a d'"
  "unfollow uid target d = (u10, d') \<Longrightarrow> G a d \<Longrightarrow> G a d'"
  by (rule trans, assumption,
    erule update_user create_article update_article delete_article create_comment delete_comment
      favorite_connect favorite_disconnect follow unfollow)+

lemma snd_after: "(\<And>r d'. f d = (r, d') \<Longrightarrow> G a d') \<Longrightarrow> G a (snd (f d))"
  by (metis prod.collapse)

lemma createArticle:
  assumes "\<And>k e. G e (sched k e)"
  shows "G (app_db s) (app_db (snd (createArticle env now sched uid dto s)))"
  by (rule createArticle_keeps [where P = "G (app_db s)"])
    (auto intro: sched_later [OF assms] refl snd_after after(2))

lemma updateArticle:
  assumes "\<And>k e. G e (sched k e)"
  shows "G d (snd (updateArticle env now sched uid slug dto d))"
  by (rule updateArticle_keeps [where P = "G d"])
    (auto intro: sched_later [OF assms] refl snd_after after(3))

lemma removeArticle:
  assumes "\<And>k e. G e (sched k e)"
  shows "G d (snd (removeArticle sched uid slug d))"
  by (rule removeArticle_keeps [where P = "G d"])
    (auto intro: sched_later [OF assms] refl snd_after after(4))

lemma createComment:
  assumes "\<And>k e. G e (sched k e)"
  shows "G d (snd (createComment s3 now sched uid slug body d))"
  by (auto simp: createComment_def split: sum.splits prod.splits intro!: sched_later [OF assms] refl elim!: after(5))

lemma removeComment:
  assumes "\<And>k e. G e (sched k e)"
  shows "G d (snd (removeComment sched uid slug i d))"
  by (auto simp: removeComment_def Let_def split: sum.splits option.splits
      intro!: sched_later [OF assms] refl snd_after elim!: after(6))

lemma remove_by_int:
  assumes "\<And>k e. G e (sched k e)"
  shows "G d (snd (remove_by_int outOfRange sched uid slug i d))"
  by (auto simp: remove_by_int_def split: sum.splits intro!: removeComment sched_later [OF assms] refl assms)

lemma followUser:
  assumes "\<And>k e. G e (sched k e)"
  shows "G d (snd (followUser s3 sched collides uid un d))"
  by (auto simp: followUser_def Let_def split: sum.splits prod.splits
      intro!: sched_later [OF assms] refl elim!: after(9))

lemma unfollowUser:
  assumes "\<And>k e. G e (sched k e)"
  shows "G d (snd (unfollowUser s3 sched uid un d))"
  by (auto simp: unfollowUser_def Let_def split: sum.splits prod.splits
      intro!: sched_later [OF assms] refl elim!: after(10))

lemma favorite_write:
  assumes "\<And>k e. G e (sched k e)" and "\<And>r e. mutate d = (r, e) \<Longrightarrow> G d e"
  shows "G d (snd (favorite_write env sched uid slug mutate d))"
  using assms(2) by (auto simp: favorite_write_def Let_def split: sum.splits prod.splits
      intro!: sched_later [OF assms(1)])

lemma favorite:
  assumes s: "\<And>k e. G e (sched k e)"
  shows "G (app_db st) (app_db (snd (favorite env now sched collides uid slug st)))"
proof -
  have w: "G a d'" if "favorite_write env sched uid slug (favorite_connect coll collides slug uid) d = (r, d')"
      "G a d" for coll a d r d'
  proof -
    have "G d (snd (favorite_write env sched uid slug (favorite_connect coll collides slug uid) d))"
      by (rule favorite_write [OF s]) (rule favorite_connect)
    then show ?thesis using that trans by simp
  qed
  show ?thesis
    by (auto simp: favorite_def Let_def split: sum.splits prod.splits
        intro!: sched_later [OF s] refl elim!: w)
qed

lemma unfavorite:
  assumes s: "\<And>k e. G e (sched k e)"
  shows "G (app_db st) (app_db (snd (unfavorite env sched uid slug st)))"
proof -
  have w: "G a d'" if "favorite_write env sched uid slug (favorite_disconnect coll slug uid) d = (r, d')"
      "G a d" for coll a d r d'
  proof -
    have "G d (snd (favorite_write env sched uid slug (favorite_disconnect coll slug uid) d))"
      by (rule favorite_write [OF s]) (rule favorite_disconnect)
    then show ?thesis using that trans by simp
  qed
  show ?thesis
    by (auto simp: unfavorite_def Let_def split: sum.splits prod.splits
        intro!: sched_later [OF s] refl elim!: w)
qed

lemma atomicUpdateAvatar: "atomicUpdateAvatar uid data img d = (r, d') \<Longrightarrow> G a d \<Longrightarrow> G a d'"
  by (auto simp: atomicUpdateAvatar_def Let_def split: prod.splits sum.splits
      intro: rolled_back update_user after(1))

lemma updateUser:
  assumes s: "\<And>k e. G e (sched k e)"
  shows "G (me_db st) (me_db (snd (updateUser env uuid sched uid dto file st)))"
  by (auto simp: updateUser_def replace_avatar_def clear_avatar_def Let_def andThen_def
      split: prod.splits sum.splits option.splits
      intro!: sched_later [OF s] refl elim!: atomicUpdateAvatar after(1))

lemma perform_any:
  assumes I: "I (sv_db s)" and s: "\<And>k e. G e (mo_sched mo k e)"
  shows "G (sv_db s) (sv_db (snd (perform env mo r a s)))"
proof (cases "user_of (ag_principal a)")
  case None
  then show ?thesis by (rule perform_stranger [OF I s])
next
  case (Some uid)
  then obtain p where p: "ag_principal a = Authenticated_user p"
    by (auto simp: user_of_def split: principal.splits)
  have s2: "G d (mo_sched mo (Suc 0) (mo_sched mo 0 d))" for d using s trans by blast
  note app = createArticle [OF s, where s = "\<lparr>app_db = sv_db s, app_bus = sv_bus s\<rparr>", simplified]
    favorite [OF s, where st = "\<lparr>app_db = sv_db s, app_bus = sv_bus s\<rparr>", simplified]
    unfavorite [OF s, where st = "\<lparr>app_db = sv_db s, app_bus = sv_bus s\<rparr>", simplified]
    updateUser [OF s, where st = "\<lparr>me_db = sv_db s, me_bucket = sv_bucket s, me_pool = sv_pool s\<rparr>", simplified]
  show ?thesis
    by (cases "ro_action r")
      (simp_all add: p perform_def read_methods user_methods with_user_cases refl Let_def s s2 getHello [OF s]
        auth_register_def register [OF s] auth_login_def login [OF s] auth_confirmGoogleLink_def
        confirmGoogleLink [OF s] auth_refresh_def refresh_def rotate [OF I s] auth_logout_def logout_def
        revoke [OF s] google_callback_def app updateArticle [OF s] removeArticle [OF s] createComment [OF s]
        remove_by_int [OF s] followUser [OF s] unfollowUser [OF s] split: option.split sum.split)
qed

lemma dispatch_any:
  assumes "I (sv_db s)" and "\<And>k e. G e (mo_sched mo k e)"
  shows "G (sv_db s) (sv_db (snd (dispatch env mo rq s)))"
  using perform_any [OF assms]
  by (auto simp: dispatch_def run_method_def refl split: option.split admission.split sum.split)

lemma serve_any:
  assumes "I (sv_db s)" and "\<And>mo rq k e. (mo, rq) \<in> set rqs \<Longrightarrow> G e (mo_sched mo k e)"
  shows "G (sv_db s) (sv_db (snd (serve env rqs s)))"
  using assms
proof (induction rqs arbitrary: s)
  case (Cons q rqs)
  obtain mo rq where q: "q = (mo, rq)" by fastforce
  have step: "G (sv_db s) (sv_db (snd (dispatch env mo rq s)))"
    by (rule dispatch_any) (use Cons.prems q in auto)
  then have "G (sv_db (snd (dispatch env mo rq s))) (sv_db (snd (serve env rqs (snd (dispatch env mo rq s)))))"
    using Cons.IH Cons.prems inv by (metis list.set_intros(2))
  with step show ?case using trans by (auto simp: q Let_def case_prod_beta)
qed (simp add: refl)

end

section \<open>The constraints of the schema\<close>

definition evolves :: "db \<Rightarrow> db \<Rightarrow> bool" where
  "evolves d d' \<longleftrightarrow> (db_ok d \<longrightarrow> db_ok d' \<and> seqs_le d d')"

lemma evolves_seqs: "(db_ok d \<Longrightarrow> db_ok d') \<Longrightarrow> seqs d' = seqs d \<Longrightarrow> evolves d d'"
  by (simp add: evolves_def seqs_le_def)

lemma evolves_rolled_back: "evolves a d \<Longrightarrow> evolves d d' \<Longrightarrow> evolves a (rollback d d')"
  using db_ok_rollback [of d d'] seqs_le_trans [of a d d'] by (auto simp: evolves_def seqs_le_def rollback_def)

lemma evolves_rotateCommit:
  assumes "db_ok d" and found: "findByHash h d = Some stored" and "evolves d e"
    and run: "rotateCommit cfg now fresh stored e = (r, d')"
  shows "evolves e d'"
proof -
  have "rt_id stored < seqs d MRefreshToken"
    using found db_okD(6) [OF assms(1)] find_SomeD unfolding findByHash_def tokens_ok_def by fastforce
  then have "rt_id stored < seqs e MRefreshToken"
    using assms(1,3) unfolding evolves_def seqs_le_def by (metis less_le_trans)
  then show ?thesis using db_ok_rotateCommit [OF _ _ run] by (simp add: evolves_def)
qed

lemma evolves_edges:
  "db_ok (d\<lparr>userFavorites := es\<rparr>) \<Longrightarrow> select_after coll v i d (d\<lparr>userFavorites := es\<rparr>) = (r, d') \<Longrightarrow> evolves d d'"
  using db_ok_select_after [of d "d\<lparr>userFavorites := es\<rparr>" coll v i r d'] by (simp add: evolves_def seqs_le_def)

lemma by_slug_id: "by_slug slug d = Some a \<Longrightarrow> a_id a \<in> article_ids d"
  using find_SomeD unfolding by_slug_def article_ids_def by fastforce

lemma evolves_favorite_connect:
  assumes "favorite_connect coll collides slug uid d = (r, d')"
  shows "evolves d d'"
proof (cases "db_ok d")
  case ok: True
  have add: "db_ok (d\<lparr>userFavorites := userFavorites d @ [(a_id a, uid)]\<rparr>)"
    if "by_slug slug d = Some a" "uid \<in> user_ids d" "(a_id a, uid) \<notin> set (userFavorites d)" for a
    by (rule db_ok_edges [OF ok]) (use that by_slug_id db_okD(8) [OF ok] in \<open>auto simp: edges_ok_def\<close>)
  have same: "evolves d e" if "select_after coll v i d d = (r, e)" for v i r e
    using db_ok_select_after [OF ok ok _ that] by (simp add: evolves_def)
  show ?thesis
    using assms by (auto simp: favorite_connect_def evolves_seqs split: option.splits if_splits
        dest: same evolves_edges [OF add])
qed (simp add: evolves_def)

lemma evolves_favorite_disconnect:
  assumes "favorite_disconnect coll slug uid d = (r, d')"
  shows "evolves d d'"
proof (cases "db_ok d")
  case ok: True
  have del: "db_ok (d\<lparr>userFavorites := del_where P (userFavorites d)\<rparr>)" for P
    by (rule db_ok_edges [OF ok]) (use db_okD(8) [OF ok] in \<open>auto simp: edges_ok_def del_where_def\<close>)
  show ?thesis
    using assms by (auto simp: favorite_disconnect_def evolves_seqs split: option.splits dest: evolves_edges [OF del])
qed (simp add: evolves_def)

lemma evolves_follow: "follow collides uid target d = (r, d') \<Longrightarrow> evolves d d'"
  using db_okD(8) [of d] db_ok_follows [of d "userFollows d @ [(uid, target)]"]
  by (auto simp: follow_def edges_ok_def split: if_splits intro!: evolves_seqs)

lemma evolves_unfollow: "unfollow uid target d = (r, d') \<Longrightarrow> evolves d d'"
  using db_okD(8) [of d] db_ok_follows [of d "del_where (\<lambda>e. e = (uid, target)) (userFollows d)"]
  by (auto simp: unfollow_def edges_ok_def del_where_def split: if_splits intro!: evolves_seqs)

lemma evolves_create_comment: "create_comment now aid uid body d = (r, d') \<Longrightarrow> evolves d d'"
  using db_ok_create_comment [of d now aid uid body]
  by (auto simp: evolves_def create_comment_def Let_def seqs_le_def bump_def split: if_splits sum.splits)

interpretation constraints: account_history db_ok evolves
proof unfold_locales
  show "evolves a d" if "evolves a b" "evolves b d" for a b d
    using that seqs_le_trans by (auto simp: evolves_def)
  show "evolves d d'" if "revokeById i now d = (r, d')" for i now d r d'
    using that db_ok_revokeById [of d i now] by (auto simp: revokeById_def split: if_splits intro!: evolves_seqs)
  show "evolves d (revokeAllForUser uid now d)" for d uid now
    using db_ok_revokeAll by (intro evolves_seqs) (auto simp: revokeAllForUser_def)
  show "evolves a (rollback d d')" if "evolves a d" "evolves d d'" for a d d'
    using that by (rule evolves_rolled_back)
qed (auto simp: evolves_def seqs_le_def db_ok_del_links
    dest: db_ok_create_user db_ok_createLink db_ok_createTokenPair db_ok_create_pending_link
      evolves_rotateCommit)

interpretation constraints: content_history db_ok evolves
proof unfold_locales
  show "evolves d d'" if "update_user i data d = (r, d')" for i data d r d'
    using that db_ok_update_user [OF that]
    by (auto simp: evolves_def update_user_def seqs_le_def split: option.splits if_splits)
  show "evolves d d'" if "delete_article i d = (r, d')" for i d r d'
    using that db_ok_delete_article [OF that]
    by (auto simp: evolves_def delete_article_def seqs_le_def split: if_splits)
  show "evolves d d'" if "delete_comment i d = (r, d')" for i d r d'
    using that db_ok_delete_comment [of d i]
    by (auto simp: evolves_def delete_comment_def seqs_le_def split: if_splits)
  show "evolves d d'" if "create_article coll now data d = (r, d')" for coll now data d r d'
    using db_ok_create_article [OF that] by (simp add: evolves_def)
  show "evolves d d'" if "update_article coll now i data v d = (r, d')" for coll now i data v d r d'
    using db_ok_update_article [OF that] by (simp add: evolves_def)
qed (blast intro: evolves_create_comment evolves_follow evolves_unfollow evolves_favorite_connect
    evolves_favorite_disconnect)+

section \<open>What a stranger cannot change\<close>

text \<open>Articles, comments, tags, favourites, follows, and every account there is.\<close>

definition content_kept :: "db \<Rightarrow> db \<Rightarrow> bool" where
  "content_kept d d' \<longleftrightarrow> articles d' = articles d \<and> cmts d' = cmts d \<and> tags d' = tags d
     \<and> articleTags d' = articleTags d \<and> userFavorites d' = userFavorites d \<and> userFollows d' = userFollows d
     \<and> set (users d) \<subseteq> set (users d')"

lemma content_kept_accounts:
  "articles d' = articles d \<Longrightarrow> cmts d' = cmts d \<Longrightarrow> tags d' = tags d \<Longrightarrow> articleTags d' = articleTags d \<Longrightarrow>
   userFavorites d' = userFavorites d \<Longrightarrow> userFollows d' = userFollows d \<Longrightarrow> users d' = users d \<Longrightarrow> content_kept d d'"
  by (simp add: content_kept_def)

interpretation strangers: account_history "\<lambda>_. True" content_kept
proof unfold_locales
  show "content_kept d d'" if "create_user em un pw bio d = (r, d')" for em un pw bio d r d'
    using that by (auto simp: content_kept_def create_user_def Let_def bump_def split: if_splits)
  show "content_kept d d'" if "createLink uid prov acct now d = (r, d')" for uid prov acct now d r d'
    using that by (auto simp: content_kept_def createLink_def create_auth_provider_def Let_def bump_def andThen_def
        split: if_splits prod.splits sum.splits)
  show tp: "content_kept d d'" if "createTokenPair cfg uid now fresh d = (r, d')" for cfg uid now fresh d r d'
    using that by (auto simp: content_kept_def createTokenPair_def create_refresh_token_def Let_def bump_def andThen_def
        split: if_splits prod.splits sum.splits)
  show "content_kept d d'" if "create_pending_link uid prov acct hash expires now d = (r, d')"
    for uid prov acct hash expires now d r d'
    using that by (auto simp: content_kept_def create_pending_link_def Let_def bump_def split: if_splits)
  show "content_kept d d'" if "revokeById i now d = (r, d')" for i now d r d'
    using that by (auto simp: content_kept_def revokeById_def split: if_splits)
  show "content_kept e d'" if "rotateCommit cfg now fresh stored e = (r, d')" for cfg now fresh stored e r d'
  proof -
    obtain r1 d1 where c: "createTokenPair cfg (rt_userId stored) now fresh e = (r1, d1)" by fastforce
    from tp [OF c] that show ?thesis
      by (auto simp: rotateCommit_def c content_kept_def rollback_def markAsUsed_def Let_def subset_iff
          split: sum.splits if_splits)
  qed
qed (auto simp: content_kept_def rollback_def revokeAllForUser_def)

end
