(* ===== verification/DemoSeed.thy ===== *)
theory DemoSeed
  imports AuthService ArticleStore Validation
begin

text \<open>
  The demo data (\<open>demo-seed/demo-seed.service.ts\<close>, \<open>prisma/seed.ts\<close>): a password that must satisfy the bounds of a
  registration, one user and two articles, each written with \<open>upsert\<close>. The script has the database to itself.
\<close>

section \<open>The data\<close>

definition DEMO_ERROR :: jstr where "DEMO_ERROR = js ''DEMO_USER_PASSWORD is not configured correctly.''"
definition DEMO_EMAIL :: jstr where "DEMO_EMAIL = js ''demo@example.com''"
definition DEMO_USERNAME :: jstr where "DEMO_USERNAME = js ''demo''"
definition DEMO_BIO :: jstr where "DEMO_BIO = js ''Demo user for testing''"

record seed_article =
  sa_slug :: jstr
  sa_title :: jstr
  sa_description :: jstr
  sa_body :: jstr

definition DEMO_ARTICLES :: "seed_article list" where
  "DEMO_ARTICLES =
     [\<lparr>sa_slug = js ''prisma-adds-support-for-mongodb'', sa_title = js ''Prisma Adds Support for MongoDB'',
       sa_description = js ''We are excited to share that today's Prisma ORM release adds stable support for MongoDB!'',
       sa_body = js ''Support for MongoDB has been one of the most requested features since the initial release of...''\<rparr>,
      \<lparr>sa_slug = js ''whats-new-in-prisma-q1-22'', sa_title = js ''What's new in Prisma? (Q1/22)'',
       sa_description = js ''Learn about everything in the Prisma ecosystem and community from January to March 2022.'',
       sa_body = js ''Our engineers have been working hard, issuing new releases with many improvements...''\<rparr>]"

section \<open>The operations\<close>

definition demo_error :: thrown where "demo_error = JsError DEMO_ERROR"

definition validateDemoPassword :: "validator_env \<Rightarrow> jstr option \<Rightarrow> thrown + jstr" where
  "validateDemoPassword env password = (case password of
     None \<Rightarrow> Inl demo_error
   | Some p \<Rightarrow> if p = [] \<or> ve_length env p < PASSWORD_MIN \<or> PASSWORD_MAX < ve_length env p
              then Inl demo_error else Inr p)"

definition seed_user_update :: "jstr \<Rightarrow> user \<Rightarrow> user" where
  "seed_user_update hashed u = u\<lparr>u_username := DEMO_USERNAME, u_password := Some hashed, u_bio := Some DEMO_BIO\<rparr>"

definition upsert_user :: "jstr \<Rightarrow> (thrown, user, db) comp" where
  "upsert_user hashed d = (case find (\<lambda>u. u_email u = DEMO_EMAIL) (users d) of
     None \<Rightarrow> create_user DEMO_EMAIL DEMO_USERNAME (Some hashed) (Some DEMO_BIO) d
   | Some u \<Rightarrow>
       if list_ex (\<lambda>v. u_id v \<noteq> u_id u \<and> u_username v = DEMO_USERNAME) (users d)
       then (Inl (unique_violation [''username'']), d)
       else (Inr (seed_user_update hashed u),
             d\<lparr>users := upd_where (\<lambda>v. u_id v = u_id u) (seed_user_update hashed) (users d)\<rparr>))"

definition seed_article_update :: "int \<Rightarrow> nat \<Rightarrow> seed_article \<Rightarrow> article \<Rightarrow> article" where
  "seed_article_update now author sa a = a\<lparr>a_slug := sa_slug sa, a_title := sa_title sa,
     a_description := sa_description sa, a_body := sa_body sa, a_updatedAt := now, a_authorId := author\<rparr>"

definition upsert_article :: "int \<Rightarrow> nat \<Rightarrow> seed_article \<Rightarrow> (thrown, unit, db) comp" where
  "upsert_article now author sa d =
     (if author \<notin> user_ids d then (Inl (PrismaKnown ''P2003'' TargetUndefined []), d)
      else case by_slug (sa_slug sa) d of
        None \<Rightarrow> (Inr (), (bump MArticle d)\<lparr>articles := articles d @
            [\<lparr>a_id = seqs d MArticle, a_slug = sa_slug sa, a_title = sa_title sa, a_description = sa_description sa,
              a_body = sa_body sa, a_createdAt = now, a_updatedAt = now, a_authorId = author\<rparr>]\<rparr>)
      | Some a \<Rightarrow> (Inr (), d\<lparr>articles := upd_where (\<lambda>b. a_id b = a_id a) (seed_article_update now author sa) (articles d)\<rparr>))"

fun seed_articles :: "int \<Rightarrow> nat \<Rightarrow> seed_article list \<Rightarrow> (thrown, unit, db) comp" where
  "seed_articles now author [] d = (Inr (), d)"
| "seed_articles now author (sa # sas) d =
     andThen (upsert_article now author sa d) (\<lambda>_ d'. seed_articles now author sas d')"

definition seedDemoData :: "auth_config \<Rightarrow> int \<Rightarrow> jstr \<Rightarrow> (thrown, unit, db) comp" where
  "seedDemoData cfg now demoPassword d =
     andThen (upsert_user (hashPassword cfg demoPassword) d) (\<lambda>u d'. seed_articles now (u_id u) DEMO_ARTICLES d')"

text \<open>The script: what it prints and the code it exits with.\<close>

definition seed_main :: "auth_config \<Rightarrow> validator_env \<Rightarrow> int \<Rightarrow> jstr option \<Rightarrow> db \<Rightarrow> (jstr \<times> nat) \<times> db" where
  "seed_main cfg env now password d =
     (case (case validateDemoPassword env password of Inl e \<Rightarrow> (Inl e, d) | Inr p \<Rightarrow> seedDemoData cfg now p d) of
        (Inl e, d') \<Rightarrow> ((if e = demo_error then DEMO_ERROR else js ''Demo seed failed.'', 1), d')
      | (Inr _, d') \<Rightarrow> ((js ''Demo seed completed.'', 0), d'))"

section \<open>Lemmas\<close>

lemma seed_user_update_simps [simp]:
  "u_id (seed_user_update h u) = u_id u" "u_email (seed_user_update h u) = u_email u"
  "u_username (seed_user_update h u) = DEMO_USERNAME" "u_password (seed_user_update h u) = Some h"
  by (simp_all add: seed_user_update_def)

lemma seed_article_update_simps [simp]:
  "a_id (seed_article_update now author sa a) = a_id a"
  "a_slug (seed_article_update now author sa a) = sa_slug sa"
  "a_title (seed_article_update now author sa a) = sa_title sa"
  "a_authorId (seed_article_update now author sa a) = author"
  by (simp_all add: seed_article_update_def)

text \<open>The name is free, or it is the demo account's own.\<close>

definition name_reserved :: "db \<Rightarrow> bool" where
  "name_reserved d \<longleftrightarrow> list_all (\<lambda>v. u_username v = DEMO_USERNAME \<longrightarrow> u_email v = DEMO_EMAIL) (users d)"

lemma upsert_user_ok:
  assumes ok: "db_ok d" and nm: "name_reserved d"
  obtains u d' where "upsert_user h d = (Inr u, d')" "db_ok d'" "u \<in> set (users d')" "u_email u = DEMO_EMAIL"
    "u_username u = DEMO_USERNAME" "u_password u = Some h" "articles d' = articles d"
    "DEMO_EMAIL \<in> u_email ` set (users d) \<Longrightarrow> map u_id (users d') = map u_id (users d)"
proof (cases "find (\<lambda>u. u_email u = DEMO_EMAIL) (users d)")
  case None
  then have free: "DEMO_EMAIL \<notin> u_email ` set (users d)" by (auto simp: find_None_iff)
  then have free': "DEMO_USERNAME \<notin> u_username ` set (users d)"
    using nm by (auto simp: name_reserved_def list_all_iff image_iff)
  let ?u = "\<lparr>u_id = seqs d MUser, u_email = DEMO_EMAIL, u_username = DEMO_USERNAME, u_password = Some h,
      u_image = None, u_bio = Some DEMO_BIO\<rparr>"
  have eq: "upsert_user h d = (Inr ?u, (bump MUser d)\<lparr>users := users d @ [?u]\<rparr>)"
    using None free free' by (simp add: upsert_user_def create_user_def Let_def)
  show ?thesis
    by (rule that [OF eq]) (use free free' ok_add_user [OF ok, of ?u] in simp_all)
next
  case (Some u)
  then have u: "u \<in> set (users d)" "u_email u = DEMO_EMAIL" by (auto dest: find_SomeD)
  have us: "uniq u_id (users d)" "uniq u_email (users d)" "uniq u_username (users d)"
      "\<forall>v \<in> set (users d). u_id v < seqs d MUser"
    using db_okD(1) [OF ok] by (simp_all add: users_ok_def)
  have own: "u_id v = u_id u" if "v \<in> set (users d)" "u_username v = DEMO_USERNAME" for v
  proof -
    have "u_email v = u_email u" using nm that u(2) by (simp add: name_reserved_def list_all_iff)
    then show ?thesis using uniqD [OF us(2) that(1) u(1)] by simp
  qed
  let ?us = "upd_where (\<lambda>v. u_id v = u_id u) (seed_user_update h) (users d)"
  have eq: "upsert_user h d = (Inr (seed_user_update h u), d\<lparr>users := ?us\<rparr>)"
    using Some own by (auto simp: upsert_user_def list_ex_iff)
  have "uniq u_username ?us"
    by (rule uniq_upd_one [OF us(1,3), of "u_id u" DEMO_USERNAME]) (use own in auto)
  then have "users_ok (d\<lparr>users := ?us\<rparr>)"
    using us(1,2,4) by (auto simp: users_ok_def uniq_upd set_upd_where)
  then have "db_ok (d\<lparr>users := ?us\<rparr>)"
    by (intro db_ok_put_users [OF ok]) (simp_all add: map_key_upd_where)
  then show ?thesis
    by (intro that [OF eq]) (use u in \<open>auto simp: set_upd_where map_key_upd_where\<close>)
qed

text \<open>The article of the seed is there afterwards, under the author; articles with other slugs are as they were.\<close>

definition holds_article :: "nat \<Rightarrow> seed_article \<Rightarrow> db \<Rightarrow> bool" where
  "holds_article author sa d \<longleftrightarrow>
     list_ex (\<lambda>a. a_slug a = sa_slug sa \<and> a_title a = sa_title sa \<and> a_authorId a = author) (articles d)"

lemma upsert_article_ok:
  assumes ok: "db_ok d" and author: "author \<in> user_ids d"
  obtains d' where "upsert_article now author sa d = (Inr (), d')" "db_ok d'" "users d' = users d"
    "holds_article author sa d'"
    "\<And>a. a \<in> set (articles d) \<Longrightarrow> a_slug a \<noteq> sa_slug sa \<Longrightarrow> a \<in> set (articles d')"
    "sa_slug sa \<in> a_slug ` set (articles d) \<Longrightarrow> map a_slug (articles d') = map a_slug (articles d)"
    "a_slug ` set (articles d) \<subseteq> a_slug ` set (articles d')"
proof (cases "by_slug (sa_slug sa) d")
  case None
  then have free: "sa_slug sa \<notin> a_slug ` set (articles d)" by (auto simp: by_slug_def find_None_iff)
  let ?a = "\<lparr>a_id = seqs d MArticle, a_slug = sa_slug sa, a_title = sa_title sa, a_description = sa_description sa,
      a_body = sa_body sa, a_createdAt = now, a_updatedAt = now, a_authorId = author\<rparr>"
  have eq: "upsert_article now author sa d = (Inr (), (bump MArticle d)\<lparr>articles := articles d @ [?a]\<rparr>)"
    using None author by (simp add: upsert_article_def)
  have "db_ok ((bump MArticle d)\<lparr>articles := articles d @ [?a]\<rparr>)"
    by (rule db_ok_add_article [OF ok]) (use free author in simp_all)
  then show ?thesis by (intro that [OF eq]) (use free in \<open>auto simp: holds_article_def\<close>)
next
  case (Some a)
  then have a: "a \<in> set (articles d)" "a_slug a = sa_slug sa" by (auto simp: by_slug_def dest: find_SomeD)
  have ao: "uniq a_id (articles d)" "uniq a_slug (articles d)"
      "\<forall>b \<in> set (articles d). a_id b < seqs d MArticle \<and> a_authorId b \<in> user_ids d"
    using db_okD(2) [OF ok] by (simp_all add: articles_ok_def)
  have same: "b = a" if "b \<in> set (articles d)" "a_id b = a_id a \<or> a_slug b = sa_slug sa" for b
    using uniqD [OF ao(1) that(1) a(1)] uniqD [OF ao(2) that(1) a(1)] that(2) a(2) by auto
  let ?as = "upd_where (\<lambda>b. a_id b = a_id a) (seed_article_update now author sa) (articles d)"
  have eq: "upsert_article now author sa d = (Inr (), d\<lparr>articles := ?as\<rparr>)"
    using Some author by (simp add: upsert_article_def)
  have slugs: "map a_slug ?as = map a_slug (articles d)"
    using same a(2) by (fastforce simp: upd_where_def)
  then have "uniq a_slug ?as" using ao(2) by (simp add: uniq_def)
  then have "articles_ok (d\<lparr>articles := ?as\<rparr>)"
    using ao(1,3) author by (auto simp: articles_ok_def uniq_upd set_upd_where user_ids_def)
  then have "db_ok (d\<lparr>articles := ?as\<rparr>)"
    by (intro db_ok_put_articles [OF ok]) (simp_all add: map_key_upd_where)
  moreover have "b \<in> set ?as" if "b \<in> set (articles d)" "a_slug b \<noteq> sa_slug sa" for b
    using same [of b] that a(2) by (auto simp: set_upd_where image_iff)
  moreover have "a_slug ` set (articles d) \<subseteq> a_slug ` set ?as"
    using arg_cong [OF slugs, of set] by simp
  moreover have "holds_article author sa (d\<lparr>articles := ?as\<rparr>)"
    using a(1) by (auto simp: holds_article_def list_ex_iff set_upd_where intro!: bexI [of _ "seed_article_update now author sa a"])
  ultimately show ?thesis using slugs by (intro that [OF eq]) simp_all
qed

lemma seed_articles_ok:
  assumes "db_ok d" and "author \<in> user_ids d" and "distinct (map sa_slug sas)"
  obtains d' where "seed_articles now author sas d = (Inr (), d')" "db_ok d'" "users d' = users d"
    "\<And>sa. sa \<in> set sas \<Longrightarrow> holds_article author sa d'"
    "\<And>a. a \<in> set (articles d) \<Longrightarrow> a_slug a \<notin> sa_slug ` set sas \<Longrightarrow> a \<in> set (articles d')"
    "sa_slug ` set sas \<subseteq> a_slug ` set (articles d) \<Longrightarrow> map a_slug (articles d') = map a_slug (articles d)"
  using assms
proof (induction sas arbitrary: d thesis)
  case (Cons sa sas)
  obtain d1 where d1: "upsert_article now author sa d = (Inr (), d1)" "db_ok d1" "users d1 = users d"
    "holds_article author sa d1"
    "\<And>a. a \<in> set (articles d) \<Longrightarrow> a_slug a \<noteq> sa_slug sa \<Longrightarrow> a \<in> set (articles d1)"
    "sa_slug sa \<in> a_slug ` set (articles d) \<Longrightarrow> map a_slug (articles d1) = map a_slug (articles d)"
    "a_slug ` set (articles d) \<subseteq> a_slug ` set (articles d1)"
    using upsert_article_ok [OF Cons.prems(2,3)] by metis
  have author: "author \<in> user_ids d1" and dist: "distinct (map sa_slug sas)" "sa_slug sa \<notin> sa_slug ` set sas"
    using Cons.prems(3,4) d1(3) by (simp_all add: user_ids_def)
  obtain d2 where d2: "seed_articles now author sas d1 = (Inr (), d2)" "db_ok d2" "users d2 = users d1"
    "\<And>sa. sa \<in> set sas \<Longrightarrow> holds_article author sa d2"
    "\<And>a. a \<in> set (articles d1) \<Longrightarrow> a_slug a \<notin> sa_slug ` set sas \<Longrightarrow> a \<in> set (articles d2)"
    "sa_slug ` set sas \<subseteq> a_slug ` set (articles d1) \<Longrightarrow> map a_slug (articles d2) = map a_slug (articles d1)"
    using Cons.IH [OF _ d1(2) author dist(1)] by metis
  have "holds_article author sa d2"
    using d1(4) d2(5) dist(2) unfolding holds_article_def list_ex_iff by metis
  moreover have "seed_articles now author (sa # sas) d = (Inr (), d2)"
    by (simp add: d1(1) d2(1) andThen_def)
  moreover have "map a_slug (articles d2) = map a_slug (articles d)"
    if "sa_slug ` set (sa # sas) \<subseteq> a_slug ` set (articles d)"
  proof -
    have "sa_slug sa \<in> a_slug ` set (articles d)" "sa_slug ` set sas \<subseteq> a_slug ` set (articles d)"
      using that by simp_all
    then show ?thesis using d1(6,7) d2(6) by (metis subset_trans)
  qed
  moreover have "a \<in> set (articles d2)" if "a \<in> set (articles d)" "a_slug a \<notin> sa_slug ` set (sa # sas)" for a
    using that d1(5) d2(5) by simp
  ultimately show ?case
    using Cons.prems(1) [of d2] d2(2,3,4) d1(3) by (metis (no_types, lifting) set_ConsD)
qed (simp add: seed_articles.simps)



end
