(* ===== verification/Spec2Isabelle.thy ===== *)
theory Spec2Isabelle
  imports Modules Logger History DemoSeed
begin

text \<open>
  \<^bold>\<open>RealWorld API: a model of the NestJS backend and the theorems that make it correct.\<close>

  The program under \<open>src/src\<close> is the backend of a blogging platform: HTTP controllers over services over
  repositories over a PostgreSQL database reached through Prisma, with refresh-token sessions, Google sign-in, a
  Kafka topic per event, a BullMQ mail queue in Redis, an S3 bucket for avatars, a Piscina pool that crops
  images with sharp, and a gRPC service that previews texts.

  \<^bold>\<open>How a request runs\<close>, and which theory holds each step:

  \<^item> \<open>Endpoints\<close>: the route table of the application, one list of records per controller class, with the method, the path,
    the guard, the pipe's DTO, the interceptor, the success status and message and the documented error statuses
    of every handler; how a path is matched, the guards and the parameter decorators.
  \<^item> \<open>Validation\<close>: the DTO classes as lists of fields with their checks, the global pipe and the faults it reports.
  \<^item> \<open>Server\<close>: the state of the process (database, brokers, bucket, mailbox), the handler of every route and
    \<open>dispatch\<close>: guard, interceptors, pipes, handler, envelope or exception filter, in the order Nest runs them.
    \<open>serve\<close> runs a list of requests.
  \<^item> \<open>HttpErrors\<close>: the exceptions, the global filter (\<open>all-exceptions.filter.ts\<close>), the response envelope.

  \<^bold>\<open>The services\<close>:

  \<^item> \<open>Account\<close>, \<open>Tokens\<close>, \<open>ProviderLink\<close>, \<open>AuthService\<close>: accounts, their providers and generated usernames; issue,
    rotation and reuse detection of refresh tokens; the e-mailed confirmation of a Google link; registration,
    login, the OAuth callback (\<open>auth/\<close>).
  \<^item> \<open>Users\<close>, \<open>Images\<close>, \<open>FileStorage\<close>: profile updates and avatar replacement, the worker task with the pool around it,
    the storage driver (\<open>users/\<close>, \<open>image-processing/\<close>, \<open>worker-pool/\<close>, \<open>file-storage/\<close>).
  \<^item> \<open>ArticleStore\<close>, \<open>ArticleSlug\<close>, \<open>Articles\<close>, \<open>Pagination\<close>: the article repository with the select for one viewer, slug
    candidates and their retry loop, the article service and the \<open>paginate\<close> extension (\<open>articles/\<close>, \<open>prisma/\<close>).
  \<^item> \<open>Comments\<close>, \<open>Favorites\<close>, \<open>Profiles\<close>: the other content (\<open>comments/\<close>, \<open>favorites/\<close>, \<open>profiles/\<close>).
  \<^item> \<open>Events\<close>, \<open>Notifications\<close>, \<open>Email\<close>, \<open>Preview\<close>: the Kafka producer and consumer, the mail queue with its worker, the
    preview analyzer with its gRPC client (\<open>kafka/\<close>, \<open>email/\<close>, \<open>content-preview/\<close>).
  \<^item> \<open>Modules\<close>: the modules of the application, the constructor dependencies of every class and how Nest resolves
    them; \<open>Logger\<close>: the logger with its files.
  \<^item> \<open>Config\<close>: the readers of the environment (\<open>*.config.ts\<close>, the constructors that read it, \<open>main.ts\<close>) and what they
    refuse; \<open>DemoSeed\<close>: the demo data (\<open>demo-seed/\<close>); \<open>EmailHtml\<close>: the HTML of the confirmation mail.
  \<^item> \<open>Database\<close> is the schema of \<open>schema.prisma\<close>: a record of tables (lists of rows) with the implicit join tables, the
    constraints (\<open>db_ok\<close>) and the cascades; \<open>JsText\<close> holds the string and JSON operations of JavaScript the code uses;
    \<open>Prelude\<close> the shared lemmas; \<open>History\<close> the two contracts every service keeps and their composition
    over the route table.

  \<^bold>\<open>Conventions.\<close>  A class or interface is a record, a union a datatype, an object that is indexed by name a map. A method
  that writes takes the state and returns the result and the new state; a thrown exception is \<open>Inl\<close>, a value
  \<open>Inr\<close>, so each throw and early return is a branch. Text is a list of UTF-16 code units; \<open>js\<close> reads a literal.
  Where a handler awaits several database calls, other requests may run in between: the handler takes the
  interference as a function \<open>sched\<close> from the step's number and the database to the database, and the theorems state what
  they ask of it (\<open>\<lambda>_ d. d\<close> is a quiet database). A call in one transaction is one step.

  \<^bold>\<open>Parameters.\<close>  Code outside the repository is an argument: bcrypt, the JWT library, sharp, the S3 client, the Kafka
  and gRPC channels, the SMTP transport, Unicode decomposition and the class-validator e-mail syntax, collected
  in environment records with the name of the service. No law is assumed of them but the ones a theorem names.

  \<^bold>\<open>What the lemmas show.\<close>  Per component: each operation keeps \<open>db_ok\<close>; what it returns on each branch; a safety
  property of the sessions, the links, the articles; which races end how. \<open>History\<close> proves two contracts once, in locales:
  \<open>account_history\<close> (what holds of every request, or of requests without a token) and \<open>content_history\<close> (what holds when the
  content services run too); they are interpreted on the constraints of the schema and on the content. This theory
  holds what spans components: no request breaks a constraint; strangers change no content; routes that write
  demand a token; a published article is served, and mailed to the followers; accepted arguments are typed.

  \<^bold>\<open>Bounds and fuel.\<close>  Loops over data recurse on it. The slug loop runs at most \<open>SLUG_GENERATION_MAX_RETRIES\<close> times, as
  in the code. The listing of a bucket asks for the next page as
  long as one is promised: it is a partial function whose value \<open>None\<close> means that it never returns, and \<open>listing_ends\<close>
  shows that it returns on every finite chain of pages. The construction of the providers (\<open>build\<close>) recurses on the number
  of classes that still wait, which every sweep that goes on reduces; the re-exports of modules are followed as deep as
  there are modules. Numbers are unbounded: ids, counts and milliseconds stay far below \<open>2^53\<close>.

  \<^bold>\<open>Not modelled.\<close>  The generated Prisma client (\<open>src/generated\<close>), the Swagger response classes and decorators, the
  message catalogue, the lines the services log (the exception filter's are kept) and what is only handed to a library:
  connections, the scheduler, the API document, Express.
\<close>

section \<open>Every request\<close>

text \<open>C1: No sequence of requests, whatever they are and whatever runs beside them, breaks a constraint of the schema:
  unique indexes, foreign keys, the order of the sequences. What runs beside may itself be anything that keeps
  the constraints and only moves the sequences forward.\<close>

theorem requests_keep_the_constraints:
  assumes "db_ok (sv_db s)" and "\<And>mo rq k d. (mo, rq) \<in> set rqs \<Longrightarrow> evolves d (mo_sched mo k d)"
  shows "db_ok (sv_db (snd (serve env rqs s)))"
  using constraints.serve_any [OF assms] assms(1) by (simp add: evolves_def)

theorem requests_keep_the_constraints_witness:
  "db_ok (sv_db (snd (serve demo_server_env
     [(demo_moment, demo_request DELETE [''v1'', ''articles'', ''hi''] (Some (js ''ann''))),
      (demo_moment, demo_request GET [''health''] None)] demo_server)))"
  by (rule requests_keep_the_constraints)
    (auto simp: demo_server_def demo_article_db_ok demo_moment_def evolves_def)

text \<open>C2: A request without a valid token changes no article, comment, tag, favourite or follow and no existing
  account, sends no event and touches no stored file, whatever route it takes.\<close>

theorem strangers_change_no_content:
  assumes "JwtStrategy (se_verify env) (rq_bearer rq) = None"
    and "\<And>k d. content_kept d (mo_sched mo k d)"
  shows "content_kept (sv_db s) (sv_db (snd (dispatch env mo rq s)))
     \<and> sv_bus (snd (dispatch env mo rq s)) = sv_bus s \<and> sv_bucket (snd (dispatch env mo rq s)) = sv_bucket s"
proof -
  have "content_kept (sv_db s) (sv_db (snd (dispatch env mo rq s)))"
    by (rule strangers.dispatch_stranger) (use assms in auto)
  moreover have "sv_bus (snd (dispatch env mo rq s)) = sv_bus s \<and> sv_bucket (snd (dispatch env mo rq s)) = sv_bucket s"
    using run_guard_stranger [OF assms(1)] stranger_frame
    by (auto simp: dispatch_def run_method_def split: option.split admission.split sum.split)
  ultimately show ?thesis by blast
qed

theorem strangers_change_no_content_witness:
  "content_kept demo_article_db (sv_db (snd (dispatch demo_server_env demo_moment
     (demo_request DELETE [''v1'', ''articles'', ''hi''] (Some (js ''bob''))) demo_server)))"
  using strangers_change_no_content [of demo_server_env "demo_request DELETE [''v1'', ''articles'', ''hi''] (Some (js ''bob''))"
      demo_moment demo_server]
  by (simp add: JwtStrategy_def demo_server_env_def demo_request_def demo_moment_def demo_server_def content_kept_def)

text \<open>C3: Every route that writes, the ones that hand out, renew or end a session and confirm a link apart, demands a
  valid token: without one the answer is the documented 401, before the upload is received or a value is
  validated, and nothing at all has happened.\<close>

theorem writes_demand_a_token:
  assumes "find_route (se_google env) (rq_method rq) (rq_path rq) = Some r"
    and "rq_method rq \<noteq> GET" and "ro_action r \<notin> account_actions"
    and "JwtStrategy (se_verify env) (rq_bearer rq) = None"
  shows "dispatch env mo rq s =
      (Failure \<lparr>statusCode = 401, message = OneMessage (Text (js ''Unauthorized'')), errors = None\<rparr>, s)
    \<and> 401 \<in> set (ro_documented r)"
proof
  have "r \<in> set (AppModule_routes (se_google env)) \<and> route_matches (rq_method rq) (rq_path rq) r"
    using assms(1) unfolding find_route_def by (rule find_SomeD)
  then have r: "r \<in> set (AppModule_routes (se_google env))" "ro_method r = rq_method rq"
    by (simp_all add: route_matches_def)
  have "ro_guard r = Some JwtAuthGuard" using write_guards [OF r(1)] assms(2,3) r(2) by simp
  then show "dispatch env mo rq s =
      (Failure \<lparr>statusCode = 401, message = OneMessage (Text (js ''Unauthorized'')), errors = None\<rparr>, s)"
    using assms(1,4) by (simp add: dispatch_def run_guard_def fail_def unauthorized_def js_def)
  have "list_all (\<lambda>r. ro_method r = GET \<or> ro_action r \<in> account_actions \<or> 401 \<in> set (ro_documented r))
      (AppModule_routes (se_google env))"
    by (simp add: controllers account_actions_def)
  then show "401 \<in> set (ro_documented r)" using r assms(2,3) by (auto simp: list_all_iff)
qed

theorem writes_demand_a_token_witness:
  "fst (dispatch demo_server_env demo_moment (demo_request POST [''v1'', ''articles''] None) demo_server) =
     Failure \<lparr>statusCode = 401, message = OneMessage (Text (js ''Unauthorized'')), errors = None\<rparr>"
proof -
  let ?rq = "demo_request POST [''v1'', ''articles''] None"
  have "find_route (se_google demo_server_env) (rq_method ?rq) (rq_path ?rq) = Some (hd ArticlesController)"
    by (simp add: demo_server_env_def demo_request_def find_route_create)
  from writes_demand_a_token [OF this, of demo_moment demo_server]
  show ?thesis
    by (simp add: demo_request_def account_actions_def controllers JwtStrategy_def)
qed

section \<open>From the form to the reader\<close>

lemma unauthorized_response: "handleException unauthorized =
    (\<lparr>statusCode = 401, message = OneMessage (Text (js ''Unauthorized'')), errors = None\<rparr>, [])"
  by (simp add: unauthorized_def js_def)

lemma fold_case_slug: "slug_wf s \<Longrightarrow> fold_case s = s"
  by (auto simp: slug_wf_def fold_case_def list_all_iff is_slug_char_def is_digit_def intro!: map_idI)



section \<open>From the form to the mailbox\<close>

text \<open>The worker of the mail queue takes one job after the other.\<close>

fun work_off :: "mail_env \<Rightarrow> queued_job list \<Rightarrow> mail list \<Rightarrow> mail list" where
  "work_off env [] out = out"
| "work_off env (j # jobs) out = work_off env jobs (snd (process env booted_registry (q_name j) (q_data j) out))"

definition notification_mail_of :: "mail_env \<Rightarrow> notification_job \<Rightarrow> mail" where
  "notification_mail_of env j = \<lparr>m_from = mailFrom env, m_to = nj_to j, m_subject = nj_subject j,
     m_text = nj_body j, m_html = None\<rparr>"

lemma work_off_notifications:
  "(\<And>o' m. transport env o' m = None) \<Longrightarrow>
   work_off env (map notification_queued jobs) out = out @ map (notification_mail_of env) jobs"
  by (induction jobs arbitrary: out)
    (simp_all add: notification_queued_def email_job_def process_def booted_registry_def register_handler_def
      jobName_def handle_def handleNotification_def send_def notification_mail_of_def ARTICLE_NOTIFICATION_JOB_def
      AUTH_PROVIDER_LINK_CONFIRMATION_JOB_def Let_def)



section \<open>The types the services rely on\<close>

lemma is_string_JStr: "is_string v \<longleftrightarrow> (\<exists>s. v = JStr s)"
  by (cases v) auto

lemma json_strings_map: "list_all is_string vs \<Longrightarrow> map JStr (json_strings vs) = vs"
  by (induction vs) (auto simp: is_string_JStr)

lemma accepted_check:
  assumes "validationPipe env fmt sch p = Inr obj" and "dp \<in> set sch" and "(c, m) \<in> set (dp_checks dp)"
    and "applies (dp_condition dp) (obj (dp_name dp))"
  shows "check_holds env obj (obj (dp_name dp)) c"
  using assms by (auto simp: pipe_Inr failing_Nil)

lemma accepted_text:
  assumes "validationPipe env fmt sch p = Inr obj" and "field nm cond cs \<in> set sch" and "(IsString, m) \<in> set cs"
    and "applies cond (obj nm)"
  shows "\<exists>s. obj nm = Some (JStr s)"
  using accepted_check [OF assms(1,2), of IsString m] assms(3,4)
  by (auto simp: field_def check_holds_def is_string_JStr split: option.splits)

lemma accepted_text_or_absent:
  assumes "validationPipe env fmt sch p = Inr obj" and "field nm ValidateIfDefined cs \<in> set sch" and "(IsString, m) \<in> set cs"
  shows "obj nm = map_option JStr (opt_str_of obj nm)"
  using accepted_text [OF assms] by (cases "obj nm") (auto simp: applies_def opt_str_of_def)

lemma accepted_tags:
  assumes "validationPipe env fmt sch p = Inr obj" and "tag_list_field \<in> set sch"
  shows "obj ''tagList'' = map_option (\<lambda>ss. JArr (map JStr ss)) (opt_strs_of obj ''tagList'')"
proof (cases "obj ''tagList''")
  case (Some v)
  have "check_holds env obj (obj ''tagList'') EachIsString"
    using accepted_check [OF assms, of EachIsString "I18nMessage ''common.validation.invalid'' ''Tag''"] Some
    by (simp add: tag_list_field_def field_def applies_def)
  then show ?thesis using Some by (cases v) (simp_all add: check_holds_def opt_strs_of_def json_strings_map)
qed (simp add: opt_strs_of_def)



end
